theory Spec2Isabelle
  imports Complex_Main "HOL-Library.Sublist"
begin

section \<open>Crystal Hunters: the simulation engine of GameCanvas\<close>

text \<open>
  A shallow embedding of the tick loop of \<^verbatim>\<open>GameCanvas\<close> (the component that
  follows \<^verbatim>\<open>App\<close> in the source file) and of \<^verbatim>\<open>types.ts\<close>.

  Conventions of the embedding.
  \<^item> A JavaScript \<^verbatim>\<open>number\<close> is a \<^typ>\<open>real\<close>: \<^verbatim>\<open>Math.sin\<close>, \<^verbatim>\<open>Math.cos\<close>,
    \<^verbatim>\<open>Math.hypot\<close>, \<^verbatim>\<open>Math.atan2\<close> and \<^verbatim>\<open>Math.floor\<close> are the functions of
    analysis, without the rounding of IEEE doubles. Grid coordinates, which the code only
    produces by \<^verbatim>\<open>Math.floor\<close> and \<^verbatim>\<open>++\<close>, are \<^typ>\<open>int\<close>; the two counters
    that are only reset and incremented are \<^typ>\<open>nat\<close>.
  \<^item> The module-level refs (\<^verbatim>\<open>playersRef\<close>, \<^verbatim>\<open>enemiesRef\<close>, ...) are the fields
    of one record that every operation takes and returns.
  \<^item> \<^verbatim>\<open>Math.random()\<close> reads the next element of a stream kept in that record.
  \<^item> The callbacks \<^verbatim>\<open>onGameOver\<close> and \<^verbatim>\<open>onLevelComplete\<close> append to a log.
\<close>

subsection \<open>types.ts\<close>

record Vector2 =
  xc :: real
  yc :: real

text \<open>\<^verbatim>\<open>EnvironmentObject\<close>; its fields carry the suffix \<open>_env\<close> because entities
  have fields of the same names.\<close>

datatype EnvType = Tree | Building

record EnvironmentObject =
  id_env :: string
  type_env :: EnvType
  pos_env :: Vector2
  size_env :: Vector2
  color_env :: string

subsection \<open>Numbers as text\<close>

text \<open>The decimal text of an integer, as a template literal renders an integral number
  (below \<open>10\<^sup>2\<^sup>1\<close> in magnitude, where JavaScript switches to exponents).\<close>

definition digit_char :: "nat \<Rightarrow> char" where
  "digit_char n = ''0123456789'' ! n"

function show_nat :: "nat \<Rightarrow> string" where
  "show_nat n =
     (if n < 10 then [digit_char n] else show_nat (n div 10) @ [digit_char (n mod 10)])"
  by pat_completeness auto
termination
  by (relation "measure (\<lambda>n. n)") auto

declare show_nat.simps [simp del]

definition show_int :: "int \<Rightarrow> string" where
  "show_int i = (if i < 0 then CHR ''-'' # show_nat (nat (- i)) else show_nat (nat i))"

subsection \<open>Procedural generation\<close>

definition GRID_CELL_SIZE :: real where
  "GRID_CELL_SIZE = 200"

text \<open>The first two locals of \<^verbatim>\<open>getEnvironmentAt\<close>, named so that statements can
  speak of them.\<close>

definition seedAt :: "int \<Rightarrow> int \<Rightarrow> real" where
  "seedAt gx gy = sin (of_int gx * 12.9898 + of_int gy * 78.233) * 43758.5453"

definition valAt :: "int \<Rightarrow> int \<Rightarrow> real" where
  "valAt gx gy = \<bar>seedAt gx gy - of_int \<lfloor>seedAt gx gy\<rfloor>\<bar>"

definition getEnvironmentAt :: "int \<Rightarrow> int \<Rightarrow> EnvironmentObject option" where
  "getEnvironmentAt gx gy =
     (let seed = seedAt gx gy;
          val = valAt gx gy;
          cx = of_int gx * GRID_CELL_SIZE + GRID_CELL_SIZE / 2;
          cy = of_int gy * GRID_CELL_SIZE + GRID_CELL_SIZE / 2;
          jitterX = cos (seed * 11) * GRID_CELL_SIZE * 0.4;
          jitterY = sin (seed * 22) * GRID_CELL_SIZE * 0.4;
          pos = \<lparr>xc = cx + jitterX, yc = cy + jitterY\<rparr>
      in if \<bar>gx\<bar> < 2 \<and> \<bar>gy\<bar> < 2 then None
         else if val > 0.85 then
           (let isWide = val > 0.95
            in Some \<lparr>id_env = ''b-'' @ show_int gx @ ''-'' @ show_int gy,
                      type_env = Building, pos_env = pos,
                      size_env = \<lparr>xc = (if isWide then 180 else 120), yc = 100 + val * 50\<rparr>,
                      color_env = (if val > 0.92 then ''#1f2937'' else ''#374151'')\<rparr>)
         else if val > 0.3 then
           Some \<lparr>id_env = ''t-'' @ show_int gx @ ''-'' @ show_int gy,
                  type_env = Tree, pos_env = pos,
                  size_env = \<lparr>xc = 40 + val * 40, yc = 0\<rparr>,
                  color_env = (if val > 0.6 then ''#166534'' else ''#15803d'')\<rparr>
         else None)"

text \<open>The two nested \<^verbatim>\<open>for\<close> loops of \<^verbatim>\<open>getEnvironmentInRect\<close>; each carries the
  array \<^verbatim>\<open>objects\<close> it pushes onto.\<close>

function envLoopY :: "int \<Rightarrow> int \<Rightarrow> int \<Rightarrow> EnvironmentObject list \<Rightarrow> EnvironmentObject list" where
  "envLoopY gx gy endY objects =
     (if gy \<le> endY + 1
      then envLoopY gx (gy + 1) endY
             (case getEnvironmentAt gx gy of
                Some obj \<Rightarrow> objects @ [obj]
              | None \<Rightarrow> objects)
      else objects)"
  by pat_completeness auto
termination
  by (relation "measure (\<lambda>(gx, gy, endY, objects). nat (endY + 2 - gy))") auto

declare envLoopY.simps [simp del]

function envLoopX :: "int \<Rightarrow> int \<Rightarrow> int \<Rightarrow> int \<Rightarrow> EnvironmentObject list \<Rightarrow> EnvironmentObject list" where
  "envLoopX gx endX startY endY objects =
     (if gx \<le> endX + 1
      then envLoopX (gx + 1) endX startY endY (envLoopY gx (startY - 1) endY objects)
      else objects)"
  by pat_completeness auto
termination
  by (relation "measure (\<lambda>(gx, endX, startY, endY, objects). nat (endX + 2 - gx))") auto

declare envLoopX.simps [simp del]

definition getEnvironmentInRect :: "real \<Rightarrow> real \<Rightarrow> real \<Rightarrow> real \<Rightarrow> EnvironmentObject list" where
  "getEnvironmentInRect x y w h =
     (let startX = \<lfloor>(x - w / 2) / GRID_CELL_SIZE\<rfloor>;
          endX = \<lfloor>(x + w / 2) / GRID_CELL_SIZE\<rfloor>;
          startY = \<lfloor>(y - h / 2) / GRID_CELL_SIZE\<rfloor>;
          endY = \<lfloor>(y + h / 2) / GRID_CELL_SIZE\<rfloor>
      in envLoopX (startX - 1) endX startY endY [])"

text \<open>The region query in the words of the specification: the oracle's results that are
  not none, over the inclusive cell range with one cell of halo, column by column.\<close>

definition haloCells :: "real \<Rightarrow> real \<Rightarrow> real \<Rightarrow> real \<Rightarrow> (int \<times> int) list" where
  "haloCells x y w h =
     concat (map (\<lambda>gx. map (\<lambda>gy. (gx, gy))
                          [\<lfloor>(y - h / 2) / GRID_CELL_SIZE\<rfloor> - 1 .. \<lfloor>(y + h / 2) / GRID_CELL_SIZE\<rfloor> + 1])
                 [\<lfloor>(x - w / 2) / GRID_CELL_SIZE\<rfloor> - 1 .. \<lfloor>(x + w / 2) / GRID_CELL_SIZE\<rfloor> + 1])"

definition queryRect_spec :: "real \<Rightarrow> real \<Rightarrow> real \<Rightarrow> real \<Rightarrow> EnvironmentObject list" where
  "queryRect_spec x y w h =
     List.map_filter (\<lambda>(gx, gy). getEnvironmentAt gx gy) (haloCells x y w h)"


subsection \<open>Entities\<close>

text \<open>An entity's \<^verbatim>\<open>id\<close> is one of the literals \<^verbatim>\<open>'p1'\<close>, \<^verbatim>\<open>'p2'\<close>,
  \<^verbatim>\<open>'boss'\<close>, or \<^verbatim>\<open>Math.random().toString()\<close>. The text of a number is kept as
  the number: all the code asks of an id is whether it starts with \<^verbatim>\<open>'p'\<close>, which the
  text of a number never does.\<close>

datatype Ident = Str string | NumStr real

fun startsWith_p :: "Ident \<Rightarrow> bool" where
  "startsWith_p (Str s) = (case s of [] \<Rightarrow> False | c # _ \<Rightarrow> c = CHR ''p'')"
| "startsWith_p (NumStr r) = False"

text \<open>A colour is a literal or the template \<^verbatim>\<open>hsl(${hue}, S%, L%)\<close>.\<close>

datatype Color = Lit string | Hsl real nat nat

datatype EntityType = T_player | T_enemy | T_boss | T_crystal | T_crate | T_pickup

record Entity =
  ident :: Ident
  pos :: Vector2
  vel :: Vector2
  radius :: real
  color :: Color
  rotation :: real
  hp :: real
  maxHp :: real
  dead :: bool
  etype :: EntityType

datatype WeaponType = Sniper | Ak47 | Shotgun | Minigun | Laser

datatype Role = Boy | Girl

record Player = Entity +
  role :: Role
  weapon :: WeaponType
  cooldown :: real
  maxCooldown :: real
  dashCooldown :: real
  score :: real
  isInvulnerable :: bool
  animFrame :: real

type_synonym Crate = Entity

record Pickup = Entity +
  weaponType :: WeaponType
  lifeTime_pk :: real

record EnemyVisuals =
  hue :: real
  scale :: real
  hasArmor :: bool
  hasHorns :: bool
  hasEye :: bool

datatype EnemyType = Walker | Shooter | Boss

record Enemy = Entity +
  enemyType :: EnemyType
  targetId :: "Ident option"
  attackCooldown :: real
  animFrame_en :: real
  visuals :: EnemyVisuals

datatype BulletType = Weapon WeaponType | Enemy_normal

record Bullet =
  id_b :: Ident
  pos_b :: Vector2
  vel_b :: Vector2
  radius_b :: real
  color_b :: Color
  ownerId :: Ident
  damage :: real
  lifeTime :: real
  isReflected :: bool
  bulletType :: BulletType

datatype ParticleType = Blood | Spark | Smoke

record Particle =
  id_pt :: Ident
  pos_pt :: Vector2
  vel_pt :: Vector2
  life :: real
  maxLife :: real
  color_pt :: Color
  size_pt :: real
  type_pt :: ParticleType

record LevelInfo =
  levelNumber :: int
  biomeName :: string
  description :: string
  bossName :: string
  bossDescription :: string

subsection \<open>The refs of GameCanvas\<close>

datatype Event = GameOver | LevelComplete

record Game =
  players :: "Player list"
  enemies :: "Enemy list"
  bullets :: "Bullet list"
  particles :: "Particle list"
  crystals :: "Entity list"
  crates :: "Crate list"
  pickups :: "Pickup list"
  camera :: Vector2
  waveTimer :: nat
  bossSpawned :: bool
  crystalsCollected :: nat
  randoms :: "nat \<Rightarrow> real"
  randomsUsed :: nat
  events :: "Event list"

text \<open>What a frame reads from outside the refs: the held keys and the window.\<close>

record Input =
  keysPressed :: "string set"
  innerWidth :: real
  innerHeight :: real

text \<open>\<open>rnd g k\<close> is what the \<open>k\<close>-th call of \<^verbatim>\<open>Math.random()\<close> from now returns
  (counting from 0); \<open>advance n\<close> records that \<open>n\<close> calls were made.\<close>

definition rnd :: "Game \<Rightarrow> nat \<Rightarrow> real" where
  "rnd g k = randoms g (randomsUsed g + k)"

definition advance :: "nat \<Rightarrow> Game \<Rightarrow> Game" where
  "advance n g = g\<lparr>randomsUsed := randomsUsed g + n\<rparr>"

subsection \<open>Constants and arithmetic\<close>

text \<open>\<^verbatim>\<open>levelInfo?.levelNumber || 1\<close>: a missing record and the number 0 both give 1.\<close>

definition levelOr1 :: "LevelInfo option \<Rightarrow> int" where
  "levelOr1 levelInfo =
     (case levelInfo of
        None \<Rightarrow> 1
      | Some li \<Rightarrow> if levelNumber li = 0 then 1 else levelNumber li)"

definition CRYSTALS_TO_BOSS :: "LevelInfo option \<Rightarrow> int" where
  "CRYSTALS_TO_BOSS levelInfo = 10 + levelOr1 levelInfo * 2"

definition FRICTION :: real where
  "FRICTION = 0.88"

definition ACCELERATION :: real where
  "ACCELERATION = 0.6"

definition MAX_SPEED :: real where
  "MAX_SPEED = 6"

definition hypot :: "real \<Rightarrow> real \<Rightarrow> real" where
  "hypot a b = sqrt (a * a + b * b)"

text \<open>\<^verbatim>\<open>Math.atan2(y, x)\<close> on the reals (there is no negative zero here).\<close>

definition atan2 :: "real \<Rightarrow> real \<Rightarrow> real" where
  "atan2 b a =
     (if a > 0 then arctan (b / a)
      else if a < 0 \<and> b \<ge> 0 then arctan (b / a) + pi
      else if a < 0 then arctan (b / a) - pi
      else if b > 0 then pi / 2
      else if b < 0 then - (pi / 2)
      else 0)"


subsection \<open>Spawning\<close>

text \<open>One round of the loop of \<^verbatim>\<open>spawnParticle\<close>: five calls of \<^verbatim>\<open>Math.random()\<close>,
  in the order speed, angle, id, life, size.\<close>

definition spawnParticle1 :: "Vector2 \<Rightarrow> Color \<Rightarrow> ParticleType \<Rightarrow> Game \<Rightarrow> Game" where
  "spawnParticle1 p c t g =
     (let speed = rnd g 0 * 4 + 1;
          angle = rnd g 1 * pi * 2
      in advance 5
           (g\<lparr>particles := particles g @
                [\<lparr>id_pt = NumStr (rnd g 2), pos_pt = p,
                  vel_pt = \<lparr>xc = cos angle * speed, yc = sin angle * speed\<rparr>,
                  life = 20 + rnd g 3 * 20, maxLife = 40, color_pt = c,
                  size_pt = rnd g 4 * 4 + 2, type_pt = t\<rparr>]\<rparr>))"

fun spawnParticle :: "Vector2 \<Rightarrow> Color \<Rightarrow> nat \<Rightarrow> ParticleType \<Rightarrow> Game \<Rightarrow> Game" where
  "spawnParticle p c 0 t g = g"
| "spawnParticle p c (Suc n) t g = spawnParticle p c n t (spawnParticle1 p c t g)"

text \<open>The defaults of \<^verbatim>\<open>spawnBullet\<close> and its \<^verbatim>\<open>switch\<close>, as (damage, radius,
  lifeTime, color).\<close>

definition bulletStats :: "Ident \<Rightarrow> BulletType \<Rightarrow> real \<times> real \<times> real \<times> Color" where
  "bulletStats owner bt =
     (let damage0 = (15::real); radius0 = (4::real); lifeTime0 = (120::real);
          color0 = (if startsWith_p owner then Lit ''#ffea00'' else Lit ''#ff4444'')
      in case bt of
           Weapon Sniper \<Rightarrow> (150, 5, 100, Lit ''#60a5fa'')
         | Weapon Shotgun \<Rightarrow> (12, 3, 30, Lit ''#f97316'')
         | Weapon Minigun \<Rightarrow> (8, 3, 60, Lit ''#fbbf24'')
         | Weapon Laser \<Rightarrow> (25, 4, 80, Lit ''#4ade80'')
         | Weapon Ak47 \<Rightarrow> (20, 4, 80, Lit ''#fcd34d'')
         | Enemy_normal \<Rightarrow> (10, 6, 100, Lit ''#ef4444''))"

definition spawnBullet :: "Vector2 \<Rightarrow> Vector2 \<Rightarrow> Ident \<Rightarrow> BulletType \<Rightarrow> Game \<Rightarrow> Game" where
  "spawnBullet p v owner bt g =
     (case bulletStats owner bt of
        (dmg, rad, lt, col) \<Rightarrow>
          (let g1 = advance 1
                 (g\<lparr>bullets := bullets g @
                      [\<lparr>id_b = NumStr (rnd g 0), pos_b = p, vel_b = v, radius_b = rad,
                        color_b = col, ownerId = owner, damage = dmg, lifeTime = lt,
                        isReflected = False, bulletType = bt\<rparr>]\<rparr>)
           in if bt \<noteq> Enemy_normal then spawnParticle p col 3 Spark g1 else g1))"

definition getCameraCenter :: "Game \<Rightarrow> Vector2" where
  "getCameraCenter g =
     (let alivePlayers = filter (\<lambda>p. \<not> dead p) (players g)
      in if length alivePlayers = 0 then \<lparr>xc = 0, yc = 0\<rparr>
         else (let sum = foldl (\<lambda>acc p. \<lparr>xc = xc acc + xc (pos p), yc = yc acc + yc (pos p)\<rparr>)
                           \<lparr>xc = 0, yc = 0\<rparr> alivePlayers
               in \<lparr>xc = xc sum / real (length alivePlayers),
                   yc = yc sum / real (length alivePlayers)\<rparr>))"

text \<open>\<^verbatim>\<open>spawnEnemy\<close> calls \<^verbatim>\<open>Math.random()\<close> for the angle, the distance and the five
  fields of \<^verbatim>\<open>visuals\<close>; a regular enemy takes two more, for its kind and its id.\<close>

definition spawnEnemy :: "LevelInfo option \<Rightarrow> bool \<Rightarrow> Game \<Rightarrow> Game" where
  "spawnEnemy levelInfo isBoss g =
     (let angle = rnd g 0 * pi * 2;
          distance = 800 + rnd g 1 * 200;
          center = getCameraCenter g;
          spawnPos = \<lparr>xc = xc center + cos angle * distance, yc = yc center + sin angle * distance\<rparr>;
          vis = \<lparr>hue = rnd g 2 * 360, scale = 0.8 + rnd g 3 * 0.5, hasArmor = (rnd g 4 > 0.7),
                 hasHorns = (rnd g 5 > 0.5), hasEye = (rnd g 6 > 0.5)\<rparr>
      in if isBoss then
           advance 7
             (g\<lparr>enemies := enemies g @
                  [\<lparr>ident = Str ''boss'', pos = spawnPos, vel = \<lparr>xc = 0, yc = 0\<rparr>,
                    radius = 80, color = Lit ''#991b1b'', rotation = 0,
                    hp = 1500 * of_int (levelOr1 levelInfo),
                    maxHp = 1500 * of_int (levelOr1 levelInfo),
                    dead = False, etype = T_boss, enemyType = Boss, targetId = None,
                    attackCooldown = 0, animFrame_en = 0,
                    visuals = vis\<lparr>scale := 2.0, hasArmor := True, hasHorns := True\<rparr>\<rparr>]\<rparr>)
         else
           (let type = (if rnd g 7 > 0.6 then Shooter else Walker);
                hp0 = (50 + of_int (levelOr1 levelInfo) * 10) * scale vis;
                hp1 = (if hasArmor vis then hp0 * 1.5 else hp0)
            in advance 9
                 (g\<lparr>enemies := enemies g @
                      [\<lparr>ident = NumStr (rnd g 8), pos = spawnPos, vel = \<lparr>xc = 0, yc = 0\<rparr>,
                        radius = (if type = Shooter then 25 else 30) * scale vis,
                        color = (if type = Shooter then Hsl (hue vis) 70 45 else Hsl (hue vis) 60 40),
                        rotation = 0, hp = hp1, maxHp = hp1, dead = False, etype = T_enemy,
                        enemyType = type, targetId = None, attackCooldown = 0, animFrame_en = 0,
                        visuals = vis\<rparr>]\<rparr>)))"

text \<open>The crystal's extra property \<^verbatim>\<open>animFrame: 0\<close> is not a field of \<^verbatim>\<open>Entity\<close>
  and nothing reads it.\<close>

definition spawnCrystal :: "Game \<Rightarrow> Game" where
  "spawnCrystal g =
     (let angle = rnd g 0 * pi * 2;
          distance = 400 + rnd g 1 * 1600;
          center = getCameraCenter g
      in advance 4
           (g\<lparr>crystals := crystals g @
                [\<lparr>ident = NumStr (rnd g 2),
                  pos = \<lparr>xc = xc center + cos angle * distance, yc = yc center + sin angle * distance\<rparr>,
                  vel = \<lparr>xc = 0, yc = 0\<rparr>, radius = 15, color = Lit ''#d8b4fe'',
                  rotation = rnd g 3 * pi, hp = 1, maxHp = 1, dead = False,
                  etype = T_crystal\<rparr>]\<rparr>))"

definition spawnCrate :: "Game \<Rightarrow> Game" where
  "spawnCrate g =
     (let angle = rnd g 0 * pi * 2;
          distance = 300 + rnd g 1 * 1000;
          center = getCameraCenter g
      in advance 3
           (g\<lparr>crates := crates g @
                [\<lparr>ident = NumStr (rnd g 2),
                  pos = \<lparr>xc = xc center + cos angle * distance, yc = yc center + sin angle * distance\<rparr>,
                  vel = \<lparr>xc = 0, yc = 0\<rparr>, radius = 25, color = Lit ''#f97316'', rotation = 0,
                  hp = 30, maxHp = 30, dead = False, etype = T_crate\<rparr>]\<rparr>))"

text \<open>\<^verbatim>\<open>weapons[Math.floor(Math.random() * weapons.length)]\<close>; the index is in range
  because \<^verbatim>\<open>Math.random()\<close> is in \<open>[0, 1)\<close>, and the last case stands for index 4.\<close>

definition weaponAt :: "int \<Rightarrow> WeaponType" where
  "weaponAt i =
     (if i = 0 then Shotgun else if i = 1 then Minigun else if i = 2 then Laser
      else if i = 3 then Sniper else Ak47)"

definition spawnPickup :: "Vector2 \<Rightarrow> Game \<Rightarrow> Game" where
  "spawnPickup p g =
     (let randomWeapon = weaponAt \<lfloor>rnd g 0 * 5\<rfloor>
      in advance 2
           (g\<lparr>pickups := pickups g @
                [\<lparr>ident = NumStr (rnd g 1), pos = p, vel = \<lparr>xc = 0, yc = 0\<rparr>, radius = 15,
                  color = Lit ''#fff'', rotation = 0, hp = 1, maxHp = 1, dead = False,
                  etype = T_pickup, weaponType = randomWeapon, lifeTime_pk = 1800\<rparr>]\<rparr>))"

subsection \<open>Collision with the environment\<close>

text \<open>The body of the loop of \<^verbatim>\<open>checkEnvironmentCollision\<close>, for one obstacle.\<close>

definition collideEnv :: "EnvironmentObject \<Rightarrow> 'a Entity_scheme \<Rightarrow> 'a Entity_scheme" where
  "collideEnv env entity =
     (if type_env env = Tree then
        (let dx = xc (pos entity) - xc (pos_env env);
             dy = yc (pos entity) - yc (pos_env env);
             dist = hypot dx dy;
             minDist = xc (size_env env) + radius entity
         in if dist < minDist then
              (let angle = atan2 dy dx;
                   push = minDist - dist
               in entity\<lparr>pos := \<lparr>xc = xc (pos entity) + cos angle * push,
                                  yc = yc (pos entity) + sin angle * push\<rparr>,
                         vel := \<lparr>xc = xc (vel entity) * 0.8, yc = yc (vel entity) * 0.8\<rparr>\<rparr>)
            else entity)
      else if type_env env = Building then
        (let halfW = xc (size_env env) / 2;
             halfH = yc (size_env env) / 2;
             clampX = max (xc (pos_env env) - halfW) (min (xc (pos entity)) (xc (pos_env env) + halfW));
             clampY = max (yc (pos_env env) - halfH) (min (yc (pos entity)) (yc (pos_env env) + halfH));
             dx = xc (pos entity) - clampX;
             dy = yc (pos entity) - clampY;
             dist = hypot dx dy
         in if dist < radius entity then
              (let angle = atan2 dy dx;
                   push = radius entity - dist
               in entity\<lparr>pos := \<lparr>xc = xc (pos entity) + cos angle * push,
                                  yc = yc (pos entity) + sin angle * push\<rparr>,
                         vel := \<lparr>xc = xc (vel entity) * 0.5, yc = yc (vel entity) * 0.5\<rparr>\<rparr>)
            else entity)
      else entity)"

definition checkEnvironmentCollision :: "'a Entity_scheme \<Rightarrow> 'a Entity_scheme" where
  "checkEnvironmentCollision entity =
     (let nearby = getEnvironmentInRect (xc (pos entity)) (yc (pos entity)) 300 300
      in foldl (\<lambda>e env. collideEnv env e) entity nearby)"


subsection \<open>Firing\<close>

definition fireWeapon :: "Player \<Rightarrow> Game \<Rightarrow> Player \<times> Game" where
  "fireWeapon p g =
     (let muzzleDist = 35;
          muzzlePos = \<lparr>xc = xc (pos p) + cos (rotation p) * muzzleDist,
                       yc = yc (pos p) + sin (rotation p) * muzzleDist\<rparr>;
          (p1, g1) =
            (if weapon p = Sniper then
               (let v = \<lparr>xc = cos (rotation p) * 35, yc = sin (rotation p) * 35\<rparr>
                in (p\<lparr>maxCooldown := 90,
                      vel := \<lparr>xc = xc (vel p) - cos (rotation p) * 8,
                               yc = yc (vel p) - sin (rotation p) * 8\<rparr>\<rparr>,
                    spawnBullet muzzlePos v (ident p) (Weapon Sniper) g))
             else if weapon p = Shotgun then
               (p\<lparr>maxCooldown := 60,
                   vel := \<lparr>xc = xc (vel p) - cos (rotation p) * 6,
                            yc = yc (vel p) - sin (rotation p) * 6\<rparr>\<rparr>,
                fold (\<lambda>i. spawnBullet muzzlePos
                              \<lparr>xc = cos (rotation p + of_int i * 0.15) * 12,
                                yc = sin (rotation p + of_int i * 0.15) * 12\<rparr>
                              (ident p) (Weapon Shotgun))
                     [- 2 .. 2] g)
             else if weapon p = Minigun then
               (let spread = (rnd g 0 - 0.5) * 0.4;
                    v = \<lparr>xc = cos (rotation p + spread) * 18, yc = sin (rotation p + spread) * 18\<rparr>
                in (p\<lparr>maxCooldown := 4,
                      vel := \<lparr>xc = xc (vel p) - cos (rotation p) * 0.5,
                               yc = yc (vel p) - sin (rotation p) * 0.5\<rparr>\<rparr>,
                    spawnBullet muzzlePos v (ident p) (Weapon Minigun) (advance 1 g)))
             else if weapon p = Laser then
               (let v = \<lparr>xc = cos (rotation p) * 25, yc = sin (rotation p) * 25\<rparr>
                in (p\<lparr>maxCooldown := 25\<rparr>,
                    spawnBullet muzzlePos v (ident p) (Weapon Laser) g))
             else
               (let spread = (rnd g 0 - 0.5) * 0.1;
                    v = \<lparr>xc = cos (rotation p + spread) * 16, yc = sin (rotation p + spread) * 16\<rparr>
                in (p\<lparr>maxCooldown := 10,
                      vel := \<lparr>xc = xc (vel p) - cos (rotation p) * 1,
                               yc = yc (vel p) - sin (rotation p) * 1\<rparr>\<rparr>,
                    spawnBullet muzzlePos v (ident p) (Weapon Ak47) (advance 1 g))))
      in (p1\<lparr>cooldown := maxCooldown p1\<rparr>, g1))"

subsection \<open>update: the player pass\<close>

text \<open>The force of the held movement keys.\<close>

definition controls :: "Input \<Rightarrow> Player \<Rightarrow> Vector2" where
  "controls inp p =
     (let keys = keysPressed inp;
          up = (if role p = Boy then ''KeyW'' else ''ArrowUp'');
          down = (if role p = Boy then ''KeyS'' else ''ArrowDown'');
          left = (if role p = Boy then ''KeyA'' else ''ArrowLeft'');
          right = (if role p = Boy then ''KeyD'' else ''ArrowRight'');
          fy1 = (if up \<in> keys then 0 - ACCELERATION else 0);
          fy2 = (if down \<in> keys then fy1 + ACCELERATION else fy1);
          fx1 = (if left \<in> keys then 0 - ACCELERATION else 0);
          fx2 = (if right \<in> keys then fx1 + ACCELERATION else fx1)
      in \<lparr>xc = fx2, yc = fy2\<rparr>)"

text \<open>The search loop that the auto aim (from the player, within 1200) and the sniper's
  homing (from the bullet, within 800) both run over \<^verbatim>\<open>enemiesRef.current\<close>: it carries
  \<^verbatim>\<open>minDist\<close> and \<^verbatim>\<open>target\<close>.\<close>

fun nearestLoop :: "Vector2 \<Rightarrow> Enemy list \<Rightarrow> real \<Rightarrow> Enemy option \<Rightarrow> Enemy option" where
  "nearestLoop from [] minDist target = target"
| "nearestLoop from (e # es) minDist target =
     (let d = hypot (xc (pos e) - xc from) (yc (pos e) - yc from)
      in if d < minDist then nearestLoop from es d (Some e)
         else nearestLoop from es minDist target)"

text \<open>The auto aim: the rotation the player has when the shot is decided.\<close>

definition autoAim :: "Input \<Rightarrow> Enemy list \<Rightarrow> Player \<Rightarrow> Player" where
  "autoAim inp es p =
     (let force = controls inp p
      in case nearestLoop (pos p) es 1200 None of
           Some target \<Rightarrow>
             p\<lparr>rotation := atan2 (yc (pos target) - yc (pos p)) (xc (pos target) - xc (pos p))\<rparr>
         | None \<Rightarrow>
             if \<bar>xc force\<bar> > 0 \<or> \<bar>yc force\<bar> > 0
             then p\<lparr>rotation := atan2 (yc force) (xc force)\<rparr>
             else p)"

definition shooting :: "Input \<Rightarrow> Player \<Rightarrow> Game \<Rightarrow> Player \<times> Game" where
  "shooting inp p g =
     (let fireKey = (if role p = Boy then ''Space'' else ''Enter'')
      in if fireKey \<in> keysPressed inp \<and> cooldown p \<le> 0 then fireWeapon p g else (p, g))"

definition physics :: "Vector2 \<Rightarrow> Player \<Rightarrow> Player" where
  "physics force p =
     (let v1 = \<lparr>xc = (xc (vel p) + xc force) * FRICTION, yc = (yc (vel p) + yc force) * FRICTION\<rparr>;
          currSpeed = hypot (xc v1) (yc v1);
          v2 = (if currSpeed > MAX_SPEED
                then \<lparr>xc = (xc v1 / currSpeed) * MAX_SPEED, yc = (yc v1 / currSpeed) * MAX_SPEED\<rparr>
                else v1);
          p1 = p\<lparr>vel := v2, pos := \<lparr>xc = xc (pos p) + xc v2, yc = yc (pos p) + yc v2\<rparr>\<rparr>;
          p2 = checkEnvironmentCollision p1;
          p3 = p2\<lparr>animFrame := animFrame p2 + currSpeed * 0.15\<rparr>
      in if cooldown p3 > 0 then p3\<lparr>cooldown := cooldown p3 - 1\<rparr> else p3)"

text \<open>The callback of \<^verbatim>\<open>playersRef.current.forEach\<close>, for the player at index \<open>i\<close>.\<close>

definition updatePlayer :: "Input \<Rightarrow> nat \<Rightarrow> Game \<Rightarrow> Game" where
  "updatePlayer inp i g =
     (let p = players g ! i
      in if dead p then g
         else (let force = controls inp p;
                   p1 = autoAim inp (enemies g) p;
                   (p2, g2) = shooting inp p1 g;
                   p3 = physics force p2
               in g2\<lparr>players := (players g2)[i := p3]\<rparr>))"

definition playerPass :: "Input \<Rightarrow> Game \<Rightarrow> Game" where
  "playerPass inp g = fold (updatePlayer inp) [0 ..< length (players g)] g"

subsection \<open>update: crates and pickups\<close>

definition touchCrate :: "nat \<Rightarrow> nat \<Rightarrow> Game \<Rightarrow> Game" where
  "touchCrate pidx ci g =
     (let p = players g ! pidx;
          c = crates g ! ci
      in if dead c then g
         else if hypot (xc (pos c) - xc (pos p)) (yc (pos c) - yc (pos p)) < radius p + radius c
         then (let g1 = g\<lparr>crates := (crates g)[ci := c\<lparr>dead := True\<rparr>]\<rparr>;
                   g2 = spawnParticle (pos c) (Lit ''#f97316'') 10 Spark g1
               in spawnPickup (pos c) g2)
         else g)"

definition touchPickup :: "nat \<Rightarrow> nat \<Rightarrow> Game \<Rightarrow> Game" where
  "touchPickup pidx ki g =
     (let p = players g ! pidx;
          pk = pickups g ! ki
      in if dead pk then g
         else if hypot (xc (pos pk) - xc (pos p)) (yc (pos pk) - yc (pos p)) < radius p + radius pk
         then (let g1 = g\<lparr>pickups := (pickups g)[ki := pk\<lparr>dead := True\<rparr>],
                          players := (players g)[pidx := p\<lparr>weapon := weaponType pk\<rparr>]\<rparr>
               in spawnParticle (pos p) (Lit ''#fff'') 10 Spark g1)
         else g)"

definition interact :: "nat \<Rightarrow> Game \<Rightarrow> Game" where
  "interact pidx g =
     (let g1 = fold (touchCrate pidx) [0 ..< length (crates g)] g
      in fold (touchPickup pidx) [0 ..< length (pickups g1)] g1)"

definition interactionPass :: "Game \<Rightarrow> Game" where
  "interactionPass g =
     (let alive = filter (\<lambda>i. \<not> dead (players g ! i)) [0 ..< length (players g)];
          g1 = fold interact alive g
      in g1\<lparr>crates := filter (\<lambda>c. \<not> dead c) (crates g1),
             pickups := filter (\<lambda>p. \<not> dead p) (pickups g1)\<rparr>)"


subsection \<open>update: the enemy pass\<close>

text \<open>\<^verbatim>\<open>activePlayers\<close> is kept as the list of the indices in \<^verbatim>\<open>playersRef.current\<close> of
  the players alive when the tick began: the array holds the player objects themselves, so
  a later read through it sees what the tick has done to them since.

  The target search starts from \<^verbatim>\<open>activePlayers[0]\<close> and \<^verbatim>\<open>minDist = Infinity\<close>,
  which is \<open>None\<close> here.\<close>

fun targetLoop :: "Enemy \<Rightarrow> Game \<Rightarrow> nat list \<Rightarrow> real option \<Rightarrow> nat option \<Rightarrow> nat option" where
  "targetLoop e g [] minDist target = target"
| "targetLoop e g (i # is) minDist target =
     (let p = players g ! i;
          d = hypot (xc (pos p) - xc (pos e)) (yc (pos p) - yc (pos e))
      in if (case minDist of None \<Rightarrow> True | Some m \<Rightarrow> d < m)
         then targetLoop e g is (Some d) (Some i)
         else targetLoop e g is minDist target)"

definition flock :: "nat \<Rightarrow> Enemy \<Rightarrow> Enemy list \<Rightarrow> Vector2 \<Rightarrow> Vector2" where
  "flock i e es moveForce =
     fold (\<lambda>j mf.
             if i = j then mf
             else (let other = es ! j;
                       diffX = xc (pos e) - xc (pos other);
                       diffY = yc (pos e) - yc (pos other);
                       d = hypot diffX diffY;
                       repelDist = radius e + radius other + 20
                   in if d < repelDist \<and> d > 0
                      then (let repelForce = (repelDist - d) / repelDist
                            in \<lparr>xc = xc mf + (diffX / d) * repelForce * 0.8,
                                yc = yc mf + (diffY / d) * repelForce * 0.8\<rparr>)
                      else mf))
          [0 ..< length es] moveForce"

definition enemyAttack :: "Enemy \<Rightarrow> Player \<Rightarrow> real \<Rightarrow> Game \<Rightarrow> Enemy \<times> Game" where
  "enemyAttack e target tdist g =
     (let (e1, g1) =
            (if enemyType e = Shooter \<and> attackCooldown e \<le> 0 \<and> tdist < 550 then
               (let angle = atan2 (yc (pos target) - yc (pos e)) (xc (pos target) - xc (pos e));
                    gb = spawnBullet (pos e) \<lparr>xc = cos angle * 7, yc = sin angle * 7\<rparr>
                           (ident e) Enemy_normal g
                in (e\<lparr>attackCooldown := 80 + rnd gb 0 * 40\<rparr>, advance 1 gb))
             else if enemyType e = Boss \<and> attackCooldown e \<le> 0 then
               (e\<lparr>attackCooldown := 120\<rparr>,
                fold (\<lambda>k. spawnBullet (pos e)
                              \<lparr>xc = cos (rotation e + (pi / 8) * real k) * 5,
                                yc = sin (rotation e + (pi / 8) * real k) * 5\<rparr>
                              (ident e) Enemy_normal)
                     [0 ..< 16] g)
             else (e, g))
      in (if attackCooldown e1 > 0 then e1\<lparr>attackCooldown := attackCooldown e1 - 1\<rparr> else e1,
          g1))"

text \<open>The callback of \<^verbatim>\<open>enemies.forEach\<close>, for the enemy at index \<open>i\<close>.\<close>

definition updateEnemy :: "nat list \<Rightarrow> nat \<Rightarrow> Game \<Rightarrow> Game" where
  "updateEnemy activePlayers i g =
     (let e = enemies g ! i;
          target = targetLoop e g activePlayers None
                     (case activePlayers of [] \<Rightarrow> None | a # _ \<Rightarrow> Some a);
          (e1, g1) =
            (case target of
               None \<Rightarrow> (e, g)
             | Some ti \<Rightarrow>
                 (let t = players g ! ti;
                      dx = xc (pos t) - xc (pos e);
                      dy = yc (pos t) - yc (pos e);
                      dist = hypot dx dy;
                      er = e\<lparr>rotation := atan2 dy dx\<rparr>;
                      baseSpeed = (if enemyType er = Boss then 0.2
                                   else if enemyType er = Shooter then 0.25 else 0.35);
                      speedMod = 1 / scale (visuals er);
                      speed = baseSpeed * speedMod;
                      moveForce0 =
                        (if enemyType er = Shooter \<and> dist < 300
                         then \<lparr>xc = 0 - cos (rotation er) * speed, yc = 0 - sin (rotation er) * speed\<rparr>
                         else \<lparr>xc = 0 + cos (rotation er) * speed, yc = 0 + sin (rotation er) * speed\<rparr>);
                      moveForce = flock i er (enemies g) moveForce0;
                      ev = er\<lparr>vel := \<lparr>xc = xc (vel er) + xc moveForce,
                                       yc = yc (vel er) + yc moveForce\<rparr>\<rparr>
                  in enemyAttack ev t dist g));
          e2 = e1\<lparr>vel := \<lparr>xc = xc (vel e1) * FRICTION, yc = yc (vel e1) * FRICTION\<rparr>\<rparr>;
          e3 = e2\<lparr>pos := \<lparr>xc = xc (pos e2) + xc (vel e2), yc = yc (pos e2) + yc (vel e2)\<rparr>\<rparr>;
          e4 = checkEnvironmentCollision e3;
          e5 = e4\<lparr>animFrame_en := animFrame_en e4 + hypot (xc (vel e4)) (yc (vel e4)) * 0.1\<rparr>
      in g1\<lparr>enemies := (enemies g1)[i := e5]\<rparr>)"

definition enemyPass :: "nat list \<Rightarrow> Game \<Rightarrow> Game" where
  "enemyPass activePlayers g = fold (updateEnemy activePlayers) [0 ..< length (enemies g)] g"

subsection \<open>update: crystal collection\<close>

text \<open>The \<^verbatim>\<open>for (const p of activePlayers)\<close> loop of the filter callback, with its
  \<^verbatim>\<open>break\<close>; the flag is \<^verbatim>\<open>collected\<close>.\<close>

fun collectLoop :: "Entity \<Rightarrow> nat list \<Rightarrow> Game \<Rightarrow> bool \<times> Game" where
  "collectLoop c [] g = (False, g)"
| "collectLoop c (i # is) g =
     (let p = players g ! i
      in if hypot (xc (pos p) - xc (pos c)) (yc (pos p) - yc (pos c)) < 50
         then (let g1 = spawnParticle (pos c) (Lit ''#a855f7'') 15 Spark g;
                   g2 = g1\<lparr>crystalsCollected := crystalsCollected g1 + 1\<rparr>;
                   q = players g2 ! i
               in (True, g2\<lparr>players := (players g2)[i := q\<lparr>score := score q + 50\<rparr>]\<rparr>))
         else collectLoop c is g)"

fun crystalFilter :: "nat list \<Rightarrow> Entity list \<Rightarrow> Game \<Rightarrow> Entity list \<times> Game" where
  "crystalFilter activePlayers [] g = ([], g)"
| "crystalFilter activePlayers (c # cs) g =
     (let (collected, g1) = collectLoop c activePlayers g;
          (kept, g2) = crystalFilter activePlayers cs g1
      in (if collected then kept else c # kept, g2))"

definition crystalPass :: "nat list \<Rightarrow> Game \<Rightarrow> Game" where
  "crystalPass activePlayers g =
     (let (kept, g1) = crystalFilter activePlayers (crystals g) g
      in g1\<lparr>crystals := kept\<rparr>)"


subsection \<open>update: the bullet pass\<close>

definition homing :: "Enemy list \<Rightarrow> Bullet \<Rightarrow> Bullet" where
  "homing es b =
     (if bulletType b = Weapon Sniper then
        (case nearestLoop (pos_b b) es 800 None of
           Some bTarget \<Rightarrow>
             (let targetAngle = atan2 (yc (pos bTarget) - yc (pos_b b)) (xc (pos bTarget) - xc (pos_b b));
                  currentSpeed = hypot (xc (vel_b b)) (yc (vel_b b))
              in b\<lparr>vel_b := \<lparr>xc = xc (vel_b b) + (cos targetAngle * currentSpeed - xc (vel_b b)) * 0.2,
                                yc = yc (vel_b b) + (sin targetAngle * currentSpeed - yc (vel_b b)) * 0.2\<rparr>\<rparr>)
         | None \<Rightarrow> b)
      else b)"

text \<open>\<^verbatim>\<open>b.pos.x += b.vel.x; b.pos.y += b.vel.y; b.lifeTime--\<close>\<close>

definition advanceBullet :: "Bullet \<Rightarrow> Bullet" where
  "advanceBullet b =
     b\<lparr>pos_b := \<lparr>xc = xc (pos_b b) + xc (vel_b b), yc = yc (pos_b b) + yc (vel_b b)\<rparr>,
       lifeTime := lifeTime b - 1\<rparr>"

definition insideBuilding :: "Bullet \<Rightarrow> EnvironmentObject \<Rightarrow> bool" where
  "insideBuilding b env =
     (let halfW = xc (size_env env) / 2;
          halfH = yc (size_env env) / 2
      in xc (pos_b b) > xc (pos_env env) - halfW \<and> xc (pos_b b) < xc (pos_env env) + halfW \<and>
         yc (pos_b b) > yc (pos_env env) - halfH \<and> yc (pos_b b) < yc (pos_env env) + halfH)"

text \<open>The loop "Environment Wall" over \<^verbatim>\<open>bulletEnvironment\<close>, with its \<^verbatim>\<open>break\<close>.\<close>

fun wallLoop :: "EnvironmentObject list \<Rightarrow> Bullet \<Rightarrow> Game \<Rightarrow> Bullet \<times> Game" where
  "wallLoop [] b g = (b, g)"
| "wallLoop (env # envs) b g =
     (if type_env env = Building \<and> insideBuilding b env
      then (b\<lparr>lifeTime := 0\<rparr>, spawnParticle (pos_b b) (Lit ''#555'') 5 Smoke g)
      else wallLoop envs b g)"

text \<open>The loop "Hit Crate" over the indices of \<^verbatim>\<open>crateTargets\<close>, with its
  \<^verbatim>\<open>continue\<close> and \<^verbatim>\<open>break\<close>.\<close>

fun crateLoop :: "nat list \<Rightarrow> Bullet \<Rightarrow> Game \<Rightarrow> Bullet \<times> Game" where
  "crateLoop [] b g = (b, g)"
| "crateLoop (ci # crest) b g =
     (let c = crates g ! ci
      in if dead c then crateLoop crest b g
         else if hypot (xc (pos_b b) - xc (pos c)) (yc (pos_b b) - yc (pos c)) < radius c + radius_b b
         then (let c1 = c\<lparr>hp := hp c - damage b\<rparr>;
                   b1 = b\<lparr>lifeTime := 0\<rparr>;
                   g1 = spawnParticle (pos_b b) (Lit ''#f97316'') 3 Spark g;
                   (c2, g2) =
                     (if hp c1 \<le> 0
                      then (c1\<lparr>dead := True\<rparr>,
                            spawnPickup (pos c1) (spawnParticle (pos c1) (Lit ''#f97316'') 15 Spark g1))
                      else (c1, g1))
               in (b1, g2\<lparr>crates := (crates g2)[ci := c2]\<rparr>))
         else crateLoop crest b g)"

text \<open>\<^verbatim>\<open>activePlayers.forEach(p => p.score += 100)\<close>\<close>

definition scoreAll :: "nat list \<Rightarrow> Game \<Rightarrow> Game" where
  "scoreAll activePlayers g =
     fold (\<lambda>i h. h\<lparr>players := (players h)[i := (players h ! i)\<lparr>score := score (players h ! i) + 100\<rparr>]\<rparr>)
          activePlayers g"

text \<open>The loop "Hit Enemies/Players", once for each of the two arrays that
  \<^verbatim>\<open>targets\<close> can be.\<close>

fun enemyTargetLoop :: "nat list \<Rightarrow> nat list \<Rightarrow> Bullet \<Rightarrow> Game \<Rightarrow> Bullet \<times> Game" where
  "enemyTargetLoop activePlayers [] b g = (b, g)"
| "enemyTargetLoop activePlayers (ti # trest) b g =
     (let t = enemies g ! ti
      in if dead t then enemyTargetLoop activePlayers trest b g
         else if hypot (xc (pos_b b) - xc (pos t)) (yc (pos_b b) - yc (pos t)) < radius t + radius_b b
         then (let t1 = t\<lparr>hp := hp t - damage b\<rparr>;
                   b1 = b\<lparr>lifeTime := 0\<rparr>;
                   g1 = spawnParticle (pos_b b) (color t1) 5 Blood g
               in if hp t1 \<le> 0
                  then (let t2 = t1\<lparr>dead := True\<rparr>;
                            g2 = spawnParticle (pos t2) (color t2) 20 Blood g1;
                            g3 = g2\<lparr>enemies := (enemies g2)[ti := t2]\<rparr>
                        in (b1, if etype t2 = T_enemy \<or> etype t2 = T_boss
                                then scoreAll activePlayers g3 else g3))
                  else (b1, g1\<lparr>enemies := (enemies g1)[ti := t1]\<rparr>))
         else enemyTargetLoop activePlayers trest b g)"

fun playerTargetLoop :: "nat list \<Rightarrow> nat list \<Rightarrow> Bullet \<Rightarrow> Game \<Rightarrow> Bullet \<times> Game" where
  "playerTargetLoop activePlayers [] b g = (b, g)"
| "playerTargetLoop activePlayers (ti # trest) b g =
     (let t = players g ! ti
      in if dead t then playerTargetLoop activePlayers trest b g
         else if hypot (xc (pos_b b) - xc (pos t)) (yc (pos_b b) - yc (pos t)) < radius t + radius_b b
         then (let t1 = t\<lparr>hp := hp t - damage b\<rparr>;
                   b1 = b\<lparr>lifeTime := 0\<rparr>;
                   g1 = spawnParticle (pos_b b) (color t1) 5 Blood g
               in if hp t1 \<le> 0
                  then (let t2 = t1\<lparr>dead := True\<rparr>;
                            g2 = spawnParticle (pos t2) (color t2) 20 Blood g1;
                            g3 = g2\<lparr>players := (players g2)[ti := t2]\<rparr>
                        in (b1, if etype t2 = T_enemy \<or> etype t2 = T_boss
                                then scoreAll activePlayers g3 else g3))
                  else (b1, g1\<lparr>players := (players g1)[ti := t1]\<rparr>))
         else playerTargetLoop activePlayers trest b g)"

text \<open>What follows the guard \<^verbatim>\<open>if (b.lifeTime <= 0) return\<close>: the entity collisions.\<close>

definition entityCollision :: "nat list \<Rightarrow> Bullet \<Rightarrow> Game \<Rightarrow> Bullet \<times> Game" where
  "entityCollision activePlayers b g =
     (let playerOwned = startsWith_p (ownerId b);
          crateTargets = (if playerOwned then [0 ..< length (crates g)] else []);
          (b1, g1) = crateLoop crateTargets b g
      in if lifeTime b1 > 0
         then (if playerOwned
               then enemyTargetLoop activePlayers [0 ..< length (enemies g1)] b1 g1
               else playerTargetLoop activePlayers [0 ..< length (players g1)] b1 g1)
         else (b1, g1))"

text \<open>The callback of \<^verbatim>\<open>bulletsRef.current.forEach\<close>, for the bullet at index \<open>bi\<close>.\<close>

definition updateBullet :: "nat list \<Rightarrow> EnvironmentObject list \<Rightarrow> nat \<Rightarrow> Game \<Rightarrow> Game" where
  "updateBullet activePlayers bulletEnvironment bi g =
     (let b = bullets g ! bi;
          b1 = advanceBullet (homing (enemies g) b);
          (b2, g2) = wallLoop bulletEnvironment b1 g;
          (b3, g3) = (if lifeTime b2 \<le> 0 then (b2, g2) else entityCollision activePlayers b2 g2)
      in g3\<lparr>bullets := (bullets g3)[bi := b3]\<rparr>)"

definition bulletPass :: "Input \<Rightarrow> nat list \<Rightarrow> Game \<Rightarrow> Game" where
  "bulletPass inp activePlayers g =
     (let bulletEnvironment =
            getEnvironmentInRect (xc (camera g)) (yc (camera g))
              (innerWidth inp * 1.5) (innerHeight inp * 1.5);
          g1 = fold (updateBullet activePlayers bulletEnvironment) [0 ..< length (bullets g)] g
      in g1\<lparr>bullets := filter (\<lambda>b. lifeTime b > 0) (bullets g1),
             enemies := filter (\<lambda>e. \<not> dead e) (enemies g1)\<rparr>)"

subsection \<open>update: particles and camera\<close>

definition particlePass :: "Game \<Rightarrow> Game" where
  "particlePass g =
     g\<lparr>particles :=
         filter (\<lambda>p. life p > 0)
           (map (\<lambda>p. p\<lparr>pos_pt := \<lparr>xc = xc (pos_pt p) + xc (vel_pt p), yc = yc (pos_pt p) + yc (vel_pt p)\<rparr>,
                        life := life p - 1,
                        vel_pt := \<lparr>xc = xc (vel_pt p) * 0.9, yc = yc (vel_pt p) * 0.9\<rparr>\<rparr>)
                (particles g))\<rparr>"

definition cameraFollow :: "Game \<Rightarrow> Game" where
  "cameraFollow g =
     (let targetCam = getCameraCenter g
      in g\<lparr>camera := \<lparr>xc = xc (camera g) + (xc targetCam - xc (camera g)) * 0.05,
                        yc = yc (camera g) + (yc targetCam - yc (camera g)) * 0.05\<rparr>\<rparr>)"

subsection \<open>update\<close>

text \<open>The wave timer and the spawn policy, from \<^verbatim>\<open>waveTimerRef.current++\<close> to the end
  of \<^verbatim>\<open>if (!bossSpawnedRef.current)\<close>.\<close>

definition spawnPass :: "LevelInfo option \<Rightarrow> Game \<Rightarrow> Game" where
  "spawnPass levelInfo g =
     (let g0 = g\<lparr>waveTimer := waveTimer g + 1\<rparr>
      in if \<not> bossSpawned g0 then
           (let g1 = (if waveTimer g0 mod 120 = 0 \<and> length (enemies g0) < 30
                      then spawnEnemy levelInfo False g0 else g0);
                g2 = (if length (crystals g1) < 15 \<and> waveTimer g1 mod 60 = 0
                      then spawnCrystal g1 else g1);
                g3 = (if length (crates g2) < 5 \<and> waveTimer g2 mod 300 = 0
                      then spawnCrate g2 else g2)
            in if int (crystalsCollected g3) \<ge> CRYSTALS_TO_BOSS levelInfo
               then (spawnEnemy levelInfo True g3)\<lparr>bossSpawned := True\<rparr>
               else g3)
         else g0)"

text \<open>What \<^verbatim>\<open>update\<close> does after its two early returns.\<close>

definition passes :: "LevelInfo option \<Rightarrow> Input \<Rightarrow> nat list \<Rightarrow> Game \<Rightarrow> Game" where
  "passes levelInfo inp activePlayers g =
     cameraFollow
       (particlePass
          (bulletPass inp activePlayers
             (crystalPass activePlayers
                (enemyPass activePlayers
                   (interactionPass
                      (playerPass inp
                         (spawnPass levelInfo g)))))))"

definition update :: "LevelInfo option \<Rightarrow> Input \<Rightarrow> Game \<Rightarrow> Game" where
  "update levelInfo inp g =
     (let activePlayers = filter (\<lambda>i. \<not> dead (players g ! i)) [0 ..< length (players g)]
      in if length activePlayers = 0 then g\<lparr>events := events g @ [GameOver]\<rparr>
         else if bossSpawned g \<and> find (\<lambda>e. etype e = T_boss) (enemies g) = None
         then g\<lparr>events := events g @ [LevelComplete]\<rparr>
         else passes levelInfo inp activePlayers g)"

subsection \<open>The session\<close>

text \<open>\<^verbatim>\<open>initGame\<close> resets the registries and the counters; the camera ref, the random
  stream and the log of callbacks are not its business.\<close>

definition initGame :: "Game \<Rightarrow> Game" where
  "initGame g =
     g\<lparr>players :=
         [\<lparr>ident = Str ''p1'', pos = \<lparr>xc = - 50, yc = 0\<rparr>, vel = \<lparr>xc = 0, yc = 0\<rparr>,
           radius = 20, color = Lit ''#3b82f6'', rotation = 0, hp = 200, maxHp = 200,
           dead = False, etype = T_player, role = Boy, weapon = Sniper, cooldown = 0,
           maxCooldown = 90, dashCooldown = 0, score = 0, isInvulnerable = False, animFrame = 0\<rparr>,
          \<lparr>ident = Str ''p2'', pos = \<lparr>xc = 50, yc = 0\<rparr>, vel = \<lparr>xc = 0, yc = 0\<rparr>,
           radius = 18, color = Lit ''#ec4899'', rotation = 0, hp = 150, maxHp = 150,
           dead = False, etype = T_player, role = Girl, weapon = Ak47, cooldown = 0,
           maxCooldown = 10, dashCooldown = 0, score = 0, isInvulnerable = False, animFrame = 0\<rparr>],
       enemies := [], bullets := [], particles := [], crystals := [], crates := [],
       pickups := [], crystalsCollected := 0, bossSpawned := False, waveTimer := 0\<rparr>"

text \<open>\<^verbatim>\<open>loop\<close> calls \<^verbatim>\<open>update\<close>, draws, and asks for the next frame, whatever
  \<^verbatim>\<open>update\<close> did; drawing changes no ref. \<open>frames\<close> is the run of the loop over the
  inputs of as many frames as the browser grants before the pending frame is cancelled.\<close>

fun frames :: "LevelInfo option \<Rightarrow> Input list \<Rightarrow> Game \<Rightarrow> Game" where
  "frames levelInfo [] g = g"
| "frames levelInfo (inp # inps) g = frames levelInfo inps (update levelInfo inp g)"


subsection \<open>The states within a tick\<close>

text \<open>\<^verbatim>\<open>activePlayers\<close> as \<^verbatim>\<open>update\<close> computes it on entry, and the condition under
  which \<^verbatim>\<open>update\<close> returns at one of its two checks, before the wave timer is
  touched.\<close>

definition activeIndices :: "Game \<Rightarrow> nat list" where
  "activeIndices g = filter (\<lambda>i. \<not> dead (players g ! i)) [0 ..< length (players g)]"

definition stopsAtCheck :: "Game \<Rightarrow> bool" where
  "stopsAtCheck g \<longleftrightarrow>
     length (activeIndices g) = 0 \<or>
     (bossSpawned g \<and> find (\<lambda>e. etype e = T_boss) (enemies g) = None)"

text \<open>The refs when the player loop reaches the player at index \<open>i\<close>.\<close>

definition playerVisit :: "Input \<Rightarrow> nat \<Rightarrow> Game \<Rightarrow> Game" where
  "playerVisit inp i g = fold (updatePlayer inp) [0 ..< i] g"

text \<open>The refs when the bullet pass begins, the obstacles that the pass queries once
  (\<^verbatim>\<open>bulletEnvironment\<close>), and the refs when the bullet loop has visited the first
  \<open>j\<close> bullets.\<close>

definition bulletPassStart :: "LevelInfo option \<Rightarrow> Input \<Rightarrow> Game \<Rightarrow> Game" where
  "bulletPassStart levelInfo inp g =
     crystalPass (activeIndices g)
       (enemyPass (activeIndices g)
          (interactionPass (playerPass inp (spawnPass levelInfo g))))"

definition bulletEnvironment :: "Input \<Rightarrow> Game \<Rightarrow> EnvironmentObject list" where
  "bulletEnvironment inp g =
     getEnvironmentInRect (xc (camera g)) (yc (camera g))
       (innerWidth inp * 1.5) (innerHeight inp * 1.5)"

definition bulletStep :: "LevelInfo option \<Rightarrow> Input \<Rightarrow> Game \<Rightarrow> nat \<Rightarrow> Game" where
  "bulletStep levelInfo inp g j =
     fold (updateBullet (activeIndices g) (bulletEnvironment inp (bulletPassStart levelInfo inp g)))
       [0 ..< j] (bulletPassStart levelInfo inp g)"

text \<open>The bullet at index \<open>j\<close> after the homing, the move and the decrement of its visit,
  and the tests of the collision loops of the visit: a building that the bullet is inside
  of, and an entity that is not dead and that the bullet overlaps, among the crates and
  enemies for a bullet of a player and among the players for any other.\<close>

definition moved :: "Game \<Rightarrow> nat \<Rightarrow> Bullet" where
  "moved g j = advanceBullet (homing (enemies g) (bullets g ! j))"

definition hitsWall :: "EnvironmentObject list \<Rightarrow> Bullet \<Rightarrow> bool" where
  "hitsWall envs b \<longleftrightarrow> (\<exists>env\<in>set envs. type_env env = Building \<and> insideBuilding b env)"

definition touches :: "Bullet \<Rightarrow> 'a Entity_scheme \<Rightarrow> bool" where
  "touches b t \<longleftrightarrow>
     \<not> dead t \<and> hypot (xc (pos_b b) - xc (pos t)) (yc (pos_b b) - yc (pos t)) < radius t + radius_b b"

definition hitsEntity :: "Bullet \<Rightarrow> Game \<Rightarrow> bool" where
  "hitsEntity b g \<longleftrightarrow>
     (if startsWith_p (ownerId b)
      then (\<exists>c\<in>set (crates g). touches b c) \<or> (\<exists>e\<in>set (enemies g). touches b e)
      else (\<exists>p\<in>set (players g). touches b p))"


subsection \<open>Concrete states\<close>

text \<open>A state with empty registries whose random stream is constantly 0, the session
  that \<^verbatim>\<open>initGame\<close> makes of it, and frames with no key or with both fire keys held.\<close>

definition blankGame :: Game where
  "blankGame =
     \<lparr>players = [], enemies = [], bullets = [], particles = [], crystals = [], crates = [],
      pickups = [], camera = \<lparr>xc = 0, yc = 0\<rparr>, waveTimer = 0, bossSpawned = False,
      crystalsCollected = 0, randoms = (\<lambda>n. 0), randomsUsed = 0, events = []\<rparr>"

definition newSession :: Game where
  "newSession = initGame blankGame"

definition noKeys :: Input where
  "noKeys = \<lparr>keysPressed = {}, innerWidth = 800, innerHeight = 600\<rparr>"

definition fireKeys :: Input where
  "fireKeys = \<lparr>keysPressed = {''Space'', ''Enter''}, innerWidth = 800, innerHeight = 600\<rparr>"

text \<open>The session after both players have died.\<close>

definition allDead :: Game where
  "allDead = newSession\<lparr>players := map (\<lambda>p. p\<lparr>dead := True\<rparr>) (players newSession)\<rparr>"

text \<open>The boy of a new session, standing at the origin.\<close>

definition sniperAtOrigin :: Player where
  "sniperAtOrigin = (players newSession ! 0)\<lparr>pos := \<lparr>xc = 0, yc = 0\<rparr>\<rparr>"


text \<open>A walker as \<^verbatim>\<open>spawnEnemy\<close> builds one at level 1 (scale 1, no armour), put at a
  given place; a session with one such walker 100 units below the boy; a frame with the
  boy's down key held.\<close>

definition walkerAt :: "Vector2 \<Rightarrow> Enemy" where
  "walkerAt p =
     \<lparr>ident = NumStr 0.5, pos = p, vel = \<lparr>xc = 0, yc = 0\<rparr>, radius = 30,
      color = Hsl 120 60 40, rotation = 0, hp = 60, maxHp = 60, dead = False,
      etype = T_enemy, enemyType = Walker, targetId = None, attackCooldown = 0,
      animFrame_en = 0,
      visuals = \<lparr>hue = 120, scale = 1, hasArmor = False, hasHorns = False, hasEye = False\<rparr>\<rparr>"

definition aimScene :: Game where
  "aimScene = newSession\<lparr>enemies := [walkerAt \<lparr>xc = - 50, yc = 100\<rparr>]\<rparr>"

definition downKey :: Input where
  "downKey = \<lparr>keysPressed = {''KeyS''}, innerWidth = 800, innerHeight = 600\<rparr>"

text \<open>A crate as \<^verbatim>\<open>spawnCrate\<close> builds it and a shotgun pellet of the boy as
  \<^verbatim>\<open>spawnBullet\<close> builds it, each put at a given place; a session with one crate.\<close>

definition crateAt :: "Vector2 \<Rightarrow> Crate" where
  "crateAt p =
     \<lparr>ident = NumStr 0.25, pos = p, vel = \<lparr>xc = 0, yc = 0\<rparr>, radius = 25,
      color = Lit ''#f97316'', rotation = 0, hp = 30, maxHp = 30, dead = False,
      etype = T_crate\<rparr>"

definition pelletAt :: "Vector2 \<Rightarrow> Bullet" where
  "pelletAt p =
     \<lparr>id_b = NumStr 0.75, pos_b = p, vel_b = \<lparr>xc = 12, yc = 0\<rparr>, radius_b = 3,
      color_b = Lit ''#f97316'', ownerId = Str ''p1'', damage = 12, lifeTime = 29,
      isReflected = False, bulletType = Weapon Shotgun\<rparr>"

definition crateScene :: Game where
  "crateScene = newSession\<lparr>crates := [crateAt \<lparr>xc = 300, yc = 0\<rparr>]\<rparr>"

text \<open>A bullet of the boy's AK-47 in its last tick, 68 units left of a given place:
  outside a building 120 wide that is centred there, and inside it after one step of 16.
  A session whose only bullet is such a one, left of the centre of the building of the
  cell \<open>(-6, 1)\<close>, with the camera near that cell.\<close>

definition lastTickBullet :: "Vector2 \<Rightarrow> Bullet" where
  "lastTickBullet p =
     \<lparr>id_b = NumStr 0.125, pos_b = \<lparr>xc = xc p - 68, yc = yc p\<rparr>, vel_b = \<lparr>xc = 16, yc = 0\<rparr>,
      radius_b = 4, color_b = Lit ''#fcd34d'', ownerId = Str ''p1'', damage = 20, lifeTime = 1,
      isReflected = False, bulletType = Weapon Ak47\<rparr>"

definition wallScene :: Game where
  "wallScene =
     newSession\<lparr>bullets := [lastTickBullet (pos_env (the (getEnvironmentAt (- 6) 1)))],
                camera := \<lparr>xc = - 1100, yc = 300\<rparr>\<rparr>"

text \<open>A session whose only bullet is a pellet one step left of the origin.\<close>

definition flyScene :: Game where
  "flyScene = newSession\<lparr>bullets := [pelletAt \<lparr>xc = - 12, yc = 0\<rparr>]\<rparr>"

text \<open>The level record of level 1 with the fallback texts of the generator, and a
  session of that level in which twelve crystals have been collected.\<close>

definition level1 :: LevelInfo where
  "level1 =
     \<lparr>levelNumber = 1, biomeName = ''Sector 1-Z'',
      description = ''Communications offline. Terrain data unavailable. Proceed with caution.'',
      bossName = ''Omega Construct'',
      bossDescription = ''An unidentifiable massive energy signature detected.''\<rparr>"

definition readyScene :: Game where
  "readyScene = newSession\<lparr>crystalsCollected := 12\<rparr>"

text \<open>The session of \<open>aimScene\<close> after the boss was spawned and has gone, with the
  walker left; and the session after both players have died, with a pellet in flight.\<close>

definition victoryScene :: Game where
  "victoryScene = aimScene\<lparr>bossSpawned := True\<rparr>"

definition deadScene :: Game where
  "deadScene = allDead\<lparr>bullets := [pelletAt \<lparr>xc = - 12, yc = 0\<rparr>]\<rparr>"

section \<open>Properties\<close>

subsection \<open>What the spawn helpers leave alone\<close>

lemma spawnParticle1_fields [simp]:
  "players (spawnParticle1 p c t g) = players g"
  "enemies (spawnParticle1 p c t g) = enemies g"
  "bullets (spawnParticle1 p c t g) = bullets g"
  "crystals (spawnParticle1 p c t g) = crystals g"
  "crates (spawnParticle1 p c t g) = crates g"
  "pickups (spawnParticle1 p c t g) = pickups g"
  "camera (spawnParticle1 p c t g) = camera g"
  "waveTimer (spawnParticle1 p c t g) = waveTimer g"
  "bossSpawned (spawnParticle1 p c t g) = bossSpawned g"
  "crystalsCollected (spawnParticle1 p c t g) = crystalsCollected g"
  "randoms (spawnParticle1 p c t g) = randoms g"
  "events (spawnParticle1 p c t g) = events g"
  by (simp_all add: spawnParticle1_def advance_def Let_def)

lemma spawnParticle_fields [simp]:
  "players (spawnParticle p c n t g) = players g"
  "enemies (spawnParticle p c n t g) = enemies g"
  "bullets (spawnParticle p c n t g) = bullets g"
  "crystals (spawnParticle p c n t g) = crystals g"
  "crates (spawnParticle p c n t g) = crates g"
  "pickups (spawnParticle p c n t g) = pickups g"
  "camera (spawnParticle p c n t g) = camera g"
  "waveTimer (spawnParticle p c n t g) = waveTimer g"
  "bossSpawned (spawnParticle p c n t g) = bossSpawned g"
  "crystalsCollected (spawnParticle p c n t g) = crystalsCollected g"
  "randoms (spawnParticle p c n t g) = randoms g"
  "events (spawnParticle p c n t g) = events g"
  by (induction n arbitrary: g; simp)+

lemma spawnParticle_length [simp]:
  "length (particles (spawnParticle p c n t g)) = length (particles g) + n"
  by (induction n arbitrary: g) (simp_all add: spawnParticle1_def advance_def Let_def)

lemma spawnParticle_randomsUsed [simp]:
  "randomsUsed (spawnParticle p c n t g) = randomsUsed g + 5 * n"
  by (induction n arbitrary: g) (simp_all add: spawnParticle1_def advance_def Let_def)

lemma spawnBullet_fields [simp]:
  "players (spawnBullet p v owner bt g) = players g"
  "enemies (spawnBullet p v owner bt g) = enemies g"
  "crystals (spawnBullet p v owner bt g) = crystals g"
  "crates (spawnBullet p v owner bt g) = crates g"
  "pickups (spawnBullet p v owner bt g) = pickups g"
  "camera (spawnBullet p v owner bt g) = camera g"
  "waveTimer (spawnBullet p v owner bt g) = waveTimer g"
  "bossSpawned (spawnBullet p v owner bt g) = bossSpawned g"
  "crystalsCollected (spawnBullet p v owner bt g) = crystalsCollected g"
  "randoms (spawnBullet p v owner bt g) = randoms g"
  "events (spawnBullet p v owner bt g) = events g"
  by (simp_all add: spawnBullet_def advance_def Let_def split: prod.splits)

lemma spawnBullet_bullets:
  "bullets (spawnBullet p v owner bt g) =
     bullets g @
       [\<lparr>id_b = NumStr (rnd g 0), pos_b = p, vel_b = v,
         radius_b = fst (snd (bulletStats owner bt)),
         color_b = snd (snd (snd (bulletStats owner bt))), ownerId = owner,
         damage = fst (bulletStats owner bt), lifeTime = fst (snd (snd (bulletStats owner bt))),
         isReflected = False, bulletType = bt\<rparr>]"
  by (simp add: spawnBullet_def advance_def Let_def split: prod.splits)

lemma spawnPickup_fields [simp]:
  "players (spawnPickup p g) = players g"
  "enemies (spawnPickup p g) = enemies g"
  "bullets (spawnPickup p g) = bullets g"
  "particles (spawnPickup p g) = particles g"
  "crystals (spawnPickup p g) = crystals g"
  "crates (spawnPickup p g) = crates g"
  "camera (spawnPickup p g) = camera g"
  "waveTimer (spawnPickup p g) = waveTimer g"
  "bossSpawned (spawnPickup p g) = bossSpawned g"
  "crystalsCollected (spawnPickup p g) = crystalsCollected g"
  "randoms (spawnPickup p g) = randoms g"
  "events (spawnPickup p g) = events g"
  by (simp_all add: spawnPickup_def advance_def Let_def)

subsection \<open>Defeat\<close>

lemma update_defeat:
  "\<forall>p\<in>set (players g). dead p \<Longrightarrow> update li inp g = g\<lparr>events := events g @ [GameOver]\<rparr>"
  by (simp add: update_def filter_empty_conv)

lemma frames_defeat:
  "\<forall>p\<in>set (players g). dead p \<Longrightarrow>
   frames li inps g = g\<lparr>events := events g @ replicate (length inps) GameOver\<rparr>"
proof (induction inps arbitrary: g)
  case Nil
  then show ?case by simp
next
  case (Cons inp inps)
  have "frames li (inp # inps) g = frames li inps (g\<lparr>events := events g @ [GameOver]\<rparr>)"
    using Cons.prems by (simp add: update_defeat)
  also have "\<dots> = g\<lparr>events := events g @ replicate (length (inp # inps)) GameOver\<rparr>"
    using Cons.prems by (subst Cons.IH) (simp_all add: replicate_append_same)
  finally show ?case .
qed

text \<open>
  Claim C1, as the code has it. In a tick at whose start no living player remains,
  \<^verbatim>\<open>update\<close> calls \<^verbatim>\<open>onGameOver\<close> once and returns: every registry, the wave timer,
  the counters, the camera and the random stream are as they were, so no spawn, no enemy,
  projectile or particle update and no crystal collection has run. The players stay dead,
  so every later tick of the frame loop does the same: after \<open>k\<close> such ticks the state
  differs from the first one only by \<open>k\<close> calls of \<^verbatim>\<open>onGameOver\<close>.
\<close>

theorem defeat_tick_only_reports:
  assumes "\<forall>p\<in>set (players g). dead p"
  shows "update levelInfo inp g = g\<lparr>events := events g @ [GameOver]\<rparr> \<and>
         frames levelInfo inps g = g\<lparr>events := events g @ replicate (length inps) GameOver\<rparr>"
  using assms update_defeat frames_defeat by blast

theorem defeat_tick_only_reports_witness:
  "update None noKeys allDead = allDead\<lparr>events := [GameOver]\<rparr> \<and>
   frames None [noKeys, fireKeys, noKeys] allDead =
     allDead\<lparr>events := [GameOver, GameOver, GameOver]\<rparr>"
proof -
  have dead: "\<forall>p\<in>set (players allDead). dead p"
    by (simp add: allDead_def)
  have ev: "events allDead = []"
    by (simp add: allDead_def newSession_def initGame_def blankGame_def)
  show ?thesis
    using defeat_tick_only_reports [OF dead, of None noKeys "[noKeys, fireKeys, noKeys]"]
    by (simp add: ev numeral_3_eq_3 del: frames.simps)
qed

text \<open>
  The sentence of C1 that \<^verbatim>\<open>onGameOver\<close> is fired exactly once for the session does
  not hold of the tick loop itself: two frames after the last player died have fired it
  twice.
\<close>

theorem game_over_fired_again_counterexample:
  "events (frames None [noKeys, noKeys] allDead) = [GameOver, GameOver]"
  by (simp add: allDead_def newSession_def initGame_def blankGame_def update_def)

subsection \<open>Firing\<close>

lemma fireWeapon_sniper:
  assumes "weapon p = Sniper" "rotation p = 0" "pos p = \<lparr>xc = 0, yc = 0\<rparr>"
  shows "bullets (snd (fireWeapon p g)) =
           bullets g @
             [\<lparr>id_b = NumStr (rnd g 0), pos_b = \<lparr>xc = 35, yc = 0\<rparr>, vel_b = \<lparr>xc = 35, yc = 0\<rparr>,
               radius_b = 5, color_b = Lit ''#60a5fa'', ownerId = ident p, damage = 150,
               lifeTime = 100, isReflected = False, bulletType = Weapon Sniper\<rparr>]"
    and "cooldown (fst (fireWeapon p g)) = 90"
  using assms
  by (simp_all add: fireWeapon_def spawnBullet_bullets bulletStats_def Let_def)

text \<open>
  Claim C7. A player with the sniper who fires at rotation 0 from the origin adds exactly
  one projectile to the registry, with velocity \<open>(35, 0)\<close>, damage 150 and lifetime 100,
  and leaves \<^verbatim>\<open>fireWeapon\<close> with cooldown 90. The player pass fires when the fire key
  is held and the cooldown is at most 0, and with a positive cooldown it fires nothing and
  changes nothing.
\<close>

theorem sniper_shot_and_cooldown_gate:
  "(weapon p = Sniper \<and> rotation p = 0 \<and> pos p = \<lparr>xc = 0, yc = 0\<rparr> \<longrightarrow>
      (\<exists>b. bullets (snd (fireWeapon p g)) = bullets g @ [b] \<and>
            vel_b b = \<lparr>xc = 35, yc = 0\<rparr> \<and> damage b = 150 \<and> lifeTime b = 100 \<and>
            ownerId b = ident p \<and> bulletType b = Weapon Sniper) \<and>
      cooldown (fst (fireWeapon p g)) = 90) \<and>
   ((if role p = Boy then ''Space'' else ''Enter'') \<in> keysPressed inp \<and> cooldown p \<le> 0 \<longrightarrow>
      shooting inp p g = fireWeapon p g) \<and>
   (cooldown p > 0 \<longrightarrow> shooting inp p g = (p, g))"
  by (simp add: fireWeapon_sniper shooting_def)

theorem sniper_shot_and_cooldown_gate_witness:
  "bullets (snd (shooting fireKeys sniperAtOrigin newSession)) =
     [\<lparr>id_b = NumStr 0, pos_b = \<lparr>xc = 35, yc = 0\<rparr>, vel_b = \<lparr>xc = 35, yc = 0\<rparr>,
       radius_b = 5, color_b = Lit ''#60a5fa'', ownerId = Str ''p1'', damage = 150,
       lifeTime = 100, isReflected = False, bulletType = Weapon Sniper\<rparr>] \<and>
   cooldown (fst (shooting fireKeys sniperAtOrigin newSession)) = 90 \<and>
   shooting fireKeys (sniperAtOrigin\<lparr>cooldown := 5\<rparr>) newSession =
     (sniperAtOrigin\<lparr>cooldown := 5\<rparr>, newSession)"
proof -
  have p: "weapon sniperAtOrigin = Sniper" "rotation sniperAtOrigin = 0"
    "pos sniperAtOrigin = \<lparr>xc = 0, yc = 0\<rparr>" "role sniperAtOrigin = Boy"
    "cooldown sniperAtOrigin = 0" "ident sniperAtOrigin = Str ''p1''"
    by (simp_all add: sniperAtOrigin_def newSession_def initGame_def)
  have g: "bullets newSession = []" "rnd newSession 0 = 0"
    by (simp_all add: newSession_def initGame_def blankGame_def rnd_def)
  have k: "''Space'' \<in> keysPressed fireKeys"
    by (simp add: fireKeys_def)
  show ?thesis
    using sniper_shot_and_cooldown_gate [of sniperAtOrigin newSession fireKeys]
      sniper_shot_and_cooldown_gate [of "sniperAtOrigin\<lparr>cooldown := 5\<rparr>" newSession fireKeys]
      fireWeapon_sniper(1) [of sniperAtOrigin newSession]
    by (simp add: p g k)
qed


subsection \<open>The text of a cell identifies the cell\<close>

lemma digit_cases:
  "n < 10 \<Longrightarrow> n = (9::nat) \<or> n = 8 \<or> n = 7 \<or> n = 6 \<or> n = 5 \<or> n = 4 \<or> n = 3 \<or> n = 2 \<or> n = 1 \<or> n = 0"
  by arith

lemma digit_char_values:
  "digit_char 0 = CHR ''0''" "digit_char (Suc 0) = CHR ''1''" "digit_char 2 = CHR ''2''"
  "digit_char 3 = CHR ''3''" "digit_char 4 = CHR ''4''" "digit_char 5 = CHR ''5''"
  "digit_char 6 = CHR ''6''" "digit_char 7 = CHR ''7''" "digit_char 8 = CHR ''8''"
  "digit_char 9 = CHR ''9''"
  by (simp_all add: digit_char_def)

lemma digit_char_not_minus:
  assumes "n < 10"
  shows "digit_char n \<noteq> CHR ''-''"
  using digit_cases [OF assms] by (elim disjE) (simp_all add: digit_char_values)

lemma digit_char_inj:
  assumes "a < 10" "b < 10" "digit_char a = digit_char b"
  shows "a = b"
  using digit_cases [OF assms(1)] digit_cases [OF assms(2)] assms(3)
  by (elim disjE) (simp_all add: digit_char_values)

lemma show_nat_nonempty: "show_nat n \<noteq> []"
  by (subst show_nat.simps) simp

lemma show_nat_no_minus: "CHR ''-'' \<notin> set (show_nat n)"
proof (induction n rule: show_nat.induct)
  case (1 n)
  show ?case
  proof (cases "n < 10")
    case True
    then show ?thesis
      using digit_char_not_minus [of n] by (subst show_nat.simps) auto
  next
    case False
    then show ?thesis
      using 1 digit_char_not_minus [of "n mod 10"]
      by (subst show_nat.simps) auto
  qed
qed

lemma show_nat_one_digit: "n < 10 \<Longrightarrow> show_nat n = [digit_char n]"
  by (subst show_nat.simps) simp

lemma show_nat_more_digits:
  "\<not> n < 10 \<Longrightarrow> show_nat n = show_nat (n div 10) @ [digit_char (n mod 10)]"
  by (subst show_nat.simps) simp

lemma show_nat_inj: "show_nat n = show_nat m \<Longrightarrow> n = m"
proof (induction n arbitrary: m rule: show_nat.induct)
  case (1 n)
  show ?case
  proof (cases "n < 10")
    case True
    note n = this
    show ?thesis
    proof (cases "m < 10")
      case True
      with n 1(2) show ?thesis
        by (simp add: show_nat_one_digit digit_char_inj)
    next
      case False
      with n 1(2) show_nat_nonempty [of "m div 10"] show ?thesis
        by (simp add: show_nat_one_digit show_nat_more_digits)
    qed
  next
    case False
    note n = this
    show ?thesis
    proof (cases "m < 10")
      case True
      with n 1(2) show_nat_nonempty [of "n div 10"] show ?thesis
        by (simp add: show_nat_one_digit show_nat_more_digits)
    next
      case False
      with n 1(2) have e: "show_nat (n div 10) = show_nat (m div 10)"
        "digit_char (n mod 10) = digit_char (m mod 10)"
        by (simp_all add: show_nat_more_digits)
      from 1(1) [OF n e(1)] have "n div 10 = m div 10" .
      moreover from e(2) have "n mod 10 = m mod 10"
        by (intro digit_char_inj) simp_all
      ultimately show ?thesis
        by (metis div_mult_mod_eq)
    qed
  qed
qed

lemma split_at_separator:
  "sep \<notin> set xs \<Longrightarrow> sep \<notin> set ys \<Longrightarrow> xs @ sep # r = ys @ sep # r' \<Longrightarrow> xs = ys \<and> r = r'"
proof (induction xs arbitrary: ys)
  case Nil
  then show ?case by (cases ys) auto
next
  case (Cons a xs)
  then show ?case by (cases ys) auto
qed

lemma show_nat_starts_with_digit: "\<exists>c cs. show_nat n = c # cs \<and> c \<noteq> CHR ''-''"
  using show_nat_no_minus [of n] show_nat_nonempty [of n]
  by (cases "show_nat n") auto

lemma show_int_inj: "show_int a = show_int b \<Longrightarrow> a = b"
proof -
  assume e: "show_int a = show_int b"
  show ?thesis
  proof (cases "a < 0"; cases "b < 0")
    assume "a < 0" "b < 0"
    with e have "nat (- a) = nat (- b)" by (simp add: show_int_def show_nat_inj)
    with \<open>a < 0\<close> \<open>b < 0\<close> show ?thesis by simp
  next
    assume "a < 0" "\<not> b < 0"
    with e show_nat_starts_with_digit [of "nat b"] show ?thesis by (auto simp: show_int_def)
  next
    assume "\<not> a < 0" "b < 0"
    with e show_nat_starts_with_digit [of "nat a"] show ?thesis by (auto simp: show_int_def)
  next
    assume "\<not> a < 0" "\<not> b < 0"
    with e have "nat a = nat b" by (simp add: show_int_def show_nat_inj)
    with \<open>\<not> a < 0\<close> \<open>\<not> b < 0\<close> show ?thesis by simp
  qed
qed

lemma cell_text_inj:
  assumes "show_int a @ CHR ''-'' # show_int b = show_int c @ CHR ''-'' # show_int d"
  shows "a = c \<and> b = d"
proof -
  have "show_int a = show_int c \<and> show_int b = show_int d"
  proof (cases "a < 0"; cases "c < 0")
    assume "a < 0" "c < 0"
    with assms have "show_nat (nat (- a)) @ CHR ''-'' # show_int b =
        show_nat (nat (- c)) @ CHR ''-'' # show_int d"
      by (simp add: show_int_def)
    from split_at_separator [OF show_nat_no_minus show_nat_no_minus this]
    show ?thesis using \<open>a < 0\<close> \<open>c < 0\<close> by (simp add: show_int_def)
  next
    assume "a < 0" "\<not> c < 0"
    with assms show_nat_starts_with_digit [of "nat c"] show ?thesis by (auto simp: show_int_def)
  next
    assume "\<not> a < 0" "c < 0"
    with assms show_nat_starts_with_digit [of "nat a"] show ?thesis by (auto simp: show_int_def)
  next
    assume "\<not> a < 0" "\<not> c < 0"
    with assms have "show_nat (nat a) @ CHR ''-'' # show_int b =
        show_nat (nat c) @ CHR ''-'' # show_int d"
      by (simp add: show_int_def)
    from split_at_separator [OF show_nat_no_minus show_nat_no_minus this]
    show ?thesis using \<open>\<not> a < 0\<close> \<open>\<not> c < 0\<close> by (simp add: show_int_def)
  qed
  then show ?thesis
    using show_int_inj by blast
qed

lemma oracle_cell_unique:
  assumes "getEnvironmentAt gx gy = Some obj" "getEnvironmentAt gx' gy' = Some obj"
  shows "gx = gx' \<and> gy = gy'"
proof -
  from assms(1) have a: "id_env obj = CHR ''b'' # CHR ''-'' # show_int gx @ CHR ''-'' # show_int gy \<or>
      id_env obj = CHR ''t'' # CHR ''-'' # show_int gx @ CHR ''-'' # show_int gy"
    by (auto simp: getEnvironmentAt_def Let_def split: if_splits)
  from assms(2) have b: "id_env obj = CHR ''b'' # CHR ''-'' # show_int gx' @ CHR ''-'' # show_int gy' \<or>
      id_env obj = CHR ''t'' # CHR ''-'' # show_int gx' @ CHR ''-'' # show_int gy'"
    by (auto simp: getEnvironmentAt_def Let_def split: if_splits)
  from a b have "show_int gx @ CHR ''-'' # show_int gy = show_int gx' @ CHR ''-'' # show_int gy'"
    by auto
  then show ?thesis by (rule cell_text_inj)
qed

subsection \<open>The region query\<close>

lemma map_filter_append: "List.map_filter f (xs @ ys) = List.map_filter f xs @ List.map_filter f ys"
  by (simp add: List.map_filter_def)

lemma set_map_filter: "set (List.map_filter f xs) = {y. \<exists>x\<in>set xs. f x = Some y}"
  by (induction xs) (auto simp: List.map_filter_simps split: option.splits)

lemma envLoopY_eq:
  "envLoopY gx gy endY objects = objects @ List.map_filter (getEnvironmentAt gx) [gy .. endY + 1]"
proof (induction gx gy endY objects rule: envLoopY.induct)
  case (1 gx gy endY objects)
  show ?case
  proof (cases "gy \<le> endY + 1")
    case True
    then have u: "[gy .. endY + 1] = gy # [gy + 1 .. endY + 1]"
      by (simp add: upto_rec1)
    show ?thesis
      using True 1 [OF True]
      by (subst envLoopY.simps) (simp add: u List.map_filter_simps split: option.splits)
  next
    case False
    then show ?thesis
      by (subst envLoopY.simps) (simp add: List.map_filter_simps)
  qed
qed

lemma envLoopX_eq:
  "envLoopX gx endX startY endY objects =
     objects @ concat (map (\<lambda>gx. List.map_filter (getEnvironmentAt gx) [startY - 1 .. endY + 1])
                           [gx .. endX + 1])"
proof (induction gx endX startY endY objects rule: envLoopX.induct)
  case (1 gx endX startY endY objects)
  show ?case
  proof (cases "gx \<le> endX + 1")
    case True
    then have u: "[gx .. endX + 1] = gx # [gx + 1 .. endX + 1]"
      by (simp add: upto_rec1)
    show ?thesis
      using True 1 [OF True]
      by (subst envLoopX.simps) (simp add: u envLoopY_eq)
  next
    case False
    then show ?thesis
      by (subst envLoopX.simps) simp
  qed
qed

lemma map_filter_column:
  "List.map_filter (\<lambda>(gx, gy). f gx gy) (map (\<lambda>gy. (a, gy)) ys) = List.map_filter (f a) ys"
  by (induction ys) (simp_all add: List.map_filter_simps split: option.splits)

lemma map_filter_cells:
  "List.map_filter (\<lambda>(gx, gy). f gx gy) (concat (map (\<lambda>gx. map (\<lambda>gy. (gx, gy)) ys) xs)) =
   concat (map (\<lambda>gx. List.map_filter (f gx) ys) xs)"
  by (induction xs) (simp_all add: map_filter_append map_filter_column List.map_filter_simps)

lemma getEnvironmentInRect_spec: "getEnvironmentInRect x y w h = queryRect_spec x y w h"
  by (simp add: getEnvironmentInRect_def queryRect_spec_def haloCells_def Let_def envLoopX_eq
      map_filter_cells)

lemma set_queryRect_spec:
  "set (queryRect_spec x y w h) =
     {obj. \<exists>gx gy. (gx, gy) \<in> set (haloCells x y w h) \<and> getEnvironmentAt gx gy = Some obj}"
  by (force simp: queryRect_spec_def set_map_filter)

lemma set_haloCells:
  "set (haloCells x y w h) =
     {(gx, gy). \<lfloor>(x - w / 2) / GRID_CELL_SIZE\<rfloor> - 1 \<le> gx \<and> gx \<le> \<lfloor>(x + w / 2) / GRID_CELL_SIZE\<rfloor> + 1 \<and>
                \<lfloor>(y - h / 2) / GRID_CELL_SIZE\<rfloor> - 1 \<le> gy \<and> gy \<le> \<lfloor>(y + h / 2) / GRID_CELL_SIZE\<rfloor> + 1}"
  by (auto simp: haloCells_def)


subsection \<open>The oracle's policy\<close>

lemma valAt_range: "0 \<le> valAt gx gy \<and> valAt gx gy < 1"
  unfolding valAt_def by linarith


subsection \<open>The hash at three cells\<close>

text \<open>The sine of a small argument, between two polynomials: enough to place the hash
  of the cells \<open>(-6, 1)\<close>, \<open>(-12, 2)\<close> and \<open>(6, -1)\<close>, whose arguments are 0.2942,
  0.5884 and -0.2942.\<close>

lemma sin_poly_bounds:
  fixes x :: real
  assumes "0 \<le> x"
  shows "x - x^3/6 + x^5/120 - x^7/5040 - x^9/362880 \<le> sin x"
    and "sin x \<le> x - x^3/6 + x^5/120 - x^7/5040 + x^9/362880"
proof -
  have B: "\<bar>sin x - (\<Sum>m<9. sin_coeff m * x ^ m)\<bar> \<le> inverse (fact 9) * \<bar>x\<bar> ^ 9"
    by (rule Maclaurin_sin_bound)
  have S: "(\<Sum>m<9. sin_coeff m * x ^ m) = x - x^3/6 + x^5/120 - x^7/5040"
    by (simp add: eval_nat_numeral sin_coeff_Suc cos_coeff_Suc field_simps)
  have f9: "fact 9 = (362880::real)"
    by (simp add: fact_numeral)
  have xpos: "\<bar>x\<bar> = x"
    using assms by simp
  have F: "inverse (fact 9) * \<bar>x\<bar> ^ 9 = x^9 / 362880"
    unfolding f9 xpos by (simp add: field_simps)
  have "\<bar>sin x - (x - x^3/6 + x^5/120 - x^7/5040)\<bar> \<le> x^9 / 362880"
    using B S F by simp
  then show "x - x^3/6 + x^5/120 - x^7/5040 - x^9/362880 \<le> sin x"
    and "sin x \<le> x - x^3/6 + x^5/120 - x^7/5040 + x^9/362880"
    by linarith+
qed

lemma seed_2942: "12688.85 < sin (0.2942::real) * 43758.5453" "sin (0.2942::real) * 43758.5453 < 12688.86"
proof -
  define x :: real where "x = 0.2942"
  have x0: "0 \<le> x" by (simp add: x_def)
  have nlo: "12688.85 < (x - x^3/6 + x^5/120 - x^7/5040 - x^9 / 362880) * 43758.5453"
    unfolding x_def by (simp add: power_numeral_reduce field_simps)
  have nhi: "(x - x^3/6 + x^5/120 - x^7/5040 + x^9 / 362880) * 43758.5453 < 12688.86"
    unfolding x_def by (simp add: power_numeral_reduce field_simps)
  have "(x - x^3/6 + x^5/120 - x^7/5040 - x^9 / 362880) * 43758.5453 \<le> sin x * 43758.5453"
    using sin_poly_bounds(1) [OF x0] by (intro mult_right_mono) simp_all
  with nlo show "12688.85 < sin (0.2942::real) * 43758.5453"
    unfolding x_def by (rule less_le_trans)
  have "sin x * 43758.5453 \<le> (x - x^3/6 + x^5/120 - x^7/5040 + x^9 / 362880) * 43758.5453"
    using sin_poly_bounds(2) [OF x0] by (intro mult_right_mono) simp_all
  then show "sin (0.2942::real) * 43758.5453 < 12688.86"
    using nhi unfolding x_def by (rule le_less_trans)
qed

lemma seed_5884: "24287.33 < sin (0.5884::real) * 43758.5453" "sin (0.5884::real) * 43758.5453 < 24287.35"
proof -
  define x :: real where "x = 0.5884"
  have x0: "0 \<le> x" by (simp add: x_def)
  have nlo: "24287.33 < (x - x^3/6 + x^5/120 - x^7/5040 - x^9 / 362880) * 43758.5453"
    unfolding x_def by (simp add: power_numeral_reduce field_simps)
  have nhi: "(x - x^3/6 + x^5/120 - x^7/5040 + x^9 / 362880) * 43758.5453 < 24287.35"
    unfolding x_def by (simp add: power_numeral_reduce field_simps)
  have "(x - x^3/6 + x^5/120 - x^7/5040 - x^9 / 362880) * 43758.5453 \<le> sin x * 43758.5453"
    using sin_poly_bounds(1) [OF x0] by (intro mult_right_mono) simp_all
  with nlo show "24287.33 < sin (0.5884::real) * 43758.5453"
    unfolding x_def by (rule less_le_trans)
  have "sin x * 43758.5453 \<le> (x - x^3/6 + x^5/120 - x^7/5040 + x^9 / 362880) * 43758.5453"
    using sin_poly_bounds(2) [OF x0] by (intro mult_right_mono) simp_all
  then show "sin (0.5884::real) * 43758.5453 < 24287.35"
    using nhi unfolding x_def by (rule le_less_trans)
qed

lemma val_between:
  fixes s :: real
  assumes "of_int n + a < s" "s < of_int n + b" "0 \<le> a" "b \<le> 1"
  shows "a < \<bar>s - of_int \<lfloor>s\<rfloor>\<bar> \<and> \<bar>s - of_int \<lfloor>s\<rfloor>\<bar> < b"
proof -
  have "\<lfloor>s\<rfloor> = n"
    using assms by (intro floor_unique) linarith+
  then show ?thesis
    using assms by simp
qed

lemma val_cell_m6_1: "0.85 < valAt (- 6) 1" "valAt (- 6) 1 < 0.86"
proof -
  have s: "seedAt (- 6) 1 = sin (0.2942::real) * 43758.5453"
    by (simp add: seedAt_def)
  have "0.85 < \<bar>seedAt (- 6) 1 - of_int \<lfloor>seedAt (- 6) 1\<rfloor>\<bar> \<and>
      \<bar>seedAt (- 6) 1 - of_int \<lfloor>seedAt (- 6) 1\<rfloor>\<bar> < 0.86"
    unfolding s using seed_2942 by (intro val_between [where n = 12688]) simp_all
  then show "0.85 < valAt (- 6) 1" "valAt (- 6) 1 < 0.86"
    by (simp_all add: valAt_def)
qed

lemma val_cell_m12_2: "0.33 < valAt (- 12) 2" "valAt (- 12) 2 < 0.35"
proof -
  have s: "seedAt (- 12) 2 = sin (0.5884::real) * 43758.5453"
    by (simp add: seedAt_def)
  have "0.33 < \<bar>seedAt (- 12) 2 - of_int \<lfloor>seedAt (- 12) 2\<rfloor>\<bar> \<and>
      \<bar>seedAt (- 12) 2 - of_int \<lfloor>seedAt (- 12) 2\<rfloor>\<bar> < 0.35"
    unfolding s using seed_5884 by (intro val_between [where n = 24287]) simp_all
  then show "0.33 < valAt (- 12) 2" "valAt (- 12) 2 < 0.35"
    by (simp_all add: valAt_def)
qed

lemma val_cell_6_m1: "0.14 < valAt 6 (- 1)" "valAt 6 (- 1) < 0.15"
proof -
  have "seedAt 6 (- 1) = sin (- (0.2942::real)) * 43758.5453"
    by (simp add: seedAt_def)
  then have s: "seedAt 6 (- 1) = - (sin (0.2942::real) * 43758.5453)"
    by simp
  have "0.14 < \<bar>seedAt 6 (- 1) - of_int \<lfloor>seedAt 6 (- 1)\<rfloor>\<bar> \<and>
      \<bar>seedAt 6 (- 1) - of_int \<lfloor>seedAt 6 (- 1)\<rfloor>\<bar> < 0.15"
    unfolding s using seed_2942 by (intro val_between [where n = "- 12689"]) simp_all
  then show "0.14 < valAt 6 (- 1)" "valAt 6 (- 1) < 0.15"
    by (simp_all add: valAt_def)
qed

lemma building_cell:
  "\<exists>obj. getEnvironmentAt (- 6) 1 = Some obj \<and> type_env obj = Building \<and> xc (size_env obj) = 120"
  using val_cell_m6_1 by (simp add: getEnvironmentAt_def Let_def)

lemma tree_cell: "\<exists>obj. getEnvironmentAt (- 12) 2 = Some obj \<and> type_env obj = Tree"
  using val_cell_m12_2 by (simp add: getEnvironmentAt_def Let_def)

lemma in_halo: "(- 6, 1) \<in> set (haloCells (- 1100) 300 300 300)"
  "(- 12, 2) \<notin> set (haloCells (- 1100) 300 300 300)"
  by (simp_all add: set_haloCells GRID_CELL_SIZE_def)

text \<open>
  Claim C4. A cell whose coordinates are both below 2 in magnitude has no obstacle. For
  any other cell the hash value \<open>valAt\<close> lies in \<open>[0, 1)\<close>, and: above 0.85 the cell
  holds a building, 180 wide exactly when the value is above 0.95 (120 otherwise) and of
  the dark shade exactly when it is above 0.92; above 0.3 and up to 0.85 it holds a tree;
  up to 0.3 it holds nothing.
\<close>

theorem oracle_policy:
  "(max \<bar>gx\<bar> \<bar>gy\<bar> < 2 \<longrightarrow> getEnvironmentAt gx gy = None) \<and>
   (\<not> max \<bar>gx\<bar> \<bar>gy\<bar> < 2 \<longrightarrow>
      0 \<le> valAt gx gy \<and> valAt gx gy < 1 \<and>
      (valAt gx gy > 0.85 \<longrightarrow>
         (\<exists>obj. getEnvironmentAt gx gy = Some obj \<and> type_env obj = Building \<and>
                xc (size_env obj) = (if valAt gx gy > 0.95 then 180 else 120) \<and>
                color_env obj = (if valAt gx gy > 0.92 then ''#1f2937'' else ''#374151''))) \<and>
      (0.3 < valAt gx gy \<and> valAt gx gy \<le> 0.85 \<longrightarrow>
         (\<exists>obj. getEnvironmentAt gx gy = Some obj \<and> type_env obj = Tree)) \<and>
      (valAt gx gy \<le> 0.3 \<longrightarrow> getEnvironmentAt gx gy = None))"
  using valAt_range [of gx gy]
  by (auto simp: getEnvironmentAt_def Let_def)

theorem oracle_policy_witness:
  "getEnvironmentAt 1 (- 1) = None \<and>
   valAt (- 6) 1 > 0.85 \<and>
   (\<exists>obj. getEnvironmentAt (- 6) 1 = Some obj \<and> type_env obj = Building \<and>
          xc (size_env obj) = 120 \<and> color_env obj = ''#374151'') \<and>
   0.3 < valAt (- 12) 2 \<and> valAt (- 12) 2 \<le> 0.85 \<and>
   (\<exists>obj. getEnvironmentAt (- 12) 2 = Some obj \<and> type_env obj = Tree) \<and>
   valAt 6 (- 1) \<le> 0.3 \<and> getEnvironmentAt 6 (- 1) = None"
  using oracle_policy [of 1 "- 1"] oracle_policy [of "- 6" 1] oracle_policy [of "- 12" 2]
    oracle_policy [of 6 "- 1"] val_cell_m6_1 val_cell_m12_2 val_cell_6_m1
  by simp


text \<open>
  Claim C6. The region query returns the list that the specification describes: the
  obstacles of the cells from one cell before the first to one cell after the last cell
  that the rectangle touches, on both axes. Every obstacle of a cell in that range is in
  the result and no obstacle of a cell outside it is.
\<close>

theorem region_query_exact:
  "getEnvironmentInRect x y w h = queryRect_spec x y w h \<and>
   (\<forall>gx gy obj. (gx, gy) \<in> set (haloCells x y w h) \<and> getEnvironmentAt gx gy = Some obj \<longrightarrow>
        obj \<in> set (getEnvironmentInRect x y w h)) \<and>
   (\<forall>gx gy obj. (gx, gy) \<notin> set (haloCells x y w h) \<and> getEnvironmentAt gx gy = Some obj \<longrightarrow>
        obj \<notin> set (getEnvironmentInRect x y w h)) \<and>
   set (haloCells x y w h) =
     {(gx, gy). \<lfloor>(x - w / 2) / GRID_CELL_SIZE\<rfloor> - 1 \<le> gx \<and> gx \<le> \<lfloor>(x + w / 2) / GRID_CELL_SIZE\<rfloor> + 1 \<and>
                \<lfloor>(y - h / 2) / GRID_CELL_SIZE\<rfloor> - 1 \<le> gy \<and> gy \<le> \<lfloor>(y + h / 2) / GRID_CELL_SIZE\<rfloor> + 1}"
proof (intro conjI allI impI)
  show "getEnvironmentInRect x y w h = queryRect_spec x y w h"
    by (rule getEnvironmentInRect_spec)
next
  fix gx gy obj
  assume "(gx, gy) \<in> set (haloCells x y w h) \<and> getEnvironmentAt gx gy = Some obj"
  then show "obj \<in> set (getEnvironmentInRect x y w h)"
    unfolding getEnvironmentInRect_spec set_queryRect_spec by blast
next
  fix gx gy obj
  assume a: "(gx, gy) \<notin> set (haloCells x y w h) \<and> getEnvironmentAt gx gy = Some obj"
  show "obj \<notin> set (getEnvironmentInRect x y w h)"
  proof
    assume "obj \<in> set (getEnvironmentInRect x y w h)"
    then obtain gx' gy' where b: "(gx', gy') \<in> set (haloCells x y w h)"
      "getEnvironmentAt gx' gy' = Some obj"
      unfolding getEnvironmentInRect_spec set_queryRect_spec by blast
    from oracle_cell_unique [OF b(2)] a have "gx' = gx \<and> gy' = gy" by blast
    with a b(1) show False by simp
  qed
next
  show "set (haloCells x y w h) =
     {(gx, gy). \<lfloor>(x - w / 2) / GRID_CELL_SIZE\<rfloor> - 1 \<le> gx \<and> gx \<le> \<lfloor>(x + w / 2) / GRID_CELL_SIZE\<rfloor> + 1 \<and>
                \<lfloor>(y - h / 2) / GRID_CELL_SIZE\<rfloor> - 1 \<le> gy \<and> gy \<le> \<lfloor>(y + h / 2) / GRID_CELL_SIZE\<rfloor> + 1}"
    by (rule set_haloCells)
qed

theorem region_query_exact_witness:
  "getEnvironmentInRect (- 1100) 300 300 300 = queryRect_spec (- 1100) 300 300 300 \<and>
   (\<exists>obj. getEnvironmentAt (- 6) 1 = Some obj \<and>
          obj \<in> set (getEnvironmentInRect (- 1100) 300 300 300)) \<and>
   (\<exists>obj. getEnvironmentAt (- 12) 2 = Some obj \<and>
          obj \<notin> set (getEnvironmentInRect (- 1100) 300 300 300))"
proof -
  obtain b where b: "getEnvironmentAt (- 6) 1 = Some b"
    using building_cell by blast
  obtain t where t: "getEnvironmentAt (- 12) 2 = Some t"
    using tree_cell by blast
  show ?thesis
    using region_query_exact [of "- 1100" 300 300 300] b t in_halo
    by blast
qed


subsection \<open>Collision with the environment moves and slows, and nothing else\<close>

lemma collideEnv_frame: "\<exists>p v. collideEnv env e = e\<lparr>pos := p, vel := v\<rparr>"
proof -
  have same: "\<exists>p v. e = e\<lparr>pos := p, vel := v\<rparr>"
  proof (intro exI)
    show "e = e\<lparr>pos := pos e, vel := vel e\<rparr>" by simp
  qed
  have moved: "\<And>p v. \<exists>p' v'. e\<lparr>pos := p, vel := v\<rparr> = e\<lparr>pos := p', vel := v'\<rparr>"
    by blast
  show ?thesis
    unfolding collideEnv_def Let_def
    using same moved by (simp only: split: if_split) blast
qed

lemma foldl_collideEnv_frame:
  "\<exists>p v. foldl (\<lambda>e env. collideEnv env e) e envs = e\<lparr>pos := p, vel := v\<rparr>"
proof (induction envs arbitrary: e)
  case Nil
  have "e = e\<lparr>pos := pos e, vel := vel e\<rparr>" by simp
  then show ?case by (metis foldl_Nil)
next
  case (Cons env envs)
  obtain p v where 1: "collideEnv env e = e\<lparr>pos := p, vel := v\<rparr>"
    using collideEnv_frame by blast
  obtain p' v' where 2: "foldl (\<lambda>e env. collideEnv env e) (e\<lparr>pos := p, vel := v\<rparr>) envs
      = e\<lparr>pos := p, vel := v\<rparr>\<lparr>pos := p', vel := v'\<rparr>"
    using Cons.IH by blast
  have "foldl (\<lambda>e env. collideEnv env e) e (env # envs) = e\<lparr>pos := p', vel := v'\<rparr>"
    using 1 2 by simp
  then show ?case by blast
qed

lemma checkEnvironmentCollision_frame:
  "\<exists>p v. checkEnvironmentCollision e = e\<lparr>pos := p, vel := v\<rparr>"
  unfolding checkEnvironmentCollision_def Let_def by (rule foldl_collideEnv_frame)

lemma checkEnvironmentCollision_fields [simp]:
  "rotation (checkEnvironmentCollision e) = rotation e"
  "dead (checkEnvironmentCollision e) = dead e"
  "ident (checkEnvironmentCollision e) = ident e"
  "etype (checkEnvironmentCollision e) = etype e"
  "hp (checkEnvironmentCollision e) = hp e"
  "radius (checkEnvironmentCollision e) = radius e"
  using checkEnvironmentCollision_frame [of e] by auto

lemma physics_fields [simp]:
  "rotation (physics force p) = rotation p"
  "dead (physics force p) = dead p"
  "ident (physics force p) = ident p"
  "etype (physics force p) = etype p"
  "hp (physics force p) = hp p"
  by (simp_all add: physics_def Let_def)

subsection \<open>What firing leaves alone\<close>

lemma fold_spawnBullet_fields [simp]:
  "players (fold (\<lambda>i. spawnBullet (pf i) (vf i) (ow i) (bt i)) xs g) = players g"
  "enemies (fold (\<lambda>i. spawnBullet (pf i) (vf i) (ow i) (bt i)) xs g) = enemies g"
  "crystals (fold (\<lambda>i. spawnBullet (pf i) (vf i) (ow i) (bt i)) xs g) = crystals g"
  "crates (fold (\<lambda>i. spawnBullet (pf i) (vf i) (ow i) (bt i)) xs g) = crates g"
  "pickups (fold (\<lambda>i. spawnBullet (pf i) (vf i) (ow i) (bt i)) xs g) = pickups g"
  "camera (fold (\<lambda>i. spawnBullet (pf i) (vf i) (ow i) (bt i)) xs g) = camera g"
  "waveTimer (fold (\<lambda>i. spawnBullet (pf i) (vf i) (ow i) (bt i)) xs g) = waveTimer g"
  "bossSpawned (fold (\<lambda>i. spawnBullet (pf i) (vf i) (ow i) (bt i)) xs g) = bossSpawned g"
  "crystalsCollected (fold (\<lambda>i. spawnBullet (pf i) (vf i) (ow i) (bt i)) xs g) = crystalsCollected g"
  "randoms (fold (\<lambda>i. spawnBullet (pf i) (vf i) (ow i) (bt i)) xs g) = randoms g"
  "events (fold (\<lambda>i. spawnBullet (pf i) (vf i) (ow i) (bt i)) xs g) = events g"
  by (induction xs arbitrary: g; simp)+

lemma advance_fields [simp]:
  "players (advance n g) = players g"
  "enemies (advance n g) = enemies g"
  "bullets (advance n g) = bullets g"
  "particles (advance n g) = particles g"
  "crystals (advance n g) = crystals g"
  "crates (advance n g) = crates g"
  "pickups (advance n g) = pickups g"
  "camera (advance n g) = camera g"
  "waveTimer (advance n g) = waveTimer g"
  "bossSpawned (advance n g) = bossSpawned g"
  "crystalsCollected (advance n g) = crystalsCollected g"
  "randoms (advance n g) = randoms g"
  "events (advance n g) = events g"
  by (simp_all add: advance_def)

lemma fireWeapon_game_fields [simp]:
  "players (snd (fireWeapon p g)) = players g"
  "enemies (snd (fireWeapon p g)) = enemies g"
  "crystals (snd (fireWeapon p g)) = crystals g"
  "crates (snd (fireWeapon p g)) = crates g"
  "pickups (snd (fireWeapon p g)) = pickups g"
  "camera (snd (fireWeapon p g)) = camera g"
  "waveTimer (snd (fireWeapon p g)) = waveTimer g"
  "bossSpawned (snd (fireWeapon p g)) = bossSpawned g"
  "crystalsCollected (snd (fireWeapon p g)) = crystalsCollected g"
  "randoms (snd (fireWeapon p g)) = randoms g"
  "events (snd (fireWeapon p g)) = events g"
  by (simp_all add: fireWeapon_def Let_def split: prod.splits)

lemma fireWeapon_player_fields [simp]:
  "rotation (fst (fireWeapon p g)) = rotation p"
  "dead (fst (fireWeapon p g)) = dead p"
  "ident (fst (fireWeapon p g)) = ident p"
  "etype (fst (fireWeapon p g)) = etype p"
  "hp (fst (fireWeapon p g)) = hp p"
  by (simp_all add: fireWeapon_def Let_def split: prod.splits)

lemma shooting_game_fields [simp]:
  "players (snd (shooting inp p g)) = players g"
  "enemies (snd (shooting inp p g)) = enemies g"
  "crystals (snd (shooting inp p g)) = crystals g"
  "crates (snd (shooting inp p g)) = crates g"
  "pickups (snd (shooting inp p g)) = pickups g"
  "camera (snd (shooting inp p g)) = camera g"
  "waveTimer (snd (shooting inp p g)) = waveTimer g"
  "bossSpawned (snd (shooting inp p g)) = bossSpawned g"
  "crystalsCollected (snd (shooting inp p g)) = crystalsCollected g"
  "randoms (snd (shooting inp p g)) = randoms g"
  "events (snd (shooting inp p g)) = events g"
  by (simp_all add: shooting_def Let_def)

lemma shooting_player_fields [simp]:
  "rotation (fst (shooting inp p g)) = rotation p"
  "dead (fst (shooting inp p g)) = dead p"
  "ident (fst (shooting inp p g)) = ident p"
  "etype (fst (shooting inp p g)) = etype p"
  "hp (fst (shooting inp p g)) = hp p"
  by (simp_all add: shooting_def Let_def)

subsection \<open>The nearest enemy\<close>

lemma nearestLoop_none:
  "\<forall>e\<in>set es. \<not> hypot (xc (pos e) - xc from) (yc (pos e) - yc from) < m \<Longrightarrow>
   nearestLoop from es m t = t"
  by (induction es arbitrary: m t) (simp_all add: Let_def)

lemma nearestLoop_some:
  "\<exists>e\<in>set es. hypot (xc (pos e) - xc from) (yc (pos e) - yc from) < m \<Longrightarrow>
   \<exists>e\<in>set es. nearestLoop from es m t = Some e \<and>
      hypot (xc (pos e) - xc from) (yc (pos e) - yc from) < m \<and>
      (\<forall>e'\<in>set es. hypot (xc (pos e) - xc from) (yc (pos e) - yc from)
                       \<le> hypot (xc (pos e') - xc from) (yc (pos e') - yc from))"
proof (induction es arbitrary: m t)
  case Nil
  then show ?case by simp
next
  case (Cons a es)
  define d where "d = (\<lambda>e::Enemy. hypot (xc (pos e) - xc from) (yc (pos e) - yc from))"
  have IH: "\<And>m t. \<exists>e\<in>set es. d e < m \<Longrightarrow>
      \<exists>e\<in>set es. nearestLoop from es m t = Some e \<and> d e < m \<and> (\<forall>e'\<in>set es. d e \<le> d e')"
    using Cons.IH unfolding d_def by blast
  have none: "\<And>m t. \<forall>e\<in>set es. \<not> d e < m \<Longrightarrow> nearestLoop from es m t = t"
    using nearestLoop_none unfolding d_def by blast
  have step: "nearestLoop from (a # es) m t =
      (if d a < m then nearestLoop from es (d a) (Some a) else nearestLoop from es m t)"
    by (simp add: d_def Let_def)
  have "\<exists>e\<in>set (a # es). nearestLoop from (a # es) m t = Some e \<and> d e < m \<and>
      (\<forall>e'\<in>set (a # es). d e \<le> d e')"
  proof (cases "d a < m")
    case True
    show ?thesis
    proof (cases "\<exists>e\<in>set es. d e < d a")
      case True
      from IH [OF True, of "Some a"] obtain e where e: "e \<in> set es"
        "nearestLoop from es (d a) (Some a) = Some e" "d e < d a" "\<forall>e'\<in>set es. d e \<le> d e'"
        by blast
      with \<open>d a < m\<close> step show ?thesis by force
    next
      case False
      then have "nearestLoop from es (d a) (Some a) = Some a"
        using none by blast
      with \<open>d a < m\<close> step False show ?thesis by force
    qed
  next
    case False
    then have ex: "\<exists>e\<in>set es. d e < m"
      using Cons.prems unfolding d_def by auto
    from IH [OF ex, of t] obtain e where e: "e \<in> set es"
        "nearestLoop from es m t = Some e" "d e < m" "\<forall>e'\<in>set es. d e \<le> d e'"
      by blast
    with False step show ?thesis by force
  qed
  then show ?case unfolding d_def .
qed


subsection \<open>The auto aim\<close>

lemma updatePlayer_alive:
  assumes "i < length (players g)" "\<not> dead (players g ! i)"
  shows "players (updatePlayer inp i g) ! i =
           physics (controls inp (players g ! i))
             (fst (shooting inp (autoAim inp (enemies g) (players g ! i)) g))"
    and "bullets (updatePlayer inp i g) =
           bullets (snd (shooting inp (autoAim inp (enemies g) (players g ! i)) g))"
  using assms by (simp_all add: updatePlayer_def Let_def split_beta)

lemma autoAim_none:
  assumes "\<forall>e\<in>set es. \<not> hypot (xc (pos e) - xc (pos p)) (yc (pos e) - yc (pos p)) < 1200"
  shows "autoAim inp es p =
           (if \<bar>xc (controls inp p)\<bar> > 0 \<or> \<bar>yc (controls inp p)\<bar> > 0
            then p\<lparr>rotation := atan2 (yc (controls inp p)) (xc (controls inp p))\<rparr> else p)"
  using nearestLoop_none [OF assms, of None] by (simp add: autoAim_def Let_def)

lemma autoAim_some:
  assumes "\<exists>e\<in>set es. hypot (xc (pos e) - xc (pos p)) (yc (pos e) - yc (pos p)) < 1200"
  shows "\<exists>e\<in>set es.
           hypot (xc (pos e) - xc (pos p)) (yc (pos e) - yc (pos p)) < 1200 \<and>
           (\<forall>e'\<in>set es. hypot (xc (pos e) - xc (pos p)) (yc (pos e) - yc (pos p))
                           \<le> hypot (xc (pos e') - xc (pos p)) (yc (pos e') - yc (pos p))) \<and>
           autoAim inp es p = p\<lparr>rotation := atan2 (yc (pos e) - yc (pos p)) (xc (pos e) - xc (pos p))\<rparr>"
proof -
  from nearestLoop_some [OF assms, of None] obtain e where e: "e \<in> set es"
    "nearestLoop (pos p) es 1200 None = Some e"
    "hypot (xc (pos e) - xc (pos p)) (yc (pos e) - yc (pos p)) < 1200"
    "\<forall>e'\<in>set es. hypot (xc (pos e) - xc (pos p)) (yc (pos e) - yc (pos p))
                           \<le> hypot (xc (pos e') - xc (pos p)) (yc (pos e') - yc (pos p))"
    by blast
  have "autoAim inp es p = p\<lparr>rotation := atan2 (yc (pos e) - yc (pos p)) (xc (pos e) - xc (pos p))\<rparr>"
    using e(2) by (simp add: autoAim_def Let_def)
  with e show ?thesis by blast
qed

lemma hypot_0_100: "hypot 0 100 = 100"
  by (simp add: hypot_def)


subsection \<open>Crates\<close>

lemma spawnPickup_pickups:
  "\<exists>pk. pickups (spawnPickup p g) = pickups g @ [pk] \<and> pos pk = p \<and> etype pk = T_pickup \<and> \<not> dead pk"
  by (simp add: spawnPickup_def Let_def advance_def)

lemma crateLoop_skip:
  "\<forall>j\<in>set xs. dead (crates g ! j) \<or>
       \<not> hypot (xc (pos_b b) - xc (pos (crates g ! j))) (yc (pos_b b) - yc (pos (crates g ! j)))
           < radius (crates g ! j) + radius_b b \<Longrightarrow>
   crateLoop (xs @ ys) b g = crateLoop ys b g"
  by (induction xs) (auto simp: Let_def)

lemma upt_split_at: "ci < n \<Longrightarrow> [0 ..< n] = [0 ..< ci] @ ci # [Suc ci ..< n]"
  using upt_add_eq_append [of 0 ci "n - ci"] by (simp add: upt_conv_Cons)

lemma crateLoop_reaches:
  assumes "ci < length (crates g)"
    and "\<forall>j<ci. dead (crates g ! j) \<or>
       \<not> hypot (xc (pos_b b) - xc (pos (crates g ! j))) (yc (pos_b b) - yc (pos (crates g ! j)))
           < radius (crates g ! j) + radius_b b"
  shows "crateLoop [0 ..< length (crates g)] b g = crateLoop (ci # [Suc ci ..< length (crates g)]) b g"
  using assms by (simp add: upt_split_at [of ci] crateLoop_skip)

lemma crateLoop_hit_survives:
  assumes "\<not> dead (crates g ! ci)"
    "hypot (xc (pos_b b) - xc (pos (crates g ! ci))) (yc (pos_b b) - yc (pos (crates g ! ci)))
       < radius (crates g ! ci) + radius_b b"
    "hp (crates g ! ci) - damage b > 0"
  shows "crateLoop (ci # rest) b g =
           (b\<lparr>lifeTime := 0\<rparr>,
            (spawnParticle (pos_b b) (Lit ''#f97316'') 3 Spark g)
              \<lparr>crates := (crates g)[ci := (crates g ! ci)\<lparr>hp := hp (crates g ! ci) - damage b\<rparr>]\<rparr>)"
  using assms by (simp add: Let_def)

lemma crateLoop_hit_dies:
  assumes "\<not> dead (crates g ! ci)"
    "hypot (xc (pos_b b) - xc (pos (crates g ! ci))) (yc (pos_b b) - yc (pos (crates g ! ci)))
       < radius (crates g ! ci) + radius_b b"
    "hp (crates g ! ci) - damage b \<le> 0"
  shows "crateLoop (ci # rest) b g =
           (b\<lparr>lifeTime := 0\<rparr>,
            (spawnPickup (pos (crates g ! ci))
               (spawnParticle (pos (crates g ! ci)) (Lit ''#f97316'') 15 Spark
                  (spawnParticle (pos_b b) (Lit ''#f97316'') 3 Spark g)))
              \<lparr>crates := (crates g)[ci := (crates g ! ci)\<lparr>hp := hp (crates g ! ci) - damage b,
                                                         dead := True\<rparr>]\<rparr>)"
  using assms by (simp add: Let_def)

lemma crateLoop_dead_skipped: "dead (crates g ! ci) \<Longrightarrow> crateLoop (ci # rest) b g = crateLoop rest b g"
  by (simp add: Let_def)

lemma touchCrate_dead: "dead (crates g ! ci) \<Longrightarrow> touchCrate pidx ci g = g"
  by (simp add: touchCrate_def Let_def)

lemma entityCollision_crate_hit:
  assumes "startsWith_p (ownerId b)" "crateLoop [0 ..< length (crates g)] b g = (b\<lparr>lifeTime := 0\<rparr>, g')"
  shows "entityCollision activePlayers b g = (b\<lparr>lifeTime := 0\<rparr>, g')"
  using assms by (simp add: entityCollision_def Let_def)


text \<open>
  Claim C9. Take a living crate with hp 30 and three player-owned pellets of damage 12,
  each of which reaches that crate (it overlaps the crate, and no living crate earlier in
  the registry). Their entity collisions, one after the other, leave the crate alive with
  hp 18, then alive with hp 6, then dead with hp -6; the first two add no pickup and the
  third adds exactly one, at the crate's position; each pellet ends with lifetime 0.
  From then on the loop over the crates passes over the dead crate for any projectile,
  and a player's touch of it changes nothing: no further pickup comes from it.
\<close>

theorem crate_three_pellets:
  assumes "ci < length (crates g)" "hp (crates g ! ci) = 30" "\<not> dead (crates g ! ci)"
    and "\<forall>b\<in>{b1, b2, b3}. damage b = 12 \<and> startsWith_p (ownerId b) \<and>
           hypot (xc (pos_b b) - xc (pos (crates g ! ci))) (yc (pos_b b) - yc (pos (crates g ! ci)))
             < radius (crates g ! ci) + radius_b b \<and>
           (\<forall>j<ci. dead (crates g ! j) \<or>
              \<not> hypot (xc (pos_b b) - xc (pos (crates g ! j))) (yc (pos_b b) - yc (pos (crates g ! j)))
                  < radius (crates g ! j) + radius_b b)"
  shows "\<exists>g1 g2 g3 pk.
           entityCollision a b1 g = (b1\<lparr>lifeTime := 0\<rparr>, g1) \<and>
           entityCollision a b2 g1 = (b2\<lparr>lifeTime := 0\<rparr>, g2) \<and>
           entityCollision a b3 g2 = (b3\<lparr>lifeTime := 0\<rparr>, g3) \<and>
           crates g1 = (crates g)[ci := (crates g ! ci)\<lparr>hp := 18\<rparr>] \<and> pickups g1 = pickups g \<and>
           crates g2 = (crates g)[ci := (crates g ! ci)\<lparr>hp := 6\<rparr>] \<and> pickups g2 = pickups g \<and>
           crates g3 = (crates g)[ci := (crates g ! ci)\<lparr>hp := - 6, dead := True\<rparr>] \<and>
           pickups g3 = pickups g @ [pk] \<and> pos pk = pos (crates g ! ci) \<and> etype pk = T_pickup \<and>
           (\<forall>b4 rest. crateLoop (ci # rest) b4 g3 = crateLoop rest b4 g3) \<and>
           (\<forall>pidx. touchCrate pidx ci g3 = g3)"
proof -
  define c where "c = crates g ! ci"
  define inr where "inr = (\<lambda>(b::Bullet) (k::Crate).
      hypot (xc (pos_b b) - xc (pos k)) (yc (pos_b b) - yc (pos k)) < radius k + radius_b b)"
  have B: "\<And>b. b \<in> {b1, b2, b3} \<Longrightarrow> damage b = 12 \<and> startsWith_p (ownerId b) \<and> inr b c \<and>
      (\<forall>j<ci. dead (crates g ! j) \<or> \<not> inr b (crates g ! j))"
    using assms(4) unfolding c_def inr_def by blast
  define g1 where "g1 = (spawnParticle (pos_b b1) (Lit ''#f97316'') 3 Spark g)\<lparr>crates := (crates g)[ci := c\<lparr>hp := 18\<rparr>]\<rparr>"
  define g2 where "g2 = (spawnParticle (pos_b b2) (Lit ''#f97316'') 3 Spark g1)\<lparr>crates := (crates g)[ci := c\<lparr>hp := 6\<rparr>]\<rparr>"
  define h where "h = spawnParticle (pos c) (Lit ''#f97316'') 15 Spark
                  (spawnParticle (pos_b b3) (Lit ''#f97316'') 3 Spark g2)"
  define g3 where "g3 = (spawnPickup (pos c) h)\<lparr>crates := (crates g)[ci := c\<lparr>hp := - 6, dead := True\<rparr>]\<rparr>"
  have c1: "crates g1 = (crates g)[ci := c\<lparr>hp := 18\<rparr>]" and p1: "pickups g1 = pickups g"
    by (simp_all add: g1_def)
  have c2: "crates g2 = (crates g)[ci := c\<lparr>hp := 6\<rparr>]" and p2: "pickups g2 = pickups g"
    by (simp_all add: g2_def p1)
  have c3: "crates g3 = (crates g)[ci := c\<lparr>hp := - 6, dead := True\<rparr>]"
    by (simp add: g3_def)
  obtain pk where pk: "pickups (spawnPickup (pos c) h) = pickups h @ [pk]" "pos pk = pos c"
    "etype pk = T_pickup"
    using spawnPickup_pickups by blast
  have ph: "pickups h = pickups g"
    by (simp add: h_def p2)
  have p3: "pickups g3 = pickups g @ [pk]"
    by (simp add: g3_def pk(1) ph)
  have at0: "crates g ! ci = c" "hp c = 30" "\<not> dead c"
    using assms(2,3) by (simp_all add: c_def)
  have at1: "crates g1 ! ci = c\<lparr>hp := 18\<rparr>" "length (crates g1) = length (crates g)"
    "\<And>j. j < ci \<Longrightarrow> crates g1 ! j = crates g ! j"
    using assms(1) by (simp_all add: c1)
  have at2: "crates g2 ! ci = c\<lparr>hp := 6\<rparr>" "length (crates g2) = length (crates g)"
    "\<And>j. j < ci \<Longrightarrow> crates g2 ! j = crates g ! j"
    using assms(1) by (simp_all add: c2)
  have at3: "crates g3 ! ci = c\<lparr>hp := - 6, dead := True\<rparr>"
    using assms(1) by (simp add: c3)
  have l1: "crateLoop [0 ..< length (crates g)] b1 g = (b1\<lparr>lifeTime := 0\<rparr>, g1)"
  proof -
    have "crateLoop [0 ..< length (crates g)] b1 g = crateLoop (ci # [Suc ci ..< length (crates g)]) b1 g"
      using B [of b1] by (intro crateLoop_reaches [OF assms(1)]) (simp add: inr_def)
    also have "\<dots> = (b1\<lparr>lifeTime := 0\<rparr>, g1)"
      using B [of b1] at0 by (subst crateLoop_hit_survives) (simp_all add: inr_def g1_def)
    finally show ?thesis .
  qed
  have l2: "crateLoop [0 ..< length (crates g1)] b2 g1 = (b2\<lparr>lifeTime := 0\<rparr>, g2)"
  proof -
    have "crateLoop [0 ..< length (crates g1)] b2 g1 = crateLoop (ci # [Suc ci ..< length (crates g1)]) b2 g1"
      using B [of b2] assms(1) at1 by (intro crateLoop_reaches) (simp_all add: inr_def)
    also have "\<dots> = (b2\<lparr>lifeTime := 0\<rparr>, g2)"
      using B [of b2] at0 at1 assms(1)
      by (subst crateLoop_hit_survives) (simp_all add: inr_def g2_def c1)
    finally show ?thesis .
  qed
  have l3: "crateLoop [0 ..< length (crates g2)] b3 g2 = (b3\<lparr>lifeTime := 0\<rparr>, g3)"
  proof -
    have "crateLoop [0 ..< length (crates g2)] b3 g2 = crateLoop (ci # [Suc ci ..< length (crates g2)]) b3 g2"
      using B [of b3] assms(1) at2 by (intro crateLoop_reaches) (simp_all add: inr_def)
    also have "\<dots> = (b3\<lparr>lifeTime := 0\<rparr>, g3)"
      using B [of b3] at0 at2 assms(1)
      by (subst crateLoop_hit_dies) (simp_all add: inr_def g3_def h_def c2)
    finally show ?thesis .
  qed
  have e1: "entityCollision a b1 g = (b1\<lparr>lifeTime := 0\<rparr>, g1)"
    using B [of b1] l1 by (intro entityCollision_crate_hit) simp_all
  have e2: "entityCollision a b2 g1 = (b2\<lparr>lifeTime := 0\<rparr>, g2)"
    using B [of b2] l2 by (intro entityCollision_crate_hit) simp_all
  have e3: "entityCollision a b3 g2 = (b3\<lparr>lifeTime := 0\<rparr>, g3)"
    using B [of b3] l3 by (intro entityCollision_crate_hit) simp_all
  have d4: "\<forall>b4 rest. crateLoop (ci # rest) b4 g3 = crateLoop rest b4 g3"
    using at3 by (simp add: crateLoop_dead_skipped)
  have t4: "\<forall>pidx. touchCrate pidx ci g3 = g3"
    using at3 by (simp add: touchCrate_dead)
  from e1 e2 e3 c1 p1 c2 p2 c3 p3 pk(2,3) d4 t4 show ?thesis
    unfolding c_def by blast
qed

theorem crate_three_pellets_witness:
  "\<exists>g1 g2 g3 pk.
     entityCollision [0, 1] (pelletAt \<lparr>xc = 300, yc = 0\<rparr>) crateScene =
       ((pelletAt \<lparr>xc = 300, yc = 0\<rparr>)\<lparr>lifeTime := 0\<rparr>, g1) \<and>
     entityCollision [0, 1] (pelletAt \<lparr>xc = 300, yc = 0\<rparr>) g1 =
       ((pelletAt \<lparr>xc = 300, yc = 0\<rparr>)\<lparr>lifeTime := 0\<rparr>, g2) \<and>
     entityCollision [0, 1] (pelletAt \<lparr>xc = 300, yc = 0\<rparr>) g2 =
       ((pelletAt \<lparr>xc = 300, yc = 0\<rparr>)\<lparr>lifeTime := 0\<rparr>, g3) \<and>
     hp (crates g1 ! 0) = 18 \<and> \<not> dead (crates g1 ! 0) \<and> pickups g1 = [] \<and>
     hp (crates g2 ! 0) = 6 \<and> \<not> dead (crates g2 ! 0) \<and> pickups g2 = [] \<and>
     dead (crates g3 ! 0) \<and> pickups g3 = [pk] \<and> pos pk = \<lparr>xc = 300, yc = 0\<rparr> \<and>
     crateLoop [0] (pelletAt \<lparr>xc = 300, yc = 0\<rparr>) g3 = (pelletAt \<lparr>xc = 300, yc = 0\<rparr>, g3) \<and>
     touchCrate 0 0 g3 = g3"
proof -
  have s: "crates crateScene = [crateAt \<lparr>xc = 300, yc = 0\<rparr>]" "pickups crateScene = []"
    by (simp_all add: crateScene_def newSession_def initGame_def blankGame_def)
  have c: "hp (crateAt \<lparr>xc = 300, yc = 0\<rparr>) = 30" "\<not> dead (crateAt \<lparr>xc = 300, yc = 0\<rparr>)"
    "pos (crateAt \<lparr>xc = 300, yc = 0\<rparr>) = \<lparr>xc = 300, yc = 0\<rparr>"
    "radius (crateAt \<lparr>xc = 300, yc = 0\<rparr>) = 25"
    by (simp_all add: crateAt_def)
  have b: "damage (pelletAt \<lparr>xc = 300, yc = 0\<rparr>) = 12"
    "startsWith_p (ownerId (pelletAt \<lparr>xc = 300, yc = 0\<rparr>))"
    "pos_b (pelletAt \<lparr>xc = 300, yc = 0\<rparr>) = \<lparr>xc = 300, yc = 0\<rparr>"
    "radius_b (pelletAt \<lparr>xc = 300, yc = 0\<rparr>) = 3"
    by (simp_all add: pelletAt_def)
  have pre: "0 < length (crates crateScene)" "hp (crates crateScene ! 0) = 30"
    "\<not> dead (crates crateScene ! 0)"
    "\<forall>b\<in>{pelletAt \<lparr>xc = 300, yc = 0\<rparr>, pelletAt \<lparr>xc = 300, yc = 0\<rparr>, pelletAt \<lparr>xc = 300, yc = 0\<rparr>}.
        damage b = 12 \<and> startsWith_p (ownerId b) \<and>
        hypot (xc (pos_b b) - xc (pos (crates crateScene ! 0))) (yc (pos_b b) - yc (pos (crates crateScene ! 0)))
          < radius (crates crateScene ! 0) + radius_b b \<and>
        (\<forall>j<0. dead (crates crateScene ! j) \<or>
           \<not> hypot (xc (pos_b b) - xc (pos (crates crateScene ! j))) (yc (pos_b b) - yc (pos (crates crateScene ! j)))
               < radius (crates crateScene ! j) + radius_b b)"
    by (simp_all add: s c b hypot_def)
  from crate_three_pellets [OF pre, of "[0, 1]"]
  obtain g1 g2 g3 pk where r:
    "entityCollision [0, 1] (pelletAt \<lparr>xc = 300, yc = 0\<rparr>) crateScene =
       ((pelletAt \<lparr>xc = 300, yc = 0\<rparr>)\<lparr>lifeTime := 0\<rparr>, g1)"
    "entityCollision [0, 1] (pelletAt \<lparr>xc = 300, yc = 0\<rparr>) g1 =
       ((pelletAt \<lparr>xc = 300, yc = 0\<rparr>)\<lparr>lifeTime := 0\<rparr>, g2)"
    "entityCollision [0, 1] (pelletAt \<lparr>xc = 300, yc = 0\<rparr>) g2 =
       ((pelletAt \<lparr>xc = 300, yc = 0\<rparr>)\<lparr>lifeTime := 0\<rparr>, g3)"
    "crates g1 = (crates crateScene)[0 := (crates crateScene ! 0)\<lparr>hp := 18\<rparr>]" "pickups g1 = pickups crateScene"
    "crates g2 = (crates crateScene)[0 := (crates crateScene ! 0)\<lparr>hp := 6\<rparr>]" "pickups g2 = pickups crateScene"
    "crates g3 = (crates crateScene)[0 := (crates crateScene ! 0)\<lparr>hp := - 6, dead := True\<rparr>]"
    "pickups g3 = pickups crateScene @ [pk]" "pos pk = pos (crates crateScene ! 0)"
    "\<forall>b4 rest. crateLoop (0 # rest) b4 g3 = crateLoop rest b4 g3"
    "\<forall>pidx. touchCrate pidx 0 g3 = g3"
    by blast
  show ?thesis
    apply (rule exI [of _ g1], rule exI [of _ g2], rule exI [of _ g3], rule exI [of _ pk])
    using r by (simp add: s c)
qed


subsection \<open>An entity whose centre is inside a building\<close>

text \<open>When the centre of the entity lies in the rectangle, the nearest point of the
  rectangle is the centre itself: \<^verbatim>\<open>dx\<close> and \<^verbatim>\<open>dy\<close> are 0, \<^verbatim>\<open>Math.atan2(0, 0)\<close>
  is 0, and the push is one radius along the positive x axis, wherever the walls are.\<close>

lemma atan2_origin: "atan2 0 0 = 0"
  by (simp add: atan2_def)

lemma hypot_origin: "hypot 0 0 = 0"
  by (simp add: hypot_def)

lemma collideEnv_building_inside:
  assumes "type_env env = Building" "0 < radius e"
    and "xc (pos_env env) - xc (size_env env) / 2 \<le> xc (pos e)"
      "xc (pos e) \<le> xc (pos_env env) + xc (size_env env) / 2"
    and "yc (pos_env env) - yc (size_env env) / 2 \<le> yc (pos e)"
      "yc (pos e) \<le> yc (pos_env env) + yc (size_env env) / 2"
  shows "collideEnv env e =
           e\<lparr>pos := \<lparr>xc = xc (pos e) + radius e, yc = yc (pos e)\<rparr>,
             vel := \<lparr>xc = xc (vel e) * 0.5, yc = yc (vel e) * 0.5\<rparr>\<rparr>"
proof -
  have cx: "max (xc (pos_env env) - xc (size_env env) / 2)
              (min (xc (pos e)) (xc (pos_env env) + xc (size_env env) / 2)) = xc (pos e)"
    using assms by (simp add: max_def min_def)
  have cy: "max (yc (pos_env env) - yc (size_env env) / 2)
              (min (yc (pos e)) (yc (pos_env env) + yc (size_env env) / 2)) = yc (pos e)"
    using assms by (simp add: max_def min_def)
  show ?thesis
    using assms(1,2) by (simp add: collideEnv_def Let_def cx cy hypot_origin atan2_origin)
qed


text \<open>
  Claim C8, at an input where the code does not do what the claim says. The cell
  \<open>(-6, 1)\<close> holds a building 120 wide and more than 100 high. A walker of radius 30
  whose centre is the centre of that building overlaps it (the nearest point of the
  rectangle is at distance 0), and \<^verbatim>\<open>checkEnvironmentCollision\<close>'s step for the
  building moves it 30 to the right: its centre is still strictly inside the rectangle.
\<close>

theorem building_centre_not_pushed_out:
  "\<exists>env. getEnvironmentAt (- 6) 1 = Some env \<and> type_env env = Building \<and>
     pos (collideEnv env (walkerAt (pos_env env))) =
       \<lparr>xc = xc (pos_env env) + 30, yc = yc (pos_env env)\<rparr> \<and>
     \<bar>xc (pos (collideEnv env (walkerAt (pos_env env)))) - xc (pos_env env)\<bar> < xc (size_env env) / 2 \<and>
     \<bar>yc (pos (collideEnv env (walkerAt (pos_env env)))) - yc (pos_env env)\<bar> < yc (size_env env) / 2"
proof -
  obtain env where env: "getEnvironmentAt (- 6) 1 = Some env" "type_env env = Building"
    "xc (size_env env) = 120"
    using building_cell by blast
  have sy: "yc (size_env env) = 100 + valAt (- 6) 1 * 50"
    using env(1) val_cell_m6_1(1) by (auto simp: getEnvironmentAt_def Let_def split: if_splits)
  have ypos: "0 < yc (size_env env)"
    using sy valAt_range [of "- 6" 1] by simp
  have w: "pos (walkerAt (pos_env env)) = pos_env env" "radius (walkerAt (pos_env env)) = 30"
    by (simp_all add: walkerAt_def)
  have "collideEnv env (walkerAt (pos_env env)) =
      (walkerAt (pos_env env))\<lparr>pos := \<lparr>xc = xc (pos (walkerAt (pos_env env))) + radius (walkerAt (pos_env env)),
                                        yc = yc (pos (walkerAt (pos_env env)))\<rparr>,
             vel := \<lparr>xc = xc (vel (walkerAt (pos_env env))) * 0.5, yc = yc (vel (walkerAt (pos_env env))) * 0.5\<rparr>\<rparr>"
    using env ypos w by (intro collideEnv_building_inside) simp_all
  then have "pos (collideEnv env (walkerAt (pos_env env))) =
       \<lparr>xc = xc (pos_env env) + 30, yc = yc (pos_env env)\<rparr>"
    by (simp add: w)
  with env ypos show ?thesis by auto
qed


subsection \<open>What the loops of the bullet pass leave alone\<close>

lemma map_update_same [simp]: "(map f xs)[i := f (xs ! i)] = map f xs"
  by (metis list_update_id map_update)

lemma scoreAll_simps:
  "scoreAll [] g = g"
  "scoreAll (i # rest) g =
     scoreAll rest (g\<lparr>players := (players g)[i := (players g ! i)\<lparr>score := score (players g ! i) + 100\<rparr>]\<rparr>)"
  by (simp_all add: scoreAll_def)

lemma scoreAll_fields [simp]:
  "enemies (scoreAll a g) = enemies g"
  "bullets (scoreAll a g) = bullets g"
  "particles (scoreAll a g) = particles g"
  "crystals (scoreAll a g) = crystals g"
  "crates (scoreAll a g) = crates g"
  "pickups (scoreAll a g) = pickups g"
  "camera (scoreAll a g) = camera g"
  "waveTimer (scoreAll a g) = waveTimer g"
  "bossSpawned (scoreAll a g) = bossSpawned g"
  "crystalsCollected (scoreAll a g) = crystalsCollected g"
  "randoms (scoreAll a g) = randoms g"
  "randomsUsed (scoreAll a g) = randomsUsed g"
  "events (scoreAll a g) = events g"
  "length (players (scoreAll a g)) = length (players g)"
  by (induction a arbitrary: g; simp add: scoreAll_simps)+

lemma wallLoop_fields [simp]:
  "players (snd (wallLoop envs b g)) = players g"
  "enemies (snd (wallLoop envs b g)) = enemies g"
  "bullets (snd (wallLoop envs b g)) = bullets g"
  "crystals (snd (wallLoop envs b g)) = crystals g"
  "crates (snd (wallLoop envs b g)) = crates g"
  "pickups (snd (wallLoop envs b g)) = pickups g"
  "camera (snd (wallLoop envs b g)) = camera g"
  "waveTimer (snd (wallLoop envs b g)) = waveTimer g"
  "bossSpawned (snd (wallLoop envs b g)) = bossSpawned g"
  "crystalsCollected (snd (wallLoop envs b g)) = crystalsCollected g"
  "randoms (snd (wallLoop envs b g)) = randoms g"
  "events (snd (wallLoop envs b g)) = events g"
  by (induction envs; simp)+

lemma wallLoop_bullet:
  "fst (wallLoop envs b g) = b \<or> fst (wallLoop envs b g) = b\<lparr>lifeTime := 0\<rparr>"
  by (induction envs) simp_all

lemma wallLoop_hit:
  "\<exists>env\<in>set envs. type_env env = Building \<and> insideBuilding b env \<Longrightarrow>
   wallLoop envs b g = (b\<lparr>lifeTime := 0\<rparr>, spawnParticle (pos_b b) (Lit ''#555'') 5 Smoke g)"
  by (induction envs) auto

lemma crateLoop_fields [simp]:
  "players (snd (crateLoop cs b g)) = players g"
  "enemies (snd (crateLoop cs b g)) = enemies g"
  "bullets (snd (crateLoop cs b g)) = bullets g"
  "crystals (snd (crateLoop cs b g)) = crystals g"
  "camera (snd (crateLoop cs b g)) = camera g"
  "waveTimer (snd (crateLoop cs b g)) = waveTimer g"
  "bossSpawned (snd (crateLoop cs b g)) = bossSpawned g"
  "crystalsCollected (snd (crateLoop cs b g)) = crystalsCollected g"
  "randoms (snd (crateLoop cs b g)) = randoms g"
  "events (snd (crateLoop cs b g)) = events g"
  "map ident (crates (snd (crateLoop cs b g))) = map ident (crates g)"
  by (induction cs; simp add: Let_def map_update)+

lemma crateLoop_bullet:
  "fst (crateLoop cs b g) = b \<or> fst (crateLoop cs b g) = b\<lparr>lifeTime := 0\<rparr>"
  by (induction cs) (simp_all add: Let_def)

lemma enemyTargetLoop_fields [simp]:
  "bullets (snd (enemyTargetLoop a ts b g)) = bullets g"
  "crystals (snd (enemyTargetLoop a ts b g)) = crystals g"
  "crates (snd (enemyTargetLoop a ts b g)) = crates g"
  "pickups (snd (enemyTargetLoop a ts b g)) = pickups g"
  "camera (snd (enemyTargetLoop a ts b g)) = camera g"
  "waveTimer (snd (enemyTargetLoop a ts b g)) = waveTimer g"
  "bossSpawned (snd (enemyTargetLoop a ts b g)) = bossSpawned g"
  "crystalsCollected (snd (enemyTargetLoop a ts b g)) = crystalsCollected g"
  "randoms (snd (enemyTargetLoop a ts b g)) = randoms g"
  "events (snd (enemyTargetLoop a ts b g)) = events g"
  "map ident (enemies (snd (enemyTargetLoop a ts b g))) = map ident (enemies g)"
  "length (players (snd (enemyTargetLoop a ts b g))) = length (players g)"
  by (induction ts; simp add: Let_def map_update)+

lemma enemyTargetLoop_bullet:
  "fst (enemyTargetLoop a ts b g) = b \<or> fst (enemyTargetLoop a ts b g) = b\<lparr>lifeTime := 0\<rparr>"
  by (induction ts) (simp_all add: Let_def)

lemma playerTargetLoop_fields [simp]:
  "enemies (snd (playerTargetLoop a ts b g)) = enemies g"
  "bullets (snd (playerTargetLoop a ts b g)) = bullets g"
  "crystals (snd (playerTargetLoop a ts b g)) = crystals g"
  "crates (snd (playerTargetLoop a ts b g)) = crates g"
  "pickups (snd (playerTargetLoop a ts b g)) = pickups g"
  "camera (snd (playerTargetLoop a ts b g)) = camera g"
  "waveTimer (snd (playerTargetLoop a ts b g)) = waveTimer g"
  "bossSpawned (snd (playerTargetLoop a ts b g)) = bossSpawned g"
  "crystalsCollected (snd (playerTargetLoop a ts b g)) = crystalsCollected g"
  "randoms (snd (playerTargetLoop a ts b g)) = randoms g"
  "events (snd (playerTargetLoop a ts b g)) = events g"
  "length (players (snd (playerTargetLoop a ts b g))) = length (players g)"
  by (induction ts; simp add: Let_def)+

lemma playerTargetLoop_bullet:
  "fst (playerTargetLoop a ts b g) = b \<or> fst (playerTargetLoop a ts b g) = b\<lparr>lifeTime := 0\<rparr>"
  by (induction ts) (simp_all add: Let_def)


lemma entityCollision_bullets [simp]: "bullets (snd (entityCollision a b g)) = bullets g"
  by (simp add: entityCollision_def Let_def split_beta)

lemma entityCollision_bullet:
  "fst (entityCollision a b g) = b \<or> fst (entityCollision a b g) = b\<lparr>lifeTime := 0\<rparr>"
proof -
  define cs where "cs = (if startsWith_p (ownerId b) then [0 ..< length (crates g)] else [])"
  define b1 where "b1 = fst (crateLoop cs b g)"
  define g1 where "g1 = snd (crateLoop cs b g)"
  have e: "entityCollision a b g =
      (if lifeTime b1 > 0
       then (if startsWith_p (ownerId b)
             then enemyTargetLoop a [0 ..< length (enemies g1)] b1 g1
             else playerTargetLoop a [0 ..< length (players g1)] b1 g1)
       else (b1, g1))"
    by (simp add: entityCollision_def Let_def split_beta cs_def b1_def g1_def)
  have c: "b1 = b \<or> b1 = b\<lparr>lifeTime := 0\<rparr>"
    unfolding b1_def by (rule crateLoop_bullet)
  show ?thesis
  proof (cases "lifeTime b1 > 0")
    case False
    with e c show ?thesis by auto
  next
    case True
    with c have "b1 = b" by auto
    with True e enemyTargetLoop_bullet [of a _ b g1] playerTargetLoop_bullet [of a _ b g1]
    show ?thesis by auto
  qed
qed

lemma homing_keeps [simp]: "lifeTime (homing es b) = lifeTime b" "id_b (homing es b) = id_b b"
  by (simp_all add: homing_def Let_def split: option.splits)

lemma advanceBullet_keeps [simp]:
  "lifeTime (advanceBullet b) = lifeTime b - 1" "id_b (advanceBullet b) = id_b b"
  by (simp_all add: advanceBullet_def)

text \<open>What one visit of the bullet loop does to the registry of bullets.\<close>

lemma updateBullet_bullets:
  "\<exists>b'. bullets (updateBullet a env bi g) = (bullets g)[bi := b'] \<and>
        id_b b' = id_b (bullets g ! bi) \<and>
        (lifeTime b' = lifeTime (bullets g ! bi) - 1 \<or> lifeTime b' = 0)"
proof -
  define b1 where "b1 = advanceBullet (homing (enemies g) (bullets g ! bi))"
  define b2 where "b2 = fst (wallLoop env b1 g)"
  define g2 where "g2 = snd (wallLoop env b1 g)"
  define b3 where "b3 = (if lifeTime b2 \<le> 0 then b2 else fst (entityCollision a b2 g2))"
  have u: "bullets (updateBullet a env bi g) = (bullets g)[bi := b3]"
    by (simp add: updateBullet_def Let_def split_beta b1_def b2_def g2_def b3_def)
  have 1: "id_b b1 = id_b (bullets g ! bi)" "lifeTime b1 = lifeTime (bullets g ! bi) - 1"
    by (simp_all add: b1_def)
  have 2: "b2 = b1 \<or> b2 = b1\<lparr>lifeTime := 0\<rparr>"
    unfolding b2_def by (rule wallLoop_bullet)
  have 3: "b3 = b2 \<or> b3 = b2\<lparr>lifeTime := 0\<rparr>"
    unfolding b3_def using entityCollision_bullet [of a b2 g2] by auto
  from 1 2 3 have "id_b b3 = id_b (bullets g ! bi) \<and>
        (lifeTime b3 = lifeTime (bullets g ! bi) - 1 \<or> lifeTime b3 = 0)"
    by auto
  with u show ?thesis by blast
qed

lemma updateBullet_guard:
  assumes "lifeTime (fst (wallLoop env (advanceBullet (homing (enemies g) (bullets g ! bi))) g)) \<le> 0"
  shows "updateBullet a env bi g =
           (snd (wallLoop env (advanceBullet (homing (enemies g) (bullets g ! bi))) g))
             \<lparr>bullets := (bullets g)[bi := fst (wallLoop env (advanceBullet (homing (enemies g) (bullets g ! bi))) g)]\<rparr>"
  using assms by (simp add: updateBullet_def Let_def split_beta)


lemma wallLoop_miss:
  "\<forall>env\<in>set envs. \<not> (type_env env = Building \<and> insideBuilding b env) \<Longrightarrow>
   wallLoop envs b g = (b, g)"
  by (induction envs) auto

text \<open>No building reaches the origin: the cells next to it are empty, and a building of
  any other cell is at least 130 away on one axis.\<close>

lemma no_building_at_origin:
  assumes "getEnvironmentAt gx gy = Some env" "type_env env = Building"
    "pos_b b = \<lparr>xc = 0, yc = 0\<rparr>"
  shows "\<not> insideBuilding b env"
proof -
  define jx where "jx = cos (seedAt gx gy * 11)"
  define jy where "jy = sin (seedAt gx gy * 22)"
  have j: "- 1 \<le> jx" "jx \<le> 1" "- 1 \<le> jy" "jy \<le> 1"
    by (simp_all add: jx_def jy_def)
  have v: "valAt gx gy < 1"
    using valAt_range by blast
  from assms(1,2) have far: "\<not> (\<bar>gx\<bar> < 2 \<and> \<bar>gy\<bar> < 2)"
    and px: "xc (pos_env env) = of_int gx * 200 + 100 + jx * 80"
    and py: "yc (pos_env env) = of_int gy * 200 + 100 + jy * 80"
    and sx: "xc (size_env env) \<le> 180"
    and sy: "yc (size_env env) = 100 + valAt gx gy * 50"
    by (auto simp: getEnvironmentAt_def Let_def GRID_CELL_SIZE_def jx_def jy_def split: if_splits)
  show ?thesis
  proof
    assume "insideBuilding b env"
    then have A: "xc (pos_env env) - xc (size_env env) / 2 < 0"
      "0 < xc (pos_env env) + xc (size_env env) / 2"
      "yc (pos_env env) - yc (size_env env) / 2 < 0"
      "0 < yc (pos_env env) + yc (size_env env) / 2"
      by (simp_all add: insideBuilding_def Let_def assms(3))
    from far consider "gx \<ge> 2" | "gx \<le> - 2" | "gy \<ge> 2" | "gy \<le> - 2"
      by linarith
    then show False
    proof cases
      case 1
      then have "(of_int gx :: real) \<ge> 2" by simp
      with j sx px A show False by linarith
    next
      case 2
      then have "(of_int gx :: real) \<le> - 2" by simp
      with j sx px A show False by linarith
    next
      case 3
      then have "(of_int gy :: real) \<ge> 2" by simp
      with j v sy py A show False by linarith
    next
      case 4
      then have "(of_int gy :: real) \<le> - 2" by simp
      with j v sy py A show False by linarith
    qed
  qed
qed

subsection \<open>What each pass does to the counters and to the registries that spawn\<close>

lemma fold_keeps: "(\<And>x s. P (f x s) = P s) \<Longrightarrow> P (fold f xs s) = P s"
  by (induction xs arbitrary: s) simp_all

lemma fold_subseq:
  "(\<And>x s. subseq (P (f x s)) (P s)) \<Longrightarrow> subseq (P (fold f xs s)) (P s)"
proof (induction xs arbitrary: s)
  case Nil
  then show ?case by simp
next
  case (Cons x xs)
  have "subseq (P (fold f xs (f x s))) (P (f x s))"
    using Cons by blast
  also have "subseq (P (f x s)) (P s)"
    using Cons.prems by blast
  finally show ?case by simp
qed

lemma updatePlayer_keeps [simp]:
  "enemies (updatePlayer inp i g) = enemies g"
  "crystals (updatePlayer inp i g) = crystals g"
  "crates (updatePlayer inp i g) = crates g"
  "pickups (updatePlayer inp i g) = pickups g"
  "bossSpawned (updatePlayer inp i g) = bossSpawned g"
  "crystalsCollected (updatePlayer inp i g) = crystalsCollected g"
  "waveTimer (updatePlayer inp i g) = waveTimer g"
  "events (updatePlayer inp i g) = events g"
  by (simp_all add: updatePlayer_def Let_def split_beta)

lemma playerPass_keeps [simp]:
  "enemies (playerPass inp g) = enemies g"
  "crystals (playerPass inp g) = crystals g"
  "crates (playerPass inp g) = crates g"
  "pickups (playerPass inp g) = pickups g"
  "bossSpawned (playerPass inp g) = bossSpawned g"
  "crystalsCollected (playerPass inp g) = crystalsCollected g"
  "waveTimer (playerPass inp g) = waveTimer g"
  "events (playerPass inp g) = events g"
  unfolding playerPass_def by (rule fold_keeps, simp)+

lemma touchCrate_keeps [simp]:
  "enemies (touchCrate pidx ci g) = enemies g"
  "crystals (touchCrate pidx ci g) = crystals g"
  "bossSpawned (touchCrate pidx ci g) = bossSpawned g"
  "crystalsCollected (touchCrate pidx ci g) = crystalsCollected g"
  "map ident (crates (touchCrate pidx ci g)) = map ident (crates g)"
  by (simp_all add: touchCrate_def Let_def map_update)

lemma touchPickup_keeps [simp]:
  "enemies (touchPickup pidx ki g) = enemies g"
  "crystals (touchPickup pidx ki g) = crystals g"
  "crates (touchPickup pidx ki g) = crates g"
  "bossSpawned (touchPickup pidx ki g) = bossSpawned g"
  "crystalsCollected (touchPickup pidx ki g) = crystalsCollected g"
  by (simp_all add: touchPickup_def Let_def)

lemma interact_keeps [simp]:
  "enemies (interact pidx g) = enemies g"
  "crystals (interact pidx g) = crystals g"
  "bossSpawned (interact pidx g) = bossSpawned g"
  "crystalsCollected (interact pidx g) = crystalsCollected g"
  "map ident (crates (interact pidx g)) = map ident (crates g)"
proof -
  define g1 where "g1 = fold (touchCrate pidx) [0 ..< length (crates g)] g"
  have i: "interact pidx g = fold (touchPickup pidx) [0 ..< length (pickups g1)] g1"
    by (simp add: interact_def Let_def g1_def)
  have 1: "enemies g1 = enemies g" "crystals g1 = crystals g" "bossSpawned g1 = bossSpawned g"
    "crystalsCollected g1 = crystalsCollected g"
    unfolding g1_def by (rule fold_keeps, simp)+
  have 2: "map ident (crates g1) = map ident (crates g)"
    unfolding g1_def by (rule fold_keeps [where P = "\<lambda>s. map ident (crates s)"]) simp
  show "enemies (interact pidx g) = enemies g"
    unfolding i using 1 by (subst fold_keeps) simp_all
  show "crystals (interact pidx g) = crystals g"
    unfolding i using 1 by (subst fold_keeps) simp_all
  show "bossSpawned (interact pidx g) = bossSpawned g"
    unfolding i using 1 by (subst fold_keeps) simp_all
  show "crystalsCollected (interact pidx g) = crystalsCollected g"
    unfolding i using 1 by (subst fold_keeps) simp_all
  have "crates (interact pidx g) = crates g1"
    unfolding i by (rule fold_keeps) simp
  then show "map ident (crates (interact pidx g)) = map ident (crates g)"
    using 2 by simp
qed

lemma interactionPass_keeps [simp]:
  "enemies (interactionPass g) = enemies g"
  "crystals (interactionPass g) = crystals g"
  "bossSpawned (interactionPass g) = bossSpawned g"
  "crystalsCollected (interactionPass g) = crystalsCollected g"
  unfolding interactionPass_def Let_def by (simp_all, (rule fold_keeps, simp)+)

lemma interactionPass_crates:
  "subseq (map ident (crates (interactionPass g))) (map ident (crates g))"
proof -
  define g1 where "g1 = fold interact (filter (\<lambda>i. \<not> dead (players g ! i)) [0 ..< length (players g)]) g"
  have 1: "map ident (crates g1) = map ident (crates g)"
    unfolding g1_def by (rule fold_keeps [where P = "\<lambda>s. map ident (crates s)"]) simp
  have "crates (interactionPass g) = filter (\<lambda>c. \<not> dead c) (crates g1)"
    by (simp add: interactionPass_def Let_def g1_def)
  then have "subseq (map ident (crates (interactionPass g))) (map ident (crates g1))"
    by (simp add: subseq_map)
  with 1 show ?thesis by simp
qed


lemma enemyAttack_keeps [simp]:
  "ident (fst (enemyAttack e t d g)) = ident e"
  "etype (fst (enemyAttack e t d g)) = etype e"
  "enemies (snd (enemyAttack e t d g)) = enemies g"
  "crystals (snd (enemyAttack e t d g)) = crystals g"
  "crates (snd (enemyAttack e t d g)) = crates g"
  "bossSpawned (snd (enemyAttack e t d g)) = bossSpawned g"
  "crystalsCollected (snd (enemyAttack e t d g)) = crystalsCollected g"
  by (simp_all add: enemyAttack_def Let_def split_beta)

lemma updateEnemy_keeps [simp]:
  "crystals (updateEnemy a i g) = crystals g"
  "crates (updateEnemy a i g) = crates g"
  "bossSpawned (updateEnemy a i g) = bossSpawned g"
  "crystalsCollected (updateEnemy a i g) = crystalsCollected g"
  "map ident (enemies (updateEnemy a i g)) = map ident (enemies g)"
  "map etype (enemies (updateEnemy a i g)) = map etype (enemies g)"
  by (simp_all add: updateEnemy_def Let_def split_beta map_update split: option.splits)

lemma enemyPass_keeps [simp]:
  "crystals (enemyPass a g) = crystals g"
  "crates (enemyPass a g) = crates g"
  "bossSpawned (enemyPass a g) = bossSpawned g"
  "crystalsCollected (enemyPass a g) = crystalsCollected g"
  "map ident (enemies (enemyPass a g)) = map ident (enemies g)"
  "map etype (enemies (enemyPass a g)) = map etype (enemies g)"
  unfolding enemyPass_def
       apply (rule fold_keeps, simp)
      apply (rule fold_keeps, simp)
     apply (rule fold_keeps, simp)
    apply (rule fold_keeps, simp)
   apply (rule fold_keeps [where P = "\<lambda>s. map ident (enemies s)"], simp)
  apply (rule fold_keeps [where P = "\<lambda>s. map etype (enemies s)"], simp)
  done

lemma collectLoop_keeps [simp]:
  "enemies (snd (collectLoop c a g)) = enemies g"
  "crystals (snd (collectLoop c a g)) = crystals g"
  "crates (snd (collectLoop c a g)) = crates g"
  "bossSpawned (snd (collectLoop c a g)) = bossSpawned g"
  by (induction a; simp add: Let_def)+

lemma collectLoop_count: "crystalsCollected g \<le> crystalsCollected (snd (collectLoop c a g))"
  by (induction a) (simp_all add: Let_def)

lemma crystalFilter_keeps [simp]:
  "enemies (snd (crystalFilter a cs g)) = enemies g"
  "crystals (snd (crystalFilter a cs g)) = crystals g"
  "crates (snd (crystalFilter a cs g)) = crates g"
  "bossSpawned (snd (crystalFilter a cs g)) = bossSpawned g"
  by (induction cs arbitrary: g; simp add: Let_def split_beta)+

lemma crystalFilter_count: "crystalsCollected g \<le> crystalsCollected (snd (crystalFilter a cs g))"
proof (induction cs arbitrary: g)
  case Nil
  then show ?case by simp
next
  case (Cons c cs)
  have "crystalsCollected g \<le> crystalsCollected (snd (collectLoop c a g))"
    by (rule collectLoop_count)
  also have "\<dots> \<le> crystalsCollected (snd (crystalFilter a cs (snd (collectLoop c a g))))"
    by (rule Cons.IH)
  finally show ?case by (simp add: Let_def split_beta)
qed

lemma crystalFilter_kept: "subseq (fst (crystalFilter a cs g)) cs"
  by (induction cs arbitrary: g) (auto simp: Let_def split_beta)

lemma crystalPass_keeps [simp]:
  "enemies (crystalPass a g) = enemies g"
  "crates (crystalPass a g) = crates g"
  "bossSpawned (crystalPass a g) = bossSpawned g"
  by (simp_all add: crystalPass_def Let_def split_beta)

lemma crystalPass_count: "crystalsCollected g \<le> crystalsCollected (crystalPass a g)"
  using crystalFilter_count [of g a "crystals g"] by (simp add: crystalPass_def Let_def split_beta)

lemma crystalPass_crystals: "subseq (crystals (crystalPass a g)) (crystals g)"
  using crystalFilter_kept [of a "crystals g" g] by (simp add: crystalPass_def Let_def split_beta)

lemma enemyTargetLoop_etypes [simp]:
  "map etype (enemies (snd (enemyTargetLoop a ts b g))) = map etype (enemies g)"
  by (induction ts) (simp_all add: Let_def map_update)

lemma entityCollision_keeps [simp]:
  "crystals (snd (entityCollision a b g)) = crystals g"
  "bossSpawned (snd (entityCollision a b g)) = bossSpawned g"
  "crystalsCollected (snd (entityCollision a b g)) = crystalsCollected g"
  "map ident (crates (snd (entityCollision a b g))) = map ident (crates g)"
  "map ident (enemies (snd (entityCollision a b g))) = map ident (enemies g)"
  "map etype (enemies (snd (entityCollision a b g))) = map etype (enemies g)"
  by (simp_all add: entityCollision_def Let_def split_beta)

lemma updateBullet_keeps [simp]:
  "crystals (updateBullet a env bi g) = crystals g"
  "bossSpawned (updateBullet a env bi g) = bossSpawned g"
  "crystalsCollected (updateBullet a env bi g) = crystalsCollected g"
  "map ident (crates (updateBullet a env bi g)) = map ident (crates g)"
  "map ident (enemies (updateBullet a env bi g)) = map ident (enemies g)"
  "map etype (enemies (updateBullet a env bi g)) = map etype (enemies g)"
  by (simp_all add: updateBullet_def Let_def split_beta)

lemma bulletPass_keeps [simp]:
  "crystals (bulletPass inp a g) = crystals g"
  "bossSpawned (bulletPass inp a g) = bossSpawned g"
  "crystalsCollected (bulletPass inp a g) = crystalsCollected g"
  "map ident (crates (bulletPass inp a g)) = map ident (crates g)"
  unfolding bulletPass_def Let_def
     apply (simp, rule fold_keeps, simp)
    apply (simp, rule fold_keeps, simp)
   apply (simp, rule fold_keeps, simp)
  apply (simp, rule fold_keeps [where P = "\<lambda>s. map ident (crates s)"], simp)
  done

lemma bulletPass_enemies:
  "\<exists>es. map ident es = map ident (enemies g) \<and> map etype es = map etype (enemies g) \<and>
        enemies (bulletPass inp a g) = filter (\<lambda>e. \<not> dead e) es"
proof -
  define G where "G = fold (updateBullet a (getEnvironmentInRect (xc (camera g)) (yc (camera g))
              (innerWidth inp * 1.5) (innerHeight inp * 1.5))) [0 ..< length (bullets g)] g"
  have "map ident (enemies G) = map ident (enemies g)"
    unfolding G_def by (rule fold_keeps [where P = "\<lambda>s. map ident (enemies s)"]) simp
  moreover have "map etype (enemies G) = map etype (enemies g)"
    unfolding G_def by (rule fold_keeps [where P = "\<lambda>s. map etype (enemies s)"]) simp
  moreover have "enemies (bulletPass inp a g) = filter (\<lambda>e. \<not> dead e) (enemies G)"
    by (simp add: bulletPass_def Let_def G_def)
  ultimately show ?thesis by blast
qed

lemma tail_keeps [simp]:
  "enemies (particlePass g) = enemies g" "crystals (particlePass g) = crystals g"
  "crates (particlePass g) = crates g" "bossSpawned (particlePass g) = bossSpawned g"
  "crystalsCollected (particlePass g) = crystalsCollected g"
  "enemies (cameraFollow g) = enemies g" "crystals (cameraFollow g) = crystals g"
  "crates (cameraFollow g) = crates g" "bossSpawned (cameraFollow g) = bossSpawned g"
  "crystalsCollected (cameraFollow g) = crystalsCollected g"
  by (simp_all add: particlePass_def cameraFollow_def Let_def)


subsection \<open>The spawn policy\<close>

lemma spawnEnemy_keeps [simp]:
  "crystals (spawnEnemy li isBoss g) = crystals g"
  "crates (spawnEnemy li isBoss g) = crates g"
  "bossSpawned (spawnEnemy li isBoss g) = bossSpawned g"
  "crystalsCollected (spawnEnemy li isBoss g) = crystalsCollected g"
  "waveTimer (spawnEnemy li isBoss g) = waveTimer g"
  by (simp_all add: spawnEnemy_def Let_def advance_def)

lemma spawnEnemy_regular:
  "\<exists>e. enemies (spawnEnemy li False g) = enemies g @ [e] \<and> etype e = T_enemy"
  by (simp add: spawnEnemy_def Let_def advance_def)

lemma spawnEnemy_boss:
  "\<exists>boss. enemies (spawnEnemy li True g) = enemies g @ [boss] \<and>
     etype boss = T_boss \<and> enemyType boss = Boss \<and> ident boss = Str ''boss'' \<and>
     hp boss = 1500 * of_int (levelOr1 li) \<and> maxHp boss = 1500 * of_int (levelOr1 li) \<and>
     \<not> dead boss \<and> scale (visuals boss) = 2 \<and> hasArmor (visuals boss) \<and> hasHorns (visuals boss)"
  by (simp add: spawnEnemy_def Let_def advance_def)

lemma spawnCrystal_keeps [simp]:
  "enemies (spawnCrystal g) = enemies g"
  "crates (spawnCrystal g) = crates g"
  "bossSpawned (spawnCrystal g) = bossSpawned g"
  "crystalsCollected (spawnCrystal g) = crystalsCollected g"
  "waveTimer (spawnCrystal g) = waveTimer g"
  by (simp_all add: spawnCrystal_def Let_def advance_def)

lemma spawnCrate_keeps [simp]:
  "enemies (spawnCrate g) = enemies g"
  "crystals (spawnCrate g) = crystals g"
  "bossSpawned (spawnCrate g) = bossSpawned g"
  "crystalsCollected (spawnCrate g) = crystalsCollected g"
  "waveTimer (spawnCrate g) = waveTimer g"
  by (simp_all add: spawnCrate_def Let_def advance_def)

lemma spawnPass_after_boss: "bossSpawned g \<Longrightarrow> spawnPass li g = g\<lparr>waveTimer := waveTimer g + 1\<rparr>"
  by (simp add: spawnPass_def Let_def)

text \<open>The spawn policy before the boss: the three regular spawns, each under its own
  condition, lead to a state \<open>g3\<close>; then the boss is spawned or not.\<close>

lemma spawnPass_before_boss:
  assumes "\<not> bossSpawned g"
  shows "\<exists>g3 regular.
     spawnPass li g =
       (if int (crystalsCollected g) \<ge> CRYSTALS_TO_BOSS li
        then (spawnEnemy li True g3)\<lparr>bossSpawned := True\<rparr> else g3) \<and>
     \<not> bossSpawned g3 \<and> crystalsCollected g3 = crystalsCollected g \<and>
     enemies g3 = enemies g @ regular \<and> (\<forall>e\<in>set regular. etype e = T_enemy)"
proof -
  define g0 where "g0 = g\<lparr>waveTimer := waveTimer g + 1\<rparr>"
  define c1 where "c1 \<longleftrightarrow> waveTimer g0 mod 120 = 0 \<and> length (enemies g0) < 30"
  define g1 where "g1 = (if c1 then spawnEnemy li False g0 else g0)"
  define c2 where "c2 \<longleftrightarrow> length (crystals g1) < 15 \<and> waveTimer g1 mod 60 = 0"
  define g2 where "g2 = (if c2 then spawnCrystal g1 else g1)"
  define c3 where "c3 \<longleftrightarrow> length (crates g2) < 5 \<and> waveTimer g2 mod 300 = 0"
  define g3 where "g3 = (if c3 then spawnCrate g2 else g2)"
  have f0: "\<not> bossSpawned g0" "crystalsCollected g0 = crystalsCollected g" "enemies g0 = enemies g"
    using assms by (simp_all add: g0_def)
  have f1: "\<not> bossSpawned g1" "crystalsCollected g1 = crystalsCollected g"
    using f0 by (simp_all add: g1_def)
  have f2: "\<not> bossSpawned g2" "crystalsCollected g2 = crystalsCollected g" "enemies g2 = enemies g1"
    using f1 by (simp_all add: g2_def)
  have f3: "\<not> bossSpawned g3" "crystalsCollected g3 = crystalsCollected g" "enemies g3 = enemies g1"
    using f2 by (simp_all add: g3_def)
  have sp: "spawnPass li g =
      (if int (crystalsCollected g) \<ge> CRYSTALS_TO_BOSS li
       then (spawnEnemy li True g3)\<lparr>bossSpawned := True\<rparr> else g3)"
    unfolding spawnPass_def Let_def g0_def [symmetric] c1_def [symmetric] g1_def [symmetric]
      c2_def [symmetric] g2_def [symmetric] c3_def [symmetric] g3_def [symmetric]
    using f0(1) f3(2) by simp
  obtain regular where r: "enemies g1 = enemies g @ regular" "\<forall>e\<in>set regular. etype e = T_enemy"
  proof (cases c1)
    case True
    obtain e where "enemies (spawnEnemy li False g0) = enemies g0 @ [e]" "etype e = T_enemy"
      using spawnEnemy_regular by blast
    with True have "enemies g1 = enemies g @ [e]" "\<forall>x\<in>set [e]. etype x = T_enemy"
      by (simp_all add: g1_def f0)
    then show ?thesis using that by blast
  next
    case False
    then have "enemies g1 = enemies g @ []" by (simp add: g1_def f0)
    then show ?thesis using that [of "[]"] by simp
  qed
  from sp f3 r show ?thesis by auto
qed

lemma spawnPass_count [simp]: "crystalsCollected (spawnPass li g) = crystalsCollected g"
proof (cases "bossSpawned g")
  case True
  then show ?thesis by (simp add: spawnPass_after_boss)
next
  case False
  obtain g3 where s: "spawnPass li g =
       (if int (crystalsCollected g) \<ge> CRYSTALS_TO_BOSS li
        then (spawnEnemy li True g3)\<lparr>bossSpawned := True\<rparr> else g3)"
    and c: "crystalsCollected g3 = crystalsCollected g"
    using spawnPass_before_boss [OF False, of li] by blast
  show ?thesis
    unfolding s using c by simp
qed

lemma spawnPass_flag:
  "bossSpawned (spawnPass li g) \<longleftrightarrow> bossSpawned g \<or> int (crystalsCollected g) \<ge> CRYSTALS_TO_BOSS li"
proof (cases "bossSpawned g")
  case True
  then show ?thesis by (simp add: spawnPass_after_boss)
next
  case False
  obtain g3 where s: "spawnPass li g =
       (if int (crystalsCollected g) \<ge> CRYSTALS_TO_BOSS li
        then (spawnEnemy li True g3)\<lparr>bossSpawned := True\<rparr> else g3)"
    and nb: "\<not> bossSpawned g3"
    using spawnPass_before_boss [OF False, of li] by blast
  show ?thesis
    unfolding s using False nb by simp
qed

lemma spawnPass_enemies:
  assumes "\<not> bossSpawned g"
  shows "\<exists>regular. (\<forall>e\<in>set regular. etype e = T_enemy) \<and>
     (int (crystalsCollected g) < CRYSTALS_TO_BOSS li \<longrightarrow>
        enemies (spawnPass li g) = enemies g @ regular) \<and>
     (int (crystalsCollected g) \<ge> CRYSTALS_TO_BOSS li \<longrightarrow>
        (\<exists>boss. enemies (spawnPass li g) = enemies g @ regular @ [boss] \<and>
           etype boss = T_boss \<and> enemyType boss = Boss \<and> ident boss = Str ''boss'' \<and>
           hp boss = 1500 * of_int (levelOr1 li) \<and> maxHp boss = 1500 * of_int (levelOr1 li) \<and>
           \<not> dead boss \<and> scale (visuals boss) = 2 \<and> hasArmor (visuals boss) \<and>
           hasHorns (visuals boss)))"
proof -
  obtain g3 regular where s: "spawnPass li g =
       (if int (crystalsCollected g) \<ge> CRYSTALS_TO_BOSS li
        then (spawnEnemy li True g3)\<lparr>bossSpawned := True\<rparr> else g3)"
     "enemies g3 = enemies g @ regular" "\<forall>e\<in>set regular. etype e = T_enemy"
    using spawnPass_before_boss [OF assms, of li] by blast
  obtain boss where b: "enemies (spawnEnemy li True g3) = enemies g3 @ [boss]"
     "etype boss = T_boss" "enemyType boss = Boss" "ident boss = Str ''boss''"
     "hp boss = 1500 * of_int (levelOr1 li)" "maxHp boss = 1500 * of_int (levelOr1 li)"
     "\<not> dead boss" "scale (visuals boss) = 2" "hasArmor (visuals boss)" "hasHorns (visuals boss)"
    using spawnEnemy_boss by blast
  show ?thesis
  proof (intro exI [of _ regular] conjI impI)
    show "\<forall>e\<in>set regular. etype e = T_enemy" by (rule s(3))
  next
    assume "int (crystalsCollected g) < CRYSTALS_TO_BOSS li"
    then show "enemies (spawnPass li g) = enemies g @ regular"
      by (simp add: s)
  next
    assume "CRYSTALS_TO_BOSS li \<le> int (crystalsCollected g)"
    then have "enemies (spawnPass li g) = enemies g @ regular @ [boss]"
      by (simp add: s b(1))
    with b show "\<exists>boss. enemies (spawnPass li g) = enemies g @ regular @ [boss] \<and>
           etype boss = T_boss \<and> enemyType boss = Boss \<and> ident boss = Str ''boss'' \<and>
           hp boss = 1500 * of_int (levelOr1 li) \<and> maxHp boss = 1500 * of_int (levelOr1 li) \<and>
           \<not> dead boss \<and> scale (visuals boss) = 2 \<and> hasArmor (visuals boss) \<and>
           hasHorns (visuals boss)"
      by blast
  qed
qed

subsection \<open>The passes after the spawn policy add no enemy, crystal or crate\<close>

lemma passes_count: "crystalsCollected g \<le> crystalsCollected (passes li inp a g)"
  using crystalPass_count [of "enemyPass a (interactionPass (playerPass inp (spawnPass li g)))" a]
  by (simp add: passes_def)

lemma passes_flag: "bossSpawned (passes li inp a g) = bossSpawned (spawnPass li g)"
  by (simp add: passes_def)

lemma passes_crystals: "subseq (crystals (passes li inp a g)) (crystals (spawnPass li g))"
  using crystalPass_crystals [of a "enemyPass a (interactionPass (playerPass inp (spawnPass li g)))"]
  by (simp add: passes_def)

lemma passes_crates:
  "subseq (map ident (crates (passes li inp a g))) (map ident (crates (spawnPass li g)))"
  using interactionPass_crates [of "playerPass inp (spawnPass li g)"]
  by (simp add: passes_def)

lemma passes_enemies:
  "subseq (map ident (enemies (passes li inp a g))) (map ident (enemies (spawnPass li g)))"
  "subseq (map etype (enemies (passes li inp a g))) (map etype (enemies (spawnPass li g)))"
proof -
  define h where "h = crystalPass a (enemyPass a (interactionPass (playerPass inp (spawnPass li g))))"
  obtain es where es: "map ident es = map ident (enemies h)" "map etype es = map etype (enemies h)"
    "enemies (bulletPass inp a h) = filter (\<lambda>e. \<not> dead e) es"
    using bulletPass_enemies by blast
  have p: "enemies (passes li inp a g) = filter (\<lambda>e. \<not> dead e) es"
    by (simp add: passes_def h_def [symmetric] es(3))
  have i: "map ident (enemies h) = map ident (enemies (spawnPass li g))"
    "map etype (enemies h) = map etype (enemies (spawnPass li g))"
    by (simp_all add: h_def)
  have "subseq (map ident (filter (\<lambda>e. \<not> dead e) es)) (map ident es)"
    by (simp add: subseq_map)
  then show "subseq (map ident (enemies (passes li inp a g))) (map ident (enemies (spawnPass li g)))"
    by (simp add: p es(1) i)
  have "subseq (map etype (filter (\<lambda>e. \<not> dead e) es)) (map etype es)"
    by (simp add: subseq_map)
  then show "subseq (map etype (enemies (passes li inp a g))) (map etype (enemies (spawnPass li g)))"
    by (simp add: p es(2) i)
qed

lemma update_count: "crystalsCollected g \<le> crystalsCollected (update li inp g)"
  using passes_count by (simp add: update_def Let_def)

lemma frames_count: "crystalsCollected g \<le> crystalsCollected (frames li inps g)"
proof (induction inps arbitrary: g)
  case Nil
  then show ?case by simp
next
  case (Cons inp inps)
  have "crystalsCollected g \<le> crystalsCollected (update li inp g)"
    by (rule update_count)
  also have "\<dots> \<le> crystalsCollected (frames li inps (update li inp g))"
    by (rule Cons.IH)
  finally show ?case by simp
qed

lemma update_after_boss:
  assumes "bossSpawned g"
  shows "bossSpawned (update li inp g)"
    and "subseq (map ident (enemies (update li inp g))) (map ident (enemies g))"
    and "subseq (crystals (update li inp g)) (crystals g)"
    and "subseq (map ident (crates (update li inp g))) (map ident (crates g))"
proof -
  have s: "spawnPass li g = g\<lparr>waveTimer := waveTimer g + 1\<rparr>"
    using assms by (rule spawnPass_after_boss)
  show "bossSpawned (update li inp g)"
    using assms by (simp add: update_def Let_def passes_flag s)
  show "subseq (map ident (enemies (update li inp g))) (map ident (enemies g))"
    using passes_enemies(1) [of li inp _ g] by (simp add: update_def Let_def s)
  show "subseq (crystals (update li inp g)) (crystals g)"
    using passes_crystals [of li inp _ g] by (simp add: update_def Let_def s)
  show "subseq (map ident (crates (update li inp g))) (map ident (crates g))"
    using passes_crates [of li inp _ g] by (simp add: update_def Let_def s)
qed

lemma frames_after_boss:
  "bossSpawned g \<Longrightarrow>
   bossSpawned (frames li inps g) \<and>
   subseq (map ident (enemies (frames li inps g))) (map ident (enemies g)) \<and>
   subseq (crystals (frames li inps g)) (crystals g) \<and>
   subseq (map ident (crates (frames li inps g))) (map ident (crates g))"
proof (induction inps arbitrary: g)
  case Nil
  then show ?case by simp
next
  case (Cons inp inps)
  note u = update_after_boss [OF Cons.prems, of li inp]
  from Cons.IH [OF u(1)] have f:
    "bossSpawned (frames li inps (update li inp g))"
    "subseq (map ident (enemies (frames li inps (update li inp g)))) (map ident (enemies (update li inp g)))"
    "subseq (crystals (frames li inps (update li inp g))) (crystals (update li inp g))"
    "subseq (map ident (crates (frames li inps (update li inp g)))) (map ident (crates (update li inp g)))"
    by simp_all
  from f(2) u(2) have "subseq (map ident (enemies (frames li inps (update li inp g)))) (map ident (enemies g))"
    by (rule subseq_order.trans)
  moreover from f(3) u(3) have "subseq (crystals (frames li inps (update li inp g))) (crystals g)"
    by (rule subseq_order.trans)
  moreover from f(4) u(4) have "subseq (map ident (crates (frames li inps (update li inp g)))) (map ident (crates g))"
    by (rule subseq_order.trans)
  ultimately show ?case using f(1) by simp
qed


subsection \<open>At most one boss\<close>

lemma subseq_count: "subseq xs ys \<Longrightarrow> length (filter P xs) \<le> length (filter P ys)"
  by (rule list_emb_length [where P = "(=)"]) simp

lemma bosses_by_type:
  "length (filter (\<lambda>e. etype e = T_boss) es) = length (filter (\<lambda>t. t = T_boss) (map etype es))"
  by (simp add: filter_map comp_def)

lemma spawnPass_bosses:
  assumes "length (filter (\<lambda>e. etype e = T_boss) (enemies g)) \<le> (if bossSpawned g then 1 else 0)"
  shows "length (filter (\<lambda>e. etype e = T_boss) (enemies (spawnPass li g)))
           \<le> (if bossSpawned (spawnPass li g) then 1 else 0)"
proof (cases "bossSpawned g")
  case True
  with assms show ?thesis by (simp add: spawnPass_after_boss)
next
  case False
  with assms have z: "filter (\<lambda>e. etype e = T_boss) (enemies g) = []" by simp
  obtain regular where r: "\<forall>e\<in>set regular. etype e = T_enemy"
    "int (crystalsCollected g) < CRYSTALS_TO_BOSS li \<longrightarrow>
        enemies (spawnPass li g) = enemies g @ regular"
    "int (crystalsCollected g) \<ge> CRYSTALS_TO_BOSS li \<longrightarrow>
        (\<exists>boss. enemies (spawnPass li g) = enemies g @ regular @ [boss] \<and> etype boss = T_boss)"
    using spawnPass_enemies [OF False, of li] by blast
  have zr: "filter (\<lambda>e. etype e = T_boss) regular = []"
    using r(1) by (auto simp: filter_empty_conv)
  show ?thesis
  proof (cases "int (crystalsCollected g) < CRYSTALS_TO_BOSS li")
    case True
    with r(2) z zr show ?thesis by simp
  next
    case False
    with r(3) obtain boss where "enemies (spawnPass li g) = enemies g @ regular @ [boss]"
      "etype boss = T_boss" by auto
    with z zr False show ?thesis by (simp add: spawnPass_flag)
  qed
qed

lemma passes_bosses:
  assumes "length (filter (\<lambda>e. etype e = T_boss) (enemies g)) \<le> (if bossSpawned g then 1 else 0)"
  shows "length (filter (\<lambda>e. etype e = T_boss) (enemies (passes li inp a g)))
           \<le> (if bossSpawned (passes li inp a g) then 1 else 0)"
proof -
  have "length (filter (\<lambda>e. etype e = T_boss) (enemies (passes li inp a g)))
      \<le> length (filter (\<lambda>e. etype e = T_boss) (enemies (spawnPass li g)))"
    unfolding bosses_by_type by (rule subseq_count [OF passes_enemies(2)])
  also have "\<dots> \<le> (if bossSpawned (spawnPass li g) then 1 else 0)"
    by (rule spawnPass_bosses [OF assms])
  finally show ?thesis by (simp only: passes_flag)
qed

lemma update_bosses:
  assumes "length (filter (\<lambda>e. etype e = T_boss) (enemies g)) \<le> (if bossSpawned g then 1 else 0)"
  shows "length (filter (\<lambda>e. etype e = T_boss) (enemies (update li inp g)))
           \<le> (if bossSpawned (update li inp g) then 1 else 0)"
proof -
  define a where "a = filter (\<lambda>i. \<not> dead (players g ! i)) [0 ..< length (players g)]"
  consider "update li inp g = g\<lparr>events := events g @ [GameOver]\<rparr>"
    | "update li inp g = g\<lparr>events := events g @ [LevelComplete]\<rparr>"
    | "update li inp g = passes li inp a g"
    unfolding update_def Let_def a_def [symmetric] by presburger
  then show ?thesis
  proof cases
    case 1
    with assms show ?thesis by simp
  next
    case 2
    with assms show ?thesis by simp
  next
    case 3
    with passes_bosses [OF assms, of li inp a] show ?thesis by simp
  qed
qed

lemma frames_bosses:
  "length (filter (\<lambda>e. etype e = T_boss) (enemies g)) \<le> (if bossSpawned g then 1 else 0) \<Longrightarrow>
   length (filter (\<lambda>e. etype e = T_boss) (enemies (frames li inps g)))
           \<le> (if bossSpawned (frames li inps g) then 1 else 0)"
proof (induction inps arbitrary: g)
  case Nil
  then show ?case by simp
next
  case (Cons inp inps)
  from Cons.IH [OF update_bosses [OF Cons.prems, of li inp]] show ?case by simp
qed

lemma session_bosses:
  "length (filter (\<lambda>e. etype e = T_boss) (enemies (frames li inps (initGame g0)))) \<le> 1"
proof -
  have "length (filter (\<lambda>e. etype e = T_boss) (enemies (initGame g0)))
      \<le> (if bossSpawned (initGame g0) then 1 else 0)"
    by (simp add: initGame_def)
  from frames_bosses [OF this, of li inps]
  show ?thesis
    by (simp split: if_splits)
qed

lemma update_runs:
  assumes "\<exists>p\<in>set (players g). \<not> dead p" "\<not> bossSpawned g"
  shows "update li inp g =
           passes li inp (filter (\<lambda>i. \<not> dead (players g ! i)) [0 ..< length (players g)]) g"
proof -
  from assms(1) obtain i where "i < length (players g)" "\<not> dead (players g ! i)"
    by (auto simp: in_set_conv_nth)
  then have "filter (\<lambda>i. \<not> dead (players g ! i)) [0 ..< length (players g)] \<noteq> []"
    by (auto simp: filter_empty_conv)
  with assms(2) show ?thesis
    by (simp add: update_def Let_def)
qed

text \<open>
  Claim C2. The collected-crystal count never goes down, over one tick or over any run of
  ticks. The threshold is 10 plus twice the level number, where the level number is that
  of the level information (1 when there is none or when it is 0). As long as the boss
  flag is clear and the count at the start of the spawn pass is below the threshold, the
  pass leaves the flag clear and adds no boss. In the spawn pass of the first running
  tick that starts with the count at or above the threshold, the flag is raised and the
  pass appends, after whatever regular enemy that tick still adds, exactly one boss: id
  \<^verbatim>\<open>boss\<close>, hp and maxHp 1500 times the level number, scale 2, armor and horns set. Once
  the flag is raised the spawn pass only counts the wave timer, the flag stays raised, and
  the enemies, crystals and crates of every later state are sub-lists of those present:
  nothing is added to these registries. From the initial state of a session, every run of
  ticks leaves at most one boss among the enemies.
\<close>

theorem crystal_count_and_boss:
  "crystalsCollected g \<le> crystalsCollected (update li inp g) \<and>
   crystalsCollected g \<le> crystalsCollected (frames li inps g) \<and>
   CRYSTALS_TO_BOSS li = 10 + levelOr1 li * 2 \<and>
   (li = Some l \<and> levelNumber l \<noteq> 0 \<longrightarrow> levelOr1 li = levelNumber l) \<and>
   (\<not> bossSpawned g \<and> int (crystalsCollected g) < CRYSTALS_TO_BOSS li \<longrightarrow>
      \<not> bossSpawned (spawnPass li g) \<and>
      filter (\<lambda>e. etype e = T_boss) (enemies (spawnPass li g)) =
        filter (\<lambda>e. etype e = T_boss) (enemies g)) \<and>
   (\<not> bossSpawned g \<and> int (crystalsCollected g) \<ge> CRYSTALS_TO_BOSS li \<longrightarrow>
      bossSpawned (spawnPass li g) \<and>
      (\<exists>regular boss.
         enemies (spawnPass li g) = enemies g @ regular @ [boss] \<and>
         (\<forall>e\<in>set regular. etype e = T_enemy) \<and>
         etype boss = T_boss \<and> enemyType boss = Boss \<and> ident boss = Str ''boss'' \<and>
         hp boss = 1500 * of_int (levelOr1 li) \<and> maxHp boss = 1500 * of_int (levelOr1 li) \<and>
         \<not> dead boss \<and> scale (visuals boss) = 2 \<and> hasArmor (visuals boss) \<and>
         hasHorns (visuals boss))) \<and>
   (\<not> bossSpawned g \<and> (\<exists>p\<in>set (players g). \<not> dead p) \<longrightarrow>
      update li inp g =
        passes li inp (filter (\<lambda>i. \<not> dead (players g ! i)) [0 ..< length (players g)]) g \<and>
      (bossSpawned (update li inp g) \<longleftrightarrow> int (crystalsCollected g) \<ge> CRYSTALS_TO_BOSS li)) \<and>
   (bossSpawned g \<longrightarrow>
      spawnPass li g = g\<lparr>waveTimer := waveTimer g + 1\<rparr> \<and>
      bossSpawned (update li inp g) \<and> bossSpawned (frames li inps g) \<and>
      subseq (map ident (enemies (frames li inps g))) (map ident (enemies g)) \<and>
      subseq (crystals (frames li inps g)) (crystals g) \<and>
      subseq (map ident (crates (frames li inps g))) (map ident (crates g))) \<and>
   length (filter (\<lambda>e. etype e = T_boss) (enemies (frames li inps (initGame g0)))) \<le> 1"
proof (intro conjI impI)
  show "crystalsCollected g \<le> crystalsCollected (update li inp g)"
    by (rule update_count)
  show "crystalsCollected g \<le> crystalsCollected (frames li inps g)"
    by (rule frames_count)
  show "CRYSTALS_TO_BOSS li = 10 + levelOr1 li * 2"
    by (simp add: CRYSTALS_TO_BOSS_def)
  show "levelOr1 li = levelNumber l" if "li = Some l \<and> levelNumber l \<noteq> 0"
    using that by (simp add: levelOr1_def)
  show "length (filter (\<lambda>e. etype e = T_boss) (enemies (frames li inps (initGame g0)))) \<le> 1"
    by (rule session_bosses)
next
  assume a: "\<not> bossSpawned g \<and> int (crystalsCollected g) < CRYSTALS_TO_BOSS li"
  then show "\<not> bossSpawned (spawnPass li g)"
    by (simp add: spawnPass_flag)
  from a obtain regular where "\<forall>e\<in>set regular. etype e = T_enemy"
    "enemies (spawnPass li g) = enemies g @ regular"
    using spawnPass_enemies [of g li] by auto
  then show "filter (\<lambda>e. etype e = T_boss) (enemies (spawnPass li g)) =
        filter (\<lambda>e. etype e = T_boss) (enemies g)"
    by (auto simp: filter_empty_conv)
next
  assume a: "\<not> bossSpawned g \<and> CRYSTALS_TO_BOSS li \<le> int (crystalsCollected g)"
  then show "bossSpawned (spawnPass li g)"
    by (simp add: spawnPass_flag)
  from a spawnPass_enemies [of g li]
  show "\<exists>regular boss.
         enemies (spawnPass li g) = enemies g @ regular @ [boss] \<and>
         (\<forall>e\<in>set regular. etype e = T_enemy) \<and>
         etype boss = T_boss \<and> enemyType boss = Boss \<and> ident boss = Str ''boss'' \<and>
         hp boss = 1500 * of_int (levelOr1 li) \<and> maxHp boss = 1500 * of_int (levelOr1 li) \<and>
         \<not> dead boss \<and> scale (visuals boss) = 2 \<and> hasArmor (visuals boss) \<and>
         hasHorns (visuals boss)"
    by blast
next
  assume a: "\<not> bossSpawned g \<and> (\<exists>p\<in>set (players g). \<not> dead p)"
  then show u: "update li inp g =
        passes li inp (filter (\<lambda>i. \<not> dead (players g ! i)) [0 ..< length (players g)]) g"
    using update_runs by blast
  show "bossSpawned (update li inp g) \<longleftrightarrow> int (crystalsCollected g) \<ge> CRYSTALS_TO_BOSS li"
    unfolding u using a by (simp add: passes_flag spawnPass_flag)
next
  assume a: "bossSpawned g"
  then show "spawnPass li g = g\<lparr>waveTimer := waveTimer g + 1\<rparr>"
    by (rule spawnPass_after_boss)
  from a show "bossSpawned (update li inp g)"
    by (rule update_after_boss(1))
  from frames_after_boss [OF a, of li inps]
  show "bossSpawned (frames li inps g)"
    "subseq (map ident (enemies (frames li inps g))) (map ident (enemies g))"
    "subseq (crystals (frames li inps g)) (crystals g)"
    "subseq (map ident (crates (frames li inps g))) (map ident (crates g))"
    by simp_all
qed


theorem crystal_count_and_boss_witness:
  "12 \<le> crystalsCollected (update (Some level1) noKeys readyScene) \<and>
   12 \<le> crystalsCollected (frames (Some level1) [noKeys, fireKeys] readyScene) \<and>
   CRYSTALS_TO_BOSS (Some level1) = 12 \<and>
   \<not> bossSpawned (spawnPass (Some level1) newSession) \<and>
   enemies (spawnPass (Some level1) newSession) = [] \<and>
   bossSpawned (update (Some level1) noKeys readyScene) \<and>
   map ident (enemies (spawnPass (Some level1) readyScene)) = [Str ''boss''] \<and>
   map hp (enemies (spawnPass (Some level1) readyScene)) = [1500] \<and>
   map (\<lambda>e. scale (visuals e)) (enemies (spawnPass (Some level1) readyScene)) = [2] \<and>
   spawnPass (Some level1) (readyScene\<lparr>bossSpawned := True\<rparr>) =
     readyScene\<lparr>bossSpawned := True, waveTimer := 1\<rparr> \<and>
   bossSpawned (frames (Some level1) [noKeys, fireKeys] (readyScene\<lparr>bossSpawned := True\<rparr>))"
proof -
  have l: "levelOr1 (Some level1) = 1" "levelNumber level1 \<noteq> 0"
    by (simp_all add: levelOr1_def level1_def)
  have t: "CRYSTALS_TO_BOSS (Some level1) = 12"
    by (simp add: CRYSTALS_TO_BOSS_def l)
  have r: "\<not> bossSpawned readyScene" "crystalsCollected readyScene = 12"
    "\<exists>p\<in>set (players readyScene). \<not> dead p" "enemies readyScene = []"
    "waveTimer readyScene = 0" "crystals readyScene = []" "crates readyScene = []"
    by (simp_all add: readyScene_def newSession_def initGame_def blankGame_def)
  have n: "\<not> bossSpawned newSession" "crystalsCollected newSession = 0"
    "enemies newSession = []" "waveTimer newSession = 0"
    by (simp_all add: newSession_def initGame_def blankGame_def)
  note A = crystal_count_and_boss [of readyScene "Some level1" noKeys "[noKeys, fireKeys]" level1 blankGame]
  note B = crystal_count_and_boss [of newSession "Some level1" noKeys "[]" level1 blankGame]
  note C = crystal_count_and_boss [of "readyScene\<lparr>bossSpawned := True\<rparr>" "Some level1" noKeys
      "[noKeys, fireKeys]" level1 blankGame]
  have 1: "12 \<le> crystalsCollected (update (Some level1) noKeys readyScene)"
    "12 \<le> crystalsCollected (frames (Some level1) [noKeys, fireKeys] readyScene)"
    using A r(2) by simp_all
  have ge: "int (crystalsCollected readyScene) \<ge> CRYSTALS_TO_BOSS (Some level1)"
    by (simp add: r t)
  have 2: "bossSpawned (update (Some level1) noKeys readyScene)"
    using A r(1,3) ge by blast
  obtain regular boss where b: "enemies (spawnPass (Some level1) readyScene) = enemies readyScene @ regular @ [boss]"
    "ident boss = Str ''boss''" "hp boss = 1500 * of_int (levelOr1 (Some level1))"
    "scale (visuals boss) = 2"
    using A r(1) ge by blast
  have g0: "enemies (spawnPass (Some level1) newSession) = []" "\<not> bossSpawned (spawnPass (Some level1) newSession)"
    by (simp_all add: spawnPass_def Let_def n t)
  have "length (filter (\<lambda>e. etype e = T_boss) (enemies (spawnPass (Some level1) newSession))) = 0"
    using B n t by simp
  have reg: "regular = []"
  proof -
    have "enemies (spawnPass (Some level1) readyScene) =
        enemies (spawnEnemy (Some level1) True (readyScene\<lparr>waveTimer := 1\<rparr>))"
      by (simp add: spawnPass_def Let_def r t)
    then have "length (enemies (spawnPass (Some level1) readyScene)) = 1"
      by (simp add: spawnEnemy_def Let_def advance_def r)
    with b(1) show ?thesis by simp
  qed
  have 3: "map ident (enemies (spawnPass (Some level1) readyScene)) = [Str ''boss'']"
    "map hp (enemies (spawnPass (Some level1) readyScene)) = [1500]"
    "map (\<lambda>e. scale (visuals e)) (enemies (spawnPass (Some level1) readyScene)) = [2]"
    using b reg r(4) l by simp_all
  have 4: "spawnPass (Some level1) (readyScene\<lparr>bossSpawned := True\<rparr>) =
     readyScene\<lparr>bossSpawned := True, waveTimer := 1\<rparr>"
    "bossSpawned (frames (Some level1) [noKeys, fireKeys] (readyScene\<lparr>bossSpawned := True\<rparr>))"
    using C r(5) by (simp_all del: frames.simps)
  from 1 2 3 4 t g0 show ?thesis by blast
qed


subsection \<open>The two checks at the head of update\<close>

lemma update_stops:
  "stopsAtCheck g \<Longrightarrow>
   update li inp g = g\<lparr>events := events g @ [GameOver]\<rparr> \<or>
   update li inp g = g\<lparr>events := events g @ [LevelComplete]\<rparr>"
  by (auto simp: update_def stopsAtCheck_def activeIndices_def Let_def)

lemma update_passes:
  "\<not> stopsAtCheck g \<Longrightarrow> update li inp g = passes li inp (activeIndices g) g"
  by (auto simp: update_def stopsAtCheck_def activeIndices_def Let_def)

subsection \<open>Loops that visit the indices of a registry\<close>

lemma fold_local:
  fixes f :: "nat \<Rightarrow> 's \<Rightarrow> 's" and sel :: "'s \<Rightarrow> 'b list"
  assumes len: "\<And>i s. length (sel (f i s)) = length (sel s)"
    and other: "\<And>i j s. j \<noteq> i \<Longrightarrow> sel (f i s) ! j = sel s ! j"
  shows "length (sel (fold f [0 ..< k] s)) = length (sel s)"
    and "k \<le> j \<Longrightarrow> sel (fold f [0 ..< k] s) ! j = sel s ! j"
    and "j < k \<Longrightarrow> sel (fold f [0 ..< k] s) ! j = sel (f j (fold f [0 ..< j] s)) ! j"
proof -
  show "length (sel (fold f [0 ..< k] s)) = length (sel s)"
    by (induction k) (simp_all add: len)
  show "k \<le> j \<Longrightarrow> sel (fold f [0 ..< k] s) ! j = sel s ! j"
    by (induction k) (simp_all add: other)
  show "j < k \<Longrightarrow> sel (fold f [0 ..< k] s) ! j = sel (f j (fold f [0 ..< j] s)) ! j"
  proof (induction k)
    case 0
    then show ?case by simp
  next
    case (Suc k)
    show ?case
    proof (cases "j = k")
      case True
      then show ?thesis by simp
    next
      case False
      with Suc.prems have "j < k" by simp
      with Suc.IH False show ?thesis by (simp add: other)
    qed
  qed
qed

lemma fold_split_at:
  "i < n \<Longrightarrow> fold f [0 ..< n] s = fold f [Suc i ..< n] (f i (fold f [0 ..< i] s))"
  by (simp add: upt_split_at [of i n])

subsection \<open>The player pass, player by player\<close>

lemma updatePlayer_local:
  "length (players (updatePlayer inp i g)) = length (players g)"
  "j \<noteq> i \<Longrightarrow> players (updatePlayer inp i g) ! j = players g ! j"
  by (simp_all add: updatePlayer_def Let_def split_beta)

lemma playerVisit_keeps:
  "enemies (playerVisit inp i g) = enemies g"
  "length (players (playerVisit inp i g)) = length (players g)"
  "players (playerVisit inp i g) ! i = players g ! i"
proof -
  show "enemies (playerVisit inp i g) = enemies g"
    unfolding playerVisit_def by (rule fold_keeps) simp
  show "length (players (playerVisit inp i g)) = length (players g)"
    unfolding playerVisit_def
    by (rule fold_local(1) [where sel = players]) (simp_all add: updatePlayer_local)
  show "players (playerVisit inp i g) ! i = players g ! i"
    unfolding playerVisit_def
    by (rule fold_local(2) [where sel = players]) (simp_all add: updatePlayer_local)
qed

lemma playerPass_split:
  "i < length (players g) \<Longrightarrow>
   playerPass inp g =
     fold (updatePlayer inp) [Suc i ..< length (players g)] (updatePlayer inp i (playerVisit inp i g))"
  unfolding playerPass_def playerVisit_def by (rule fold_split_at)

lemma playerPass_nth:
  assumes "i < length (players g)"
  shows "players (playerPass inp g) ! i = players (updatePlayer inp i (playerVisit inp i g)) ! i"
    and "length (players (playerPass inp g)) = length (players g)"
proof -
  show "players (playerPass inp g) ! i = players (updatePlayer inp i (playerVisit inp i g)) ! i"
    unfolding playerPass_def playerVisit_def using assms
    by (intro fold_local(3) [where sel = players]) (simp_all add: updatePlayer_local)
  show "length (players (playerPass inp g)) = length (players g)"
    unfolding playerPass_def
    by (rule fold_local(1) [where sel = players]) (simp_all add: updatePlayer_local)
qed

lemma playerPass_rotation:
  assumes "i < length (players g)" "\<not> dead (players g ! i)"
  shows "rotation (players (playerPass inp g) ! i) = rotation (autoAim inp (enemies g) (players g ! i))"
proof -
  define gi where "gi = playerVisit inp i g"
  have k: "enemies gi = enemies g" "length (players gi) = length (players g)"
    "players gi ! i = players g ! i"
    unfolding gi_def by (rule playerVisit_keeps)+
  have "players (playerPass inp g) ! i = players (updatePlayer inp i gi) ! i"
    unfolding gi_def using assms(1) by (rule playerPass_nth(1))
  also have "\<dots> = physics (controls inp (players gi ! i))
             (fst (shooting inp (autoAim inp (enemies gi) (players gi ! i)) gi))"
    using assms k by (intro updatePlayer_alive(1)) simp_all
  finally show ?thesis by (simp add: k)
qed


subsection \<open>The later passes do not turn a player\<close>

lemma spawnPass_frame:
  "players (spawnPass li g) = players g"
  "bullets (spawnPass li g) = bullets g"
  "particles (spawnPass li g) = particles g"
  "pickups (spawnPass li g) = pickups g"
  "camera (spawnPass li g) = camera g"
  "randoms (spawnPass li g) = randoms g"
  "events (spawnPass li g) = events g"
proof -
  define g0 where "g0 = g\<lparr>waveTimer := waveTimer g + 1\<rparr>"
  define c1 where "c1 \<longleftrightarrow> waveTimer g0 mod 120 = 0 \<and> length (enemies g0) < 30"
  define g1 where "g1 = (if c1 then spawnEnemy li False g0 else g0)"
  define c2 where "c2 \<longleftrightarrow> length (crystals g1) < 15 \<and> waveTimer g1 mod 60 = 0"
  define g2 where "g2 = (if c2 then spawnCrystal g1 else g1)"
  define c3 where "c3 \<longleftrightarrow> length (crates g2) < 5 \<and> waveTimer g2 mod 300 = 0"
  define g3 where "g3 = (if c3 then spawnCrate g2 else g2)"
  define c4 where "c4 \<longleftrightarrow> int (crystalsCollected g3) \<ge> CRYSTALS_TO_BOSS li"
  define g4 where "g4 = (if c4 then (spawnEnemy li True g3)\<lparr>bossSpawned := True\<rparr> else g3)"
  have sp: "spawnPass li g = (if \<not> bossSpawned g0 then g4 else g0)"
    unfolding spawnPass_def Let_def g0_def [symmetric] c1_def [symmetric] g1_def [symmetric]
      c2_def [symmetric] g2_def [symmetric] c3_def [symmetric] g3_def [symmetric]
      c4_def [symmetric] g4_def [symmetric]
    by simp
  have e: "\<And>b h. players (spawnEnemy li b h) = players h \<and> bullets (spawnEnemy li b h) = bullets h \<and>
      particles (spawnEnemy li b h) = particles h \<and> pickups (spawnEnemy li b h) = pickups h \<and>
      camera (spawnEnemy li b h) = camera h \<and> randoms (spawnEnemy li b h) = randoms h \<and>
      events (spawnEnemy li b h) = events h"
    by (simp add: spawnEnemy_def Let_def advance_def)
  have c: "\<And>h. players (spawnCrystal h) = players h \<and> bullets (spawnCrystal h) = bullets h \<and>
      particles (spawnCrystal h) = particles h \<and> pickups (spawnCrystal h) = pickups h \<and>
      camera (spawnCrystal h) = camera h \<and> randoms (spawnCrystal h) = randoms h \<and>
      events (spawnCrystal h) = events h"
    by (simp add: spawnCrystal_def Let_def advance_def)
  have k: "\<And>h. players (spawnCrate h) = players h \<and> bullets (spawnCrate h) = bullets h \<and>
      particles (spawnCrate h) = particles h \<and> pickups (spawnCrate h) = pickups h \<and>
      camera (spawnCrate h) = camera h \<and> randoms (spawnCrate h) = randoms h \<and>
      events (spawnCrate h) = events h"
    by (simp add: spawnCrate_def Let_def advance_def)
  have f0: "players g0 = players g" "bullets g0 = bullets g" "particles g0 = particles g"
    "pickups g0 = pickups g" "camera g0 = camera g" "randoms g0 = randoms g" "events g0 = events g"
    by (simp_all add: g0_def)
  have f1: "players g1 = players g" "bullets g1 = bullets g" "particles g1 = particles g"
    "pickups g1 = pickups g" "camera g1 = camera g" "randoms g1 = randoms g" "events g1 = events g"
    using f0 e by (simp_all add: g1_def)
  have f2: "players g2 = players g" "bullets g2 = bullets g" "particles g2 = particles g"
    "pickups g2 = pickups g" "camera g2 = camera g" "randoms g2 = randoms g" "events g2 = events g"
    using f1 c by (simp_all add: g2_def)
  have f3: "players g3 = players g" "bullets g3 = bullets g" "particles g3 = particles g"
    "pickups g3 = pickups g" "camera g3 = camera g" "randoms g3 = randoms g" "events g3 = events g"
    using f2 k by (simp_all add: g3_def)
  have f4: "players g4 = players g" "bullets g4 = bullets g" "particles g4 = particles g"
    "pickups g4 = pickups g" "camera g4 = camera g" "randoms g4 = randoms g" "events g4 = events g"
    using f3 e by (simp_all add: g4_def)
  show "players (spawnPass li g) = players g"
    "bullets (spawnPass li g) = bullets g"
    "particles (spawnPass li g) = particles g"
    "pickups (spawnPass li g) = pickups g"
    "camera (spawnPass li g) = camera g"
    "randoms (spawnPass li g) = randoms g"
    "events (spawnPass li g) = events g"
    unfolding sp using f0 f4 by simp_all
qed

lemma touch_rotations:
  "map rotation (players (touchCrate pidx ci g)) = map rotation (players g)"
  "map rotation (players (touchPickup pidx ki g)) = map rotation (players g)"
  by (simp_all add: touchCrate_def touchPickup_def Let_def map_update)

lemma interact_rotations: "map rotation (players (interact pidx g)) = map rotation (players g)"
proof -
  define g1 where "g1 = fold (touchCrate pidx) [0 ..< length (crates g)] g"
  have 1: "map rotation (players g1) = map rotation (players g)"
    unfolding g1_def
    by (rule fold_keeps [where P = "\<lambda>s. map rotation (players s)"]) (rule touch_rotations)
  have "map rotation (players (fold (touchPickup pidx) [0 ..< length (pickups g1)] g1)) =
      map rotation (players g1)"
    by (rule fold_keeps [where P = "\<lambda>s. map rotation (players s)"]) (rule touch_rotations)
  with 1 show ?thesis
    by (simp add: interact_def Let_def g1_def)
qed

lemma interactionPass_rotations:
  "map rotation (players (interactionPass g)) = map rotation (players g)"
proof -
  have "map rotation (players (fold interact (filter (\<lambda>i. \<not> dead (players g ! i)) [0 ..< length (players g)]) g)) =
      map rotation (players g)"
    by (rule fold_keeps [where P = "\<lambda>s. map rotation (players s)"]) (rule interact_rotations)
  then show ?thesis
    by (simp add: interactionPass_def Let_def)
qed

lemma enemyPass_players: "players (enemyPass a g) = players g"
proof -
  have "\<And>i s. players (updateEnemy a i s) = players s"
    by (simp add: updateEnemy_def enemyAttack_def Let_def split_beta split: option.splits)
  then show ?thesis
    unfolding enemyPass_def by (intro fold_keeps)
qed

lemma collectLoop_rotations:
  "map rotation (players (snd (collectLoop c a g))) = map rotation (players g)"
  by (induction a) (simp_all add: Let_def map_update)

lemma crystalFilter_rotations:
  "map rotation (players (snd (crystalFilter a cs g))) = map rotation (players g)"
  by (induction cs arbitrary: g) (simp_all add: Let_def split_beta collectLoop_rotations)

lemma crystalPass_rotations:
  "map rotation (players (crystalPass a g)) = map rotation (players g)"
  by (simp add: crystalPass_def Let_def split_beta crystalFilter_rotations)

lemma scoreAll_rotations: "map rotation (players (scoreAll a g)) = map rotation (players g)"
  by (induction a arbitrary: g) (simp_all add: scoreAll_simps map_update)

lemma enemyTargetLoop_rotations:
  "map rotation (players (snd (enemyTargetLoop a ts b g))) = map rotation (players g)"
  by (induction ts) (simp_all add: Let_def scoreAll_rotations)

lemma playerTargetLoop_rotations:
  "map rotation (players (snd (playerTargetLoop a ts b g))) = map rotation (players g)"
  by (induction ts) (simp_all add: Let_def scoreAll_rotations map_update)

lemma entityCollision_rotations:
  "map rotation (players (snd (entityCollision a b g))) = map rotation (players g)"
  by (simp add: entityCollision_def Let_def split_beta enemyTargetLoop_rotations
      playerTargetLoop_rotations)

lemma updateBullet_rotations:
  "map rotation (players (updateBullet a env bi g)) = map rotation (players g)"
  by (simp add: updateBullet_def Let_def split_beta entityCollision_rotations)

lemma bulletPass_rotations:
  "map rotation (players (bulletPass inp a g)) = map rotation (players g)"
proof -
  have "\<And>env. map rotation (players (fold (updateBullet a env) [0 ..< length (bullets g)] g)) =
      map rotation (players g)"
    by (rule fold_keeps [where P = "\<lambda>s. map rotation (players s)"]) (rule updateBullet_rotations)
  then show ?thesis
    by (simp add: bulletPass_def Let_def)
qed

lemma tail_players:
  "players (particlePass g) = players g" "players (cameraFollow g) = players g"
  by (simp_all add: particlePass_def cameraFollow_def Let_def)

lemma passes_rotations:
  "map rotation (players (passes li inp a g)) =
   map rotation (players (playerPass inp (spawnPass li g)))"
  by (simp add: passes_def tail_players bulletPass_rotations crystalPass_rotations
      enemyPass_players interactionPass_rotations)

lemma passes_rotation:
  assumes "i < length (players g)" "\<not> dead (players g ! i)"
  shows "rotation (players (passes li inp a g) ! i) =
         rotation (autoAim inp (enemies (spawnPass li g)) (players g ! i))"
proof -
  define g1 where "g1 = spawnPass li g"
  have p: "players g1 = players g"
    unfolding g1_def by (rule spawnPass_frame)
  have len: "length (players (playerPass inp g1)) = length (players g)"
    using playerPass_nth(2) [of i g1 inp] assms(1) p by simp
  have m: "map rotation (players (passes li inp a g)) = map rotation (players (playerPass inp g1))"
    unfolding g1_def by (rule passes_rotations)
  then have "length (players (passes li inp a g)) = length (players g)"
    using len by (metis length_map)
  with assms(1) have "rotation (players (passes li inp a g) ! i) =
      map rotation (players (passes li inp a g)) ! i"
    by simp
  also have "\<dots> = rotation (players (playerPass inp g1) ! i)"
    unfolding m using assms(1) len by simp
  also have "\<dots> = rotation (autoAim inp (enemies g1) (players g1 ! i))"
    using assms p by (intro playerPass_rotation) simp_all
  also have "\<dots> = rotation (autoAim inp (enemies g1) (players g ! i))"
    by (simp only: p)
  finally show ?thesis unfolding g1_def .
qed


subsection \<open>The rotation of a player over a tick\<close>

text \<open>
  Claim C10, as the code has it. A tick that ends at the defeat or the victory check
  leaves every player as it was. In every other tick, for each living player: the player
  loop reaches the player where the tick's start had it, with the enemies that the spawn
  policy of the tick has left. If one of these enemies is closer than 1200, the rotation
  the player has at the end of the tick is the angle towards an enemy that is closer than
  1200 and at least as close as every other enemy; otherwise it is the direction of the
  movement force when that is not zero, and the rotation of the tick's start when it is
  zero. The shot of the tick is decided and fired from the player so rotated.
\<close>

theorem auto_aim_before_shot:
  "(stopsAtCheck g \<longrightarrow> players (update li inp g) = players g) \<and>
   (\<not> stopsAtCheck g \<and> i < length (players g) \<and> \<not> dead (players g ! i) \<longrightarrow>
      update li inp g = passes li inp (activeIndices g) g \<and>
      playerPass inp (spawnPass li g) =
        fold (updatePlayer inp) [Suc i ..< length (players g)]
          (updatePlayer inp i (playerVisit inp i (spawnPass li g))) \<and>
      players (playerVisit inp i (spawnPass li g)) ! i = players g ! i \<and>
      enemies (playerVisit inp i (spawnPass li g)) = enemies (spawnPass li g) \<and>
      bullets (updatePlayer inp i (playerVisit inp i (spawnPass li g))) =
        bullets (snd (shooting inp (autoAim inp (enemies (spawnPass li g)) (players g ! i))
                        (playerVisit inp i (spawnPass li g)))) \<and>
      rotation (players (update li inp g) ! i) =
        rotation (autoAim inp (enemies (spawnPass li g)) (players g ! i)) \<and>
      ((\<exists>e\<in>set (enemies (spawnPass li g)).
          hypot (xc (pos e) - xc (pos (players g ! i))) (yc (pos e) - yc (pos (players g ! i))) < 1200) \<longrightarrow>
       (\<exists>e\<in>set (enemies (spawnPass li g)).
          hypot (xc (pos e) - xc (pos (players g ! i))) (yc (pos e) - yc (pos (players g ! i))) < 1200 \<and>
          (\<forall>e'\<in>set (enemies (spawnPass li g)).
              hypot (xc (pos e) - xc (pos (players g ! i))) (yc (pos e) - yc (pos (players g ! i)))
                \<le> hypot (xc (pos e') - xc (pos (players g ! i))) (yc (pos e') - yc (pos (players g ! i)))) \<and>
          rotation (players (update li inp g) ! i) =
            atan2 (yc (pos e) - yc (pos (players g ! i))) (xc (pos e) - xc (pos (players g ! i))))) \<and>
      ((\<forall>e\<in>set (enemies (spawnPass li g)).
          \<not> hypot (xc (pos e) - xc (pos (players g ! i))) (yc (pos e) - yc (pos (players g ! i))) < 1200) \<longrightarrow>
       rotation (players (update li inp g) ! i) =
         (if \<bar>xc (controls inp (players g ! i))\<bar> > 0 \<or> \<bar>yc (controls inp (players g ! i))\<bar> > 0
          then atan2 (yc (controls inp (players g ! i))) (xc (controls inp (players g ! i)))
          else rotation (players g ! i))))"
proof (intro conjI impI)
  assume "stopsAtCheck g"
  from update_stops [OF this, of li inp]
  show "players (update li inp g) = players g" by auto
next
  assume h: "\<not> stopsAtCheck g \<and> i < length (players g) \<and> \<not> dead (players g ! i)"
  define g1 where "g1 = spawnPass li g"
  define gi where "gi = playerVisit inp i g1"
  define p where "p = players g ! i"
  have p1: "players g1 = players g"
    unfolding g1_def by (rule spawnPass_frame)
  have k: "enemies gi = enemies g1" "length (players gi) = length (players g)"
    "players gi ! i = p"
    unfolding gi_def p_def using playerVisit_keeps [of inp i g1] by (simp_all add: p1)
  show u: "update li inp g = passes li inp (activeIndices g) g"
    using h by (intro update_passes) simp
  show "playerPass inp g1 =
      fold (updatePlayer inp) [Suc i ..< length (players g)] (updatePlayer inp i gi)"
    unfolding gi_def using h playerPass_split [of i g1 inp] by (simp add: p1)
  show "players gi ! i = p" by (rule k)
  show "enemies gi = enemies g1" by (rule k)
  show "bullets (updatePlayer inp i gi) = bullets (snd (shooting inp (autoAim inp (enemies g1) p) gi))"
    using updatePlayer_alive(2) [of i gi inp] h k by (simp add: p_def)
  show r: "rotation (players (update li inp g) ! i) = rotation (autoAim inp (enemies g1) p)"
    unfolding u g1_def p_def using h by (intro passes_rotation) simp_all
  {
    assume "\<exists>e\<in>set (enemies g1). hypot (xc (pos e) - xc (pos p)) (yc (pos e) - yc (pos p)) < 1200"
    from autoAim_some [OF this, of inp]
    show "\<exists>e\<in>set (enemies g1).
          hypot (xc (pos e) - xc (pos p)) (yc (pos e) - yc (pos p)) < 1200 \<and>
          (\<forall>e'\<in>set (enemies g1).
              hypot (xc (pos e) - xc (pos p)) (yc (pos e) - yc (pos p))
                \<le> hypot (xc (pos e') - xc (pos p)) (yc (pos e') - yc (pos p))) \<and>
          rotation (players (update li inp g) ! i) =
            atan2 (yc (pos e) - yc (pos p)) (xc (pos e) - xc (pos p))"
      unfolding r by force
  }
  {
    assume "\<forall>e\<in>set (enemies g1). \<not> hypot (xc (pos e) - xc (pos p)) (yc (pos e) - yc (pos p)) < 1200"
    from autoAim_none [OF this, of inp]
    show "rotation (players (update li inp g) ! i) =
         (if \<bar>xc (controls inp p)\<bar> > 0 \<or> \<bar>yc (controls inp p)\<bar> > 0
          then atan2 (yc (controls inp p)) (xc (controls inp p))
          else rotation p)"
      unfolding r by simp
  }
qed


theorem auto_aim_before_shot_witness:
  "rotation (players (update None noKeys aimScene) ! 0) = pi / 2 \<and>
   rotation (players (update None downKey newSession) ! 0) = pi / 2 \<and>
   rotation (players (update None noKeys newSession) ! 0) = 0 \<and>
   players (update None noKeys allDead) = players allDead \<and>
   players (update None noKeys victoryScene) = players victoryScene"
proof -
  have a: "0 < length (players aimScene)" "\<not> dead (players aimScene ! 0)"
    "pos (players aimScene ! 0) = \<lparr>xc = - 50, yc = 0\<rparr>"
    "enemies aimScene = [walkerAt \<lparr>xc = - 50, yc = 100\<rparr>]"
    "\<not> bossSpawned aimScene" "waveTimer aimScene = 0" "crystalsCollected aimScene = 0"
    "crystals aimScene = []" "crates aimScene = []"
    by (simp_all add: aimScene_def newSession_def initGame_def blankGame_def)
  have n: "0 < length (players newSession)" "\<not> dead (players newSession ! 0)"
    "enemies newSession = []" "role (players newSession ! 0) = Boy"
    "rotation (players newSession ! 0) = 0"
    "\<not> bossSpawned newSession" "waveTimer newSession = 0" "crystalsCollected newSession = 0"
    "crystals newSession = []" "crates newSession = []"
    by (simp_all add: newSession_def initGame_def blankGame_def)
  have t: "CRYSTALS_TO_BOSS None = 12"
    by (simp add: CRYSTALS_TO_BOSS_def levelOr1_def)
  have w: "pos (walkerAt \<lparr>xc = - 50, yc = 100\<rparr>) = \<lparr>xc = - 50, yc = 100\<rparr>"
    by (simp add: walkerAt_def)
  have ra: "\<not> stopsAtCheck aimScene"
    by (simp add: stopsAtCheck_def activeIndices_def aimScene_def newSession_def initGame_def
        blankGame_def)
  have rn: "\<not> stopsAtCheck newSession"
    by (simp add: stopsAtCheck_def activeIndices_def newSession_def initGame_def blankGame_def)
  have sa: "enemies (spawnPass None aimScene) = [walkerAt \<lparr>xc = - 50, yc = 100\<rparr>]"
    by (simp add: spawnPass_def Let_def a t)
  have sn: "enemies (spawnPass None newSession) = []"
    by (simp add: spawnPass_def Let_def n t)
  have sd: "stopsAtCheck allDead"
    by (simp add: stopsAtCheck_def activeIndices_def allDead_def newSession_def initGame_def
        blankGame_def)
  have sv: "stopsAtCheck victoryScene"
    by (simp add: stopsAtCheck_def victoryScene_def a walkerAt_def)
  have 1: "rotation (players (update None noKeys aimScene) ! 0) = pi / 2"
  proof -
    from auto_aim_before_shot [of aimScene None noKeys 0] ra a(1,2)
    have "rotation (players (update None noKeys aimScene) ! 0) =
        rotation (autoAim noKeys (enemies (spawnPass None aimScene)) (players aimScene ! 0))"
      by blast
    then show ?thesis
      by (simp add: sa autoAim_def Let_def a(3) w hypot_0_100 atan2_def)
  qed
  have 2: "rotation (players (update None downKey newSession) ! 0) = pi / 2"
  proof -
    from auto_aim_before_shot [of newSession None downKey 0] rn n(1,2)
    have "rotation (players (update None downKey newSession) ! 0) =
        rotation (autoAim downKey (enemies (spawnPass None newSession)) (players newSession ! 0))"
      by blast
    then show ?thesis
      by (simp add: sn autoAim_def n(4,5) controls_def downKey_def ACCELERATION_def atan2_def Let_def)
  qed
  have 3: "rotation (players (update None noKeys newSession) ! 0) = 0"
  proof -
    from auto_aim_before_shot [of newSession None noKeys 0] rn n(1,2)
    have "rotation (players (update None noKeys newSession) ! 0) =
        rotation (autoAim noKeys (enemies (spawnPass None newSession)) (players newSession ! 0))"
      by blast
    then show ?thesis
      by (simp add: sn autoAim_def n(4,5) controls_def noKeys_def Let_def)
  qed
  have 4: "players (update None noKeys allDead) = players allDead"
    using auto_aim_before_shot [of allDead None noKeys 0] sd by simp
  have 5: "players (update None noKeys victoryScene) = players victoryScene"
    using auto_aim_before_shot [of victoryScene None noKeys 0] sv by simp
  from 1 2 3 4 5 show ?thesis by simp
qed

text \<open>
  The words "in every tick" of C10 do not hold of a tick that ends at the victory check:
  the boss has been spawned and is gone, a walker is left 100 units below the living boy,
  and the boy's rotation stays 0, while the angle towards the walker is a quarter turn.
\<close>

theorem victory_tick_no_aim_counterexample:
  "dead (players victoryScene ! 0) = False \<and>
   hypot (xc (pos (enemies victoryScene ! 0)) - xc (pos (players victoryScene ! 0)))
         (yc (pos (enemies victoryScene ! 0)) - yc (pos (players victoryScene ! 0))) = 100 \<and>
   atan2 (yc (pos (enemies victoryScene ! 0)) - yc (pos (players victoryScene ! 0)))
         (xc (pos (enemies victoryScene ! 0)) - xc (pos (players victoryScene ! 0))) = pi / 2 \<and>
   rotation (players (update None noKeys victoryScene) ! 0) = 0"
  by (simp add: victoryScene_def aimScene_def newSession_def initGame_def blankGame_def
      walkerAt_def update_def hypot_0_100 atan2_def)


subsection \<open>The loops of the bullet pass: a hit or a miss\<close>

lemma over_indices:
  "(\<exists>i\<in>set [0 ..< length xs]. P (xs ! i)) \<longleftrightarrow> (\<exists>x\<in>set xs. P x)"
proof
  assume "\<exists>i\<in>set [0 ..< length xs]. P (xs ! i)"
  then obtain i where "i < length xs" "P (xs ! i)" by auto
  then show "\<exists>x\<in>set xs. P x" using nth_mem by blast
next
  assume "\<exists>x\<in>set xs. P x"
  then obtain i where "i < length xs" "P (xs ! i)" by (auto simp: in_set_conv_nth)
  then show "\<exists>i\<in>set [0 ..< length xs]. P (xs ! i)" by auto
qed

lemma wallLoop_lifeTime:
  "lifeTime (fst (wallLoop envs b g)) = (if hitsWall envs b then 0 else lifeTime b)"
  by (induction envs) (auto simp: hitsWall_def)

lemma wallLoop_noHit: "\<not> hitsWall envs b \<Longrightarrow> wallLoop envs b g = (b, g)"
  by (rule wallLoop_miss) (simp add: hitsWall_def)

lemma crateLoop_noHit:
  "\<forall>ci\<in>set cs. \<not> touches b (crates g ! ci) \<Longrightarrow> crateLoop cs b g = (b, g)"
  by (induction cs) (auto simp: touches_def Let_def)

lemma crateLoop_hit:
  "\<exists>ci\<in>set cs. touches b (crates g ! ci) \<Longrightarrow> lifeTime (fst (crateLoop cs b g)) = 0"
proof (induction cs)
  case Nil
  then show ?case by simp
next
  case (Cons ci cs)
  show ?case
  proof (cases "touches b (crates g ! ci)")
    case True
    then show ?thesis by (simp add: touches_def Let_def split_beta)
  next
    case False
    with Cons.prems have "\<exists>ci\<in>set cs. touches b (crates g ! ci)" by simp
    from Cons.IH [OF this] False show ?thesis
      by (auto simp: touches_def Let_def)
  qed
qed

lemma enemyTargetLoop_noHit:
  "\<forall>ti\<in>set ts. \<not> touches b (enemies g ! ti) \<Longrightarrow> enemyTargetLoop a ts b g = (b, g)"
  by (induction ts) (auto simp: touches_def Let_def)

lemma enemyTargetLoop_hit:
  "\<exists>ti\<in>set ts. touches b (enemies g ! ti) \<Longrightarrow> lifeTime (fst (enemyTargetLoop a ts b g)) = 0"
proof (induction ts)
  case Nil
  then show ?case by simp
next
  case (Cons ti ts)
  show ?case
  proof (cases "touches b (enemies g ! ti)")
    case True
    then show ?thesis by (simp add: touches_def Let_def)
  next
    case False
    with Cons.prems have "\<exists>ti\<in>set ts. touches b (enemies g ! ti)" by simp
    from Cons.IH [OF this] False show ?thesis
      by (auto simp: touches_def Let_def)
  qed
qed

lemma playerTargetLoop_noHit:
  "\<forall>ti\<in>set ts. \<not> touches b (players g ! ti) \<Longrightarrow> playerTargetLoop a ts b g = (b, g)"
  by (induction ts) (auto simp: touches_def Let_def)

lemma playerTargetLoop_hit:
  "\<exists>ti\<in>set ts. touches b (players g ! ti) \<Longrightarrow> lifeTime (fst (playerTargetLoop a ts b g)) = 0"
proof (induction ts)
  case Nil
  then show ?case by simp
next
  case (Cons ti ts)
  show ?case
  proof (cases "touches b (players g ! ti)")
    case True
    then show ?thesis by (simp add: touches_def Let_def)
  next
    case False
    with Cons.prems have "\<exists>ti\<in>set ts. touches b (players g ! ti)" by simp
    from Cons.IH [OF this] False show ?thesis
      by (auto simp: touches_def Let_def)
  qed
qed

lemma entityCollision_lifeTime:
  assumes "0 < lifeTime b"
  shows "lifeTime (fst (entityCollision a b g)) = (if hitsEntity b g then 0 else lifeTime b)"
proof (cases "startsWith_p (ownerId b)")
  case own: True
  show ?thesis
  proof (cases "\<exists>c\<in>set (crates g). touches b c")
    case True
    then have "\<exists>ci\<in>set [0 ..< length (crates g)]. touches b (crates g ! ci)"
      by (simp only: over_indices)
    then have "lifeTime (fst (crateLoop [0 ..< length (crates g)] b g)) = 0"
      by (rule crateLoop_hit)
    with own True show ?thesis
      by (simp add: entityCollision_def Let_def split_beta hitsEntity_def)
  next
    case False
    then have "\<forall>ci\<in>set [0 ..< length (crates g)]. \<not> touches b (crates g ! ci)"
      using over_indices [of "crates g" "touches b"] by blast
    then have c: "crateLoop [0 ..< length (crates g)] b g = (b, g)"
      by (rule crateLoop_noHit)
    have e: "entityCollision a b g = enemyTargetLoop a [0 ..< length (enemies g)] b g"
      using own assms by (simp add: entityCollision_def Let_def c)
    show ?thesis
    proof (cases "\<exists>e\<in>set (enemies g). touches b e")
      case True
      then have "\<exists>ti\<in>set [0 ..< length (enemies g)]. touches b (enemies g ! ti)"
        by (simp only: over_indices)
      then have "lifeTime (fst (enemyTargetLoop a [0 ..< length (enemies g)] b g)) = 0"
        by (rule enemyTargetLoop_hit)
      with own True show ?thesis
        by (simp add: e hitsEntity_def)
    next
      case no: False
      then have "\<forall>ti\<in>set [0 ..< length (enemies g)]. \<not> touches b (enemies g ! ti)"
        using over_indices [of "enemies g" "touches b"] by blast
      then have "enemyTargetLoop a [0 ..< length (enemies g)] b g = (b, g)"
        by (rule enemyTargetLoop_noHit)
      with own False no show ?thesis
        by (simp add: e hitsEntity_def)
    qed
  qed
next
  case other: False
  have e: "entityCollision a b g = playerTargetLoop a [0 ..< length (players g)] b g"
    using other assms by (simp add: entityCollision_def Let_def)
  show ?thesis
  proof (cases "\<exists>p\<in>set (players g). touches b p")
    case True
    then have "\<exists>ti\<in>set [0 ..< length (players g)]. touches b (players g ! ti)"
      by (simp only: over_indices)
    then have "lifeTime (fst (playerTargetLoop a [0 ..< length (players g)] b g)) = 0"
      by (rule playerTargetLoop_hit)
    with other True show ?thesis
      by (simp add: e hitsEntity_def)
  next
    case False
    then have "\<forall>ti\<in>set [0 ..< length (players g)]. \<not> touches b (players g ! ti)"
      using over_indices [of "players g" "touches b"] by blast
    then have "playerTargetLoop a [0 ..< length (players g)] b g = (b, g)"
      by (rule playerTargetLoop_noHit)
    with other False show ?thesis
      by (simp add: e hitsEntity_def)
  qed
qed

text \<open>One visit of the bullet loop: what it leaves of the lifetime.\<close>

lemma updateBullet_local:
  "length (bullets (updateBullet a env bi g)) = length (bullets g)"
  "j \<noteq> bi \<Longrightarrow> bullets (updateBullet a env bi g) ! j = bullets g ! j"
  using updateBullet_bullets [of a env bi g] by auto

lemma updateBullet_lifeTime:
  assumes "bi < length (bullets g)"
  shows "lifeTime (bullets (updateBullet a env bi g) ! bi) =
           (if hitsWall env (moved g bi) \<or> 0 < lifeTime (moved g bi) \<and> hitsEntity (moved g bi) g
            then 0 else lifeTime (bullets g ! bi) - 1)"
    and "id_b (bullets (updateBullet a env bi g) ! bi) = id_b (bullets g ! bi)"
proof -
  define b1 where "b1 = moved g bi"
  define b2 where "b2 = fst (wallLoop env b1 g)"
  define g2 where "g2 = snd (wallLoop env b1 g)"
  define b3 where "b3 = (if lifeTime b2 \<le> 0 then b2 else fst (entityCollision a b2 g2))"
  have u: "bullets (updateBullet a env bi g) = (bullets g)[bi := b3]"
    by (simp add: updateBullet_def Let_def split_beta b1_def b2_def g2_def b3_def moved_def)
  have n: "bullets (updateBullet a env bi g) ! bi = b3"
    using assms by (simp add: u)
  have l1: "lifeTime b1 = lifeTime (bullets g ! bi) - 1" "id_b b1 = id_b (bullets g ! bi)"
    by (simp_all add: b1_def moved_def)
  have l2: "lifeTime b2 = (if hitsWall env b1 then 0 else lifeTime b1)"
    unfolding b2_def by (rule wallLoop_lifeTime)
  show "lifeTime (bullets (updateBullet a env bi g) ! bi) =
           (if hitsWall env (moved g bi) \<or> 0 < lifeTime (moved g bi) \<and> hitsEntity (moved g bi) g
            then 0 else lifeTime (bullets g ! bi) - 1)"
  proof (cases "hitsWall env b1")
    case True
    then show ?thesis
      unfolding n b1_def [symmetric] by (simp add: b3_def l2)
  next
    case False
    then have w: "b2 = b1" "g2 = g"
      by (simp_all add: b2_def g2_def wallLoop_noHit)
    show ?thesis
    proof (cases "0 < lifeTime b1")
      case True
      then show ?thesis
        unfolding n b1_def [symmetric] using False l1
        by (simp add: b3_def w entityCollision_lifeTime)
    next
      case no: False
      then show ?thesis
        unfolding n b1_def [symmetric] using False l1
        by (simp add: b3_def w)
    qed
  qed
  have "b2 = b1 \<or> b2 = b1\<lparr>lifeTime := 0\<rparr>"
    unfolding b2_def by (rule wallLoop_bullet)
  moreover have "b3 = b2 \<or> b3 = b2\<lparr>lifeTime := 0\<rparr>"
    unfolding b3_def using entityCollision_bullet [of a b2 g2] by auto
  ultimately show "id_b (bullets (updateBullet a env bi g) ! bi) = id_b (bullets g ! bi)"
    unfolding n using l1 by auto
qed


subsection \<open>The registry of bullets before the bullet pass\<close>

lemma fold_prefix:
  "(\<And>x s. prefix (P s) (P (f x s))) \<Longrightarrow> prefix (P s) (P (fold f xs s))"
proof (induction xs arbitrary: s)
  case Nil
  then show ?case by simp
next
  case (Cons x xs)
  have "prefix (P s) (P (f x s))"
    using Cons.prems by blast
  also have "prefix (P (f x s)) (P (fold f xs (f x s)))"
    using Cons by blast
  finally show ?case by simp
qed

lemma spawnBullet_prefix: "prefix (bullets g) (bullets (spawnBullet p v owner bt g))"
  by (simp add: spawnBullet_bullets)

lemma fold_spawnBullet_prefix:
  "prefix (bullets g) (bullets (fold (\<lambda>i. spawnBullet (pf i) (vf i) (ow i) (bt i)) xs g))"
  by (rule fold_prefix) (rule spawnBullet_prefix)

lemma fireWeapon_prefix: "prefix (bullets g) (bullets (snd (fireWeapon p g)))"
proof -
  have a: "\<And>q v owner bt n. prefix (bullets g) (bullets (spawnBullet q v owner bt (advance n g)))"
    using spawnBullet_prefix [of "advance _ g"] by simp
  show ?thesis
    by (simp add: fireWeapon_def Let_def spawnBullet_prefix fold_spawnBullet_prefix a
        del: upto_rec_numeral)
qed

lemma updatePlayer_prefix: "prefix (bullets g) (bullets (updatePlayer inp i g))"
  by (simp add: updatePlayer_def shooting_def Let_def split_beta fireWeapon_prefix)

lemma playerPass_prefix: "prefix (bullets g) (bullets (playerPass inp g))"
  unfolding playerPass_def by (rule fold_prefix) (rule updatePlayer_prefix)

lemma interact_bullets: "bullets (interact pidx g) = bullets g"
proof -
  have c: "\<And>ci s. bullets (touchCrate pidx ci s) = bullets s"
    by (simp add: touchCrate_def Let_def)
  have k: "\<And>ki s. bullets (touchPickup pidx ki s) = bullets s"
    by (simp add: touchPickup_def Let_def)
  show ?thesis
    unfolding interact_def Let_def
    by (simp add: fold_keeps [where P = bullets, OF c] fold_keeps [where P = bullets, OF k])
qed

lemma interactionPass_bullets: "bullets (interactionPass g) = bullets g"
  by (simp add: interactionPass_def Let_def fold_keeps [where P = bullets, OF interact_bullets])

lemma enemyAttack_prefix: "prefix (bullets g) (bullets (snd (enemyAttack e t d g)))"
  by (simp add: enemyAttack_def Let_def split_beta spawnBullet_prefix fold_spawnBullet_prefix)

lemma updateEnemy_prefix: "prefix (bullets g) (bullets (updateEnemy a i g))"
  by (simp add: updateEnemy_def Let_def split_beta enemyAttack_prefix split: option.splits)

lemma enemyPass_prefix: "prefix (bullets g) (bullets (enemyPass a g))"
  unfolding enemyPass_def by (rule fold_prefix) (rule updateEnemy_prefix)

lemma collectLoop_bullets: "bullets (snd (collectLoop c a g)) = bullets g"
  by (induction a) (simp_all add: Let_def)

lemma crystalFilter_bullets: "bullets (snd (crystalFilter a cs g)) = bullets g"
  by (induction cs arbitrary: g) (simp_all add: Let_def split_beta collectLoop_bullets)

lemma crystalPass_bullets: "bullets (crystalPass a g) = bullets g"
  by (simp add: crystalPass_def Let_def split_beta crystalFilter_bullets)

lemma bulletPassStart_prefix: "prefix (bullets g) (bullets (bulletPassStart li inp g))"
proof -
  have "prefix (bullets g) (bullets (playerPass inp (spawnPass li g)))"
    using playerPass_prefix [of "spawnPass li g" inp] by (simp add: spawnPass_frame)
  also have "prefix \<dots> (bullets (enemyPass (activeIndices g) (interactionPass (playerPass inp (spawnPass li g)))))"
    using enemyPass_prefix [of "interactionPass (playerPass inp (spawnPass li g))"]
    by (simp add: interactionPass_bullets)
  finally show ?thesis
    by (simp add: bulletPassStart_def crystalPass_bullets)
qed

subsection \<open>One visit of the bullet loop hurts at most one entity of a registry\<close>

lemma same_as_update: "\<exists>k v. xs = xs[k := v]"
  by (metis list_update_beyond order_refl)

lemma scoreAll_hps: "map hp (players (scoreAll a g)) = map hp (players g)"
  by (induction a arbitrary: g) (simp_all add: scoreAll_simps map_update)

lemma crateLoop_one:
  "\<exists>k v. map hp (crates (snd (crateLoop cs b g))) = (map hp (crates g))[k := v]"
proof (induction cs)
  case Nil
  then show ?case by (simp add: same_as_update)
next
  case (Cons ci cs)
  show ?case
  proof (cases "touches b (crates g ! ci)")
    case True
    then have "map hp (crates (snd (crateLoop (ci # cs) b g))) =
        (map hp (crates g))[ci := hp (crates g ! ci) - damage b]"
      by (simp add: touches_def Let_def split_beta map_update)
    then show ?thesis by blast
  next
    case False
    then have "crateLoop (ci # cs) b g = crateLoop cs b g"
      by (auto simp: touches_def Let_def)
    with Cons.IH show ?thesis by simp
  qed
qed

lemma enemyTargetLoop_one:
  "\<exists>k v. map hp (enemies (snd (enemyTargetLoop a ts b g))) = (map hp (enemies g))[k := v]"
proof (induction ts)
  case Nil
  then show ?case by (simp add: same_as_update)
next
  case (Cons ti ts)
  show ?case
  proof (cases "touches b (enemies g ! ti)")
    case True
    then have "map hp (enemies (snd (enemyTargetLoop a (ti # ts) b g))) =
        (map hp (enemies g))[ti := hp (enemies g ! ti) - damage b]"
      by (simp add: touches_def Let_def map_update)
    then show ?thesis by blast
  next
    case False
    then have "enemyTargetLoop a (ti # ts) b g = enemyTargetLoop a ts b g"
      by (auto simp: touches_def Let_def)
    with Cons.IH show ?thesis by simp
  qed
qed

lemma enemyTargetLoop_hps:
  "map hp (players (snd (enemyTargetLoop a ts b g))) = map hp (players g)"
  by (induction ts) (simp_all add: Let_def scoreAll_hps)

lemma playerTargetLoop_one:
  "\<exists>k v. map hp (players (snd (playerTargetLoop a ts b g))) = (map hp (players g))[k := v]"
proof (induction ts)
  case Nil
  then show ?case by (simp add: same_as_update)
next
  case (Cons ti ts)
  show ?case
  proof (cases "touches b (players g ! ti)")
    case True
    then have "map hp (players (snd (playerTargetLoop a (ti # ts) b g))) =
        (map hp (players g))[ti := hp (players g ! ti) - damage b]"
      by (simp add: touches_def Let_def map_update scoreAll_hps)
    then show ?thesis by blast
  next
    case False
    then have "playerTargetLoop a (ti # ts) b g = playerTargetLoop a ts b g"
      by (auto simp: touches_def Let_def)
    with Cons.IH show ?thesis by simp
  qed
qed

lemma entityCollision_one:
  "\<exists>k v. map hp (crates (snd (entityCollision a b g))) = (map hp (crates g))[k := v]"
  "\<exists>k v. map hp (enemies (snd (entityCollision a b g))) = (map hp (enemies g))[k := v]"
  "\<exists>k v. map hp (players (snd (entityCollision a b g))) = (map hp (players g))[k := v]"
proof -
  define cs where "cs = (if startsWith_p (ownerId b) then [0 ..< length (crates g)] else [])"
  define b1 where "b1 = fst (crateLoop cs b g)"
  define g1 where "g1 = snd (crateLoop cs b g)"
  have e: "entityCollision a b g =
      (if lifeTime b1 > 0
       then (if startsWith_p (ownerId b)
             then enemyTargetLoop a [0 ..< length (enemies g1)] b1 g1
             else playerTargetLoop a [0 ..< length (players g1)] b1 g1)
       else (b1, g1))"
    by (simp add: entityCollision_def Let_def split_beta cs_def b1_def g1_def)
  have k: "enemies g1 = enemies g" "players g1 = players g"
    by (simp_all add: g1_def)
  have c: "\<exists>k v. map hp (crates g1) = (map hp (crates g))[k := v]"
    unfolding g1_def by (rule crateLoop_one)
  show "\<exists>k v. map hp (crates (snd (entityCollision a b g))) = (map hp (crates g))[k := v]"
    unfolding e using c by simp
  show "\<exists>k v. map hp (enemies (snd (entityCollision a b g))) = (map hp (enemies g))[k := v]"
    unfolding e using enemyTargetLoop_one [of a _ b1 g1] k
    by (auto simp: same_as_update)
  show "\<exists>k v. map hp (players (snd (entityCollision a b g))) = (map hp (players g))[k := v]"
    unfolding e using playerTargetLoop_one [of a _ b1 g1] k
    by (auto simp: same_as_update enemyTargetLoop_hps)
qed

lemma updateBullet_one:
  "\<exists>k v. map hp (crates (updateBullet a env bi g)) = (map hp (crates g))[k := v]"
  "\<exists>k v. map hp (enemies (updateBullet a env bi g)) = (map hp (enemies g))[k := v]"
  "\<exists>k v. map hp (players (updateBullet a env bi g)) = (map hp (players g))[k := v]"
proof -
  define b2 where "b2 = fst (wallLoop env (moved g bi) g)"
  define g2 where "g2 = snd (wallLoop env (moved g bi) g)"
  have u: "updateBullet a env bi g =
      (if lifeTime b2 \<le> 0 then g2\<lparr>bullets := (bullets g2)[bi := b2]\<rparr>
       else (snd (entityCollision a b2 g2))
              \<lparr>bullets := (bullets (snd (entityCollision a b2 g2)))[bi := fst (entityCollision a b2 g2)]\<rparr>)"
    by (simp add: updateBullet_def Let_def split_beta b2_def g2_def moved_def)
  have k: "crates g2 = crates g" "enemies g2 = enemies g" "players g2 = players g"
    by (simp_all add: g2_def)
  show "\<exists>k v. map hp (crates (updateBullet a env bi g)) = (map hp (crates g))[k := v]"
    unfolding u using entityCollision_one(1) [of a b2 g2] k by (auto simp: same_as_update)
  show "\<exists>k v. map hp (enemies (updateBullet a env bi g)) = (map hp (enemies g))[k := v]"
    unfolding u using entityCollision_one(2) [of a b2 g2] k by (auto simp: same_as_update)
  show "\<exists>k v. map hp (players (updateBullet a env bi g)) = (map hp (players g))[k := v]"
    unfolding u using entityCollision_one(3) [of a b2 g2] k by (auto simp: same_as_update)
qed

subsection \<open>The bullet pass, bullet by bullet\<close>

lemma bulletStep_0: "bulletStep li inp g 0 = bulletPassStart li inp g"
  by (simp add: bulletStep_def)

lemma bulletStep_Suc:
  "bulletStep li inp g (Suc j) =
     updateBullet (activeIndices g) (bulletEnvironment inp (bulletPassStart li inp g)) j
       (bulletStep li inp g j)"
  by (simp add: bulletStep_def)

lemma bulletStep_bullets:
  "length (bullets (bulletStep li inp g k)) = length (bullets (bulletPassStart li inp g))"
  "k \<le> j \<Longrightarrow> bullets (bulletStep li inp g k) ! j = bullets (bulletPassStart li inp g) ! j"
  "j < k \<Longrightarrow> bullets (bulletStep li inp g k) ! j = bullets (bulletStep li inp g (Suc j)) ! j"
proof -
  show "length (bullets (bulletStep li inp g k)) = length (bullets (bulletPassStart li inp g))"
    unfolding bulletStep_def
    by (rule fold_local(1) [where sel = bullets]) (simp_all add: updateBullet_local)
  show "k \<le> j \<Longrightarrow> bullets (bulletStep li inp g k) ! j = bullets (bulletPassStart li inp g) ! j"
    unfolding bulletStep_def
    by (rule fold_local(2) [where sel = bullets]) (simp_all add: updateBullet_local)
  show "j < k \<Longrightarrow> bullets (bulletStep li inp g k) ! j = bullets (bulletStep li inp g (Suc j)) ! j"
    unfolding bulletStep_Suc unfolding bulletStep_def
    by (rule fold_local(3) [where sel = bullets]) (simp_all add: updateBullet_local)
qed

lemma update_bullets:
  assumes "\<not> stopsAtCheck g"
  shows "bullets (update li inp g) =
     filter (\<lambda>b. 0 < lifeTime b)
       (bullets (bulletStep li inp g (length (bullets (bulletPassStart li inp g)))))"
proof -
  have "update li inp g = passes li inp (activeIndices g) g"
    using assms by (rule update_passes)
  then show ?thesis
    by (simp add: passes_def particlePass_def cameraFollow_def Let_def bulletPass_def
        bulletStep_def bulletEnvironment_def bulletPassStart_def)
qed


lemma updateBullet_stopped:
  assumes "hitsWall env (moved g bi) \<or> lifeTime (moved g bi) \<le> 0"
  shows "players (updateBullet a env bi g) = players g"
    "enemies (updateBullet a env bi g) = enemies g"
    "crates (updateBullet a env bi g) = crates g"
    "pickups (updateBullet a env bi g) = pickups g"
proof -
  have "lifeTime (fst (wallLoop env (advanceBullet (homing (enemies g) (bullets g ! bi))) g)) \<le> 0"
    using assms by (auto simp: wallLoop_lifeTime moved_def)
  from updateBullet_guard [OF this, of a]
  show "players (updateBullet a env bi g) = players g"
    "enemies (updateBullet a env bi g) = enemies g"
    "crates (updateBullet a env bi g) = crates g"
    "pickups (updateBullet a env bi g) = pickups g"
    by simp_all
qed

lemma updateBullet_crate_first:
  assumes "startsWith_p (ownerId (moved g bi))" "\<exists>c\<in>set (crates g). touches (moved g bi) c"
  shows "players (updateBullet a env bi g) = players g \<and>
         enemies (updateBullet a env bi g) = enemies g"
proof (cases "hitsWall env (moved g bi) \<or> lifeTime (moved g bi) \<le> 0")
  case True
  then show ?thesis
    using updateBullet_stopped(1,2) [of env g bi a] by simp
next
  case False
  define b1 where "b1 = moved g bi"
  from False have w: "wallLoop env b1 g = (b1, g)" and l: "0 < lifeTime b1"
    by (simp_all add: wallLoop_noHit b1_def)
  have "\<exists>ci\<in>set [0 ..< length (crates g)]. touches b1 (crates g ! ci)"
    using assms(2) unfolding b1_def by (simp only: over_indices)
  then have c: "lifeTime (fst (crateLoop [0 ..< length (crates g)] b1 g)) = 0"
    by (rule crateLoop_hit)
  have e: "entityCollision a b1 g = crateLoop [0 ..< length (crates g)] b1 g"
    using assms(1) c unfolding b1_def [symmetric]
    by (simp add: entityCollision_def Let_def split_beta)
  have u: "updateBullet a env bi g =
      (snd (crateLoop [0 ..< length (crates g)] b1 g))
        \<lparr>bullets := (bullets (snd (crateLoop [0 ..< length (crates g)] b1 g)))
                      [bi := fst (crateLoop [0 ..< length (crates g)] b1 g)]\<rparr>"
    unfolding updateBullet_def Let_def moved_def [symmetric] b1_def [symmetric] w
    using l by (simp add: e split_beta)
  show ?thesis
    unfolding u by simp
qed

text \<open>
  Claim C3, as the code has it. A tick that ends at the defeat or the victory check
  leaves the registry of bullets as it was. In every other tick the bullet pass starts
  from a registry that begins with the bullets of the tick's start (the player and enemy
  passes append their shots) and visits each of its bullets once, in order. A visit lowers
  the lifetime by exactly 1, then tests the bullet against the buildings, whatever the
  lifetime now is. The lifetime that the visit leaves is 0 when a building is hit, or when
  the lifetime was still positive and a crate, an enemy or a player is hit, and else the
  old lifetime less 1. When a building is hit or the lifetime is at most 0 after the
  decrement, the visit checks no crate, enemy or player and leaves them as they were; a
  bullet of a player that hits a crate leaves enemies and players as they were, and no
  visit changes the hit points of more than one crate, one enemy and one player. Later
  visits do not touch the bullet. At the end of the pass exactly the bullets of positive
  lifetime stay: a bullet that is still in the registry after the tick has lost exactly 1,
  and one whose lifetime reached 0, by the countdown or by a resolved collision, is gone.
\<close>

theorem projectile_lifetime:
  "(stopsAtCheck g \<longrightarrow> bullets (update li inp g) = bullets g) \<and>
   (\<not> stopsAtCheck g \<longrightarrow>
      (let S = bulletStep li inp g;
           n = length (bullets (S 0));
           env = bulletEnvironment inp (S 0)
       in S 0 = bulletPassStart li inp g \<and>
          prefix (bullets g) (bullets (S 0)) \<and>
          length (bullets (S n)) = n \<and>
          bullets (update li inp g) = filter (\<lambda>b. 0 < lifeTime b) (bullets (S n)) \<and>
          (\<forall>j<n.
             S (Suc j) = updateBullet (activeIndices g) env j (S j) \<and>
             bullets (S j) ! j = bullets (S 0) ! j \<and>
             bullets (S n) ! j = bullets (S (Suc j)) ! j \<and>
             id_b (bullets (S n) ! j) = id_b (bullets (S 0) ! j) \<and>
             lifeTime (moved (S j) j) = lifeTime (bullets (S 0) ! j) - 1 \<and>
             lifeTime (bullets (S n) ! j) =
               (if hitsWall env (moved (S j) j) \<or>
                   0 < lifeTime (moved (S j) j) \<and> hitsEntity (moved (S j) j) (S j)
                then 0 else lifeTime (bullets (S 0) ! j) - 1) \<and>
             (hitsWall env (moved (S j) j) \<or> lifeTime (moved (S j) j) \<le> 0 \<longrightarrow>
                players (S (Suc j)) = players (S j) \<and> enemies (S (Suc j)) = enemies (S j) \<and>
                crates (S (Suc j)) = crates (S j) \<and> pickups (S (Suc j)) = pickups (S j)) \<and>
             (startsWith_p (ownerId (moved (S j) j)) \<and>
              (\<exists>c\<in>set (crates (S j)). touches (moved (S j) j) c) \<longrightarrow>
                players (S (Suc j)) = players (S j) \<and> enemies (S (Suc j)) = enemies (S j)) \<and>
             (\<exists>k v. map hp (crates (S (Suc j))) = (map hp (crates (S j)))[k := v]) \<and>
             (\<exists>k v. map hp (enemies (S (Suc j))) = (map hp (enemies (S j)))[k := v]) \<and>
             (\<exists>k v. map hp (players (S (Suc j))) = (map hp (players (S j)))[k := v])) \<and>
          (\<forall>b'\<in>set (bullets (update li inp g)).
             0 < lifeTime b' \<and>
             (\<exists>j<n. id_b b' = id_b (bullets (S 0) ! j) \<and>
                    lifeTime b' = lifeTime (bullets (S 0) ! j) - 1))))"
proof (intro conjI impI)
  assume "stopsAtCheck g"
  from update_stops [OF this, of li inp]
  show "bullets (update li inp g) = bullets g" by auto
next
  assume run: "\<not> stopsAtCheck g"
  define S where "S = bulletStep li inp g"
  define n where "n = length (bullets (S 0))"
  define env where "env = bulletEnvironment inp (S 0)"
  have s0: "S 0 = bulletPassStart li inp g"
    by (simp add: S_def bulletStep_0)
  have pre: "prefix (bullets g) (bullets (S 0))"
    unfolding s0 by (rule bulletPassStart_prefix)
  have len: "length (bullets (S k)) = n" for k
    unfolding n_def S_def bulletStep_0 by (rule bulletStep_bullets(1))
  have upd: "bullets (update li inp g) = filter (\<lambda>b. 0 < lifeTime b) (bullets (S n))"
    unfolding n_def S_def bulletStep_0 using run by (rule update_bullets)
  have step: "S (Suc j) = updateBullet (activeIndices g) env j (S j)" for j
    unfolding env_def S_def bulletStep_0 by (rule bulletStep_Suc)
  have visit: "bullets (S j) ! j = bullets (S 0) ! j \<and>
             bullets (S n) ! j = bullets (S (Suc j)) ! j \<and>
             id_b (bullets (S n) ! j) = id_b (bullets (S 0) ! j) \<and>
             lifeTime (moved (S j) j) = lifeTime (bullets (S 0) ! j) - 1 \<and>
             lifeTime (bullets (S n) ! j) =
               (if hitsWall env (moved (S j) j) \<or>
                   0 < lifeTime (moved (S j) j) \<and> hitsEntity (moved (S j) j) (S j)
                then 0 else lifeTime (bullets (S 0) ! j) - 1) \<and>
             (hitsWall env (moved (S j) j) \<or> lifeTime (moved (S j) j) \<le> 0 \<longrightarrow>
                players (S (Suc j)) = players (S j) \<and> enemies (S (Suc j)) = enemies (S j) \<and>
                crates (S (Suc j)) = crates (S j) \<and> pickups (S (Suc j)) = pickups (S j)) \<and>
             (startsWith_p (ownerId (moved (S j) j)) \<and>
              (\<exists>c\<in>set (crates (S j)). touches (moved (S j) j) c) \<longrightarrow>
                players (S (Suc j)) = players (S j) \<and> enemies (S (Suc j)) = enemies (S j)) \<and>
             (\<exists>k v. map hp (crates (S (Suc j))) = (map hp (crates (S j)))[k := v]) \<and>
             (\<exists>k v. map hp (enemies (S (Suc j))) = (map hp (enemies (S j)))[k := v]) \<and>
             (\<exists>k v. map hp (players (S (Suc j))) = (map hp (players (S j)))[k := v])"
    if j: "j < n" for j
  proof -
    have a: "bullets (S j) ! j = bullets (S 0) ! j"
      unfolding S_def bulletStep_0 by (rule bulletStep_bullets(2)) simp
    have b: "bullets (S n) ! j = bullets (S (Suc j)) ! j"
      unfolding S_def using j by (rule bulletStep_bullets(3))
    have jl: "j < length (bullets (S j))"
      using j len by simp
    have c: "id_b (bullets (S (Suc j)) ! j) = id_b (bullets (S j) ! j)"
      unfolding step using jl by (rule updateBullet_lifeTime(2))
    have d: "lifeTime (moved (S j) j) = lifeTime (bullets (S j) ! j) - 1"
      by (simp add: moved_def)
    have e: "lifeTime (bullets (S (Suc j)) ! j) =
               (if hitsWall env (moved (S j) j) \<or>
                   0 < lifeTime (moved (S j) j) \<and> hitsEntity (moved (S j) j) (S j)
                then 0 else lifeTime (bullets (S j) ! j) - 1)"
      unfolding step using jl by (rule updateBullet_lifeTime(1))
    have f: "players (S (Suc j)) = players (S j) \<and> enemies (S (Suc j)) = enemies (S j) \<and>
                crates (S (Suc j)) = crates (S j) \<and> pickups (S (Suc j)) = pickups (S j)"
      if "hitsWall env (moved (S j) j) \<or> lifeTime (moved (S j) j) \<le> 0"
      unfolding step using updateBullet_stopped [OF that] by simp
    have h: "players (S (Suc j)) = players (S j) \<and> enemies (S (Suc j)) = enemies (S j)"
      if "startsWith_p (ownerId (moved (S j) j)) \<and>
          (\<exists>c\<in>set (crates (S j)). touches (moved (S j) j) c)"
      unfolding step using updateBullet_crate_first [of "S j" j] that by simp
    have o: "\<exists>k v. map hp (crates (S (Suc j))) = (map hp (crates (S j)))[k := v]"
      "\<exists>k v. map hp (enemies (S (Suc j))) = (map hp (enemies (S j)))[k := v]"
      "\<exists>k v. map hp (players (S (Suc j))) = (map hp (players (S j)))[k := v]"
      unfolding step by (rule updateBullet_one)+
    from a b c d e f h o show ?thesis by simp
  qed
  have surv: "0 < lifeTime b' \<and>
             (\<exists>j<n. id_b b' = id_b (bullets (S 0) ! j) \<and>
                    lifeTime b' = lifeTime (bullets (S 0) ! j) - 1)"
    if m: "b' \<in> set (bullets (update li inp g))" for b'
  proof -
    from m upd have p: "0 < lifeTime b'" and "b' \<in> set (bullets (S n))" by simp_all
    then obtain j where j: "j < n" "bullets (S n) ! j = b'"
      using len [of n] by (auto simp: in_set_conv_nth)
    from visit [OF j(1)] j(2) p
    have "id_b b' = id_b (bullets (S 0) ! j) \<and> lifeTime b' = lifeTime (bullets (S 0) ! j) - 1"
      by (auto split: if_splits)
    with p j(1) show ?thesis by blast
  qed
  show "let S = bulletStep li inp g;
           n = length (bullets (S 0));
           env = bulletEnvironment inp (S 0)
       in S 0 = bulletPassStart li inp g \<and>
          prefix (bullets g) (bullets (S 0)) \<and>
          length (bullets (S n)) = n \<and>
          bullets (update li inp g) = filter (\<lambda>b. 0 < lifeTime b) (bullets (S n)) \<and>
          (\<forall>j<n.
             S (Suc j) = updateBullet (activeIndices g) env j (S j) \<and>
             bullets (S j) ! j = bullets (S 0) ! j \<and>
             bullets (S n) ! j = bullets (S (Suc j)) ! j \<and>
             id_b (bullets (S n) ! j) = id_b (bullets (S 0) ! j) \<and>
             lifeTime (moved (S j) j) = lifeTime (bullets (S 0) ! j) - 1 \<and>
             lifeTime (bullets (S n) ! j) =
               (if hitsWall env (moved (S j) j) \<or>
                   0 < lifeTime (moved (S j) j) \<and> hitsEntity (moved (S j) j) (S j)
                then 0 else lifeTime (bullets (S 0) ! j) - 1) \<and>
             (hitsWall env (moved (S j) j) \<or> lifeTime (moved (S j) j) \<le> 0 \<longrightarrow>
                players (S (Suc j)) = players (S j) \<and> enemies (S (Suc j)) = enemies (S j) \<and>
                crates (S (Suc j)) = crates (S j) \<and> pickups (S (Suc j)) = pickups (S j)) \<and>
             (startsWith_p (ownerId (moved (S j) j)) \<and>
              (\<exists>c\<in>set (crates (S j)). touches (moved (S j) j) c) \<longrightarrow>
                players (S (Suc j)) = players (S j) \<and> enemies (S (Suc j)) = enemies (S j)) \<and>
             (\<exists>k v. map hp (crates (S (Suc j))) = (map hp (crates (S j)))[k := v]) \<and>
             (\<exists>k v. map hp (enemies (S (Suc j))) = (map hp (enemies (S j)))[k := v]) \<and>
             (\<exists>k v. map hp (players (S (Suc j))) = (map hp (players (S j)))[k := v])) \<and>
          (\<forall>b'\<in>set (bullets (update li inp g)).
             0 < lifeTime b' \<and>
             (\<exists>j<n. id_b b' = id_b (bullets (S 0) ! j) \<and>
                    lifeTime b' = lifeTime (bullets (S 0) ! j) - 1))"
    unfolding Let_def S_def [symmetric] n_def [symmetric] env_def [symmetric]
    using s0 pre len [of n] upd step visit surv by blast
qed


subsection \<open>A tick in which no key is held and nothing is around\<close>

lemma updatePlayer_quiet:
  assumes "keysPressed inp = {}"
  shows "bullets (updatePlayer inp i g) = bullets g"
    "particles (updatePlayer inp i g) = particles g"
    "camera (updatePlayer inp i g) = camera g"
    "randoms (updatePlayer inp i g) = randoms g"
    "randomsUsed (updatePlayer inp i g) = randomsUsed g"
  using assms by (simp_all add: updatePlayer_def shooting_def Let_def)

lemma playerPass_quiet:
  assumes "keysPressed inp = {}"
  shows "bullets (playerPass inp g) = bullets g"
    "particles (playerPass inp g) = particles g"
    "camera (playerPass inp g) = camera g"
    "randoms (playerPass inp g) = randoms g"
    "randomsUsed (playerPass inp g) = randomsUsed g"
  unfolding playerPass_def
  by (rule fold_keeps, simp add: updatePlayer_quiet [OF assms])+

lemma fold_fixed: "(\<And>x. f x s = s) \<Longrightarrow> fold f xs s = s"
  by (induction xs) simp_all

lemma interactionPass_quiet:
  assumes "crates g = []" "pickups g = []"
  shows "interactionPass g = g"
proof -
  have "interact pidx g = g" for pidx
    by (simp add: interact_def assms)
  then have "fold interact xs g = g" for xs
    by (rule fold_fixed)
  then show ?thesis
    by (simp add: interactionPass_def Let_def assms)
qed

lemma enemyPass_quiet: "enemies g = [] \<Longrightarrow> enemyPass a g = g"
  by (simp add: enemyPass_def)

lemma crystalPass_quiet: "crystals g = [] \<Longrightarrow> crystalPass a g = g"
  by (simp add: crystalPass_def)

lemma spawnPass_quiet:
  assumes "\<not> bossSpawned g" "waveTimer g = 0" "int (crystalsCollected g) < CRYSTALS_TO_BOSS li"
  shows "spawnPass li g = g\<lparr>waveTimer := 1\<rparr>"
  using assms by (simp add: spawnPass_def Let_def)

lemma bulletPassStart_quiet:
  assumes "keysPressed inp = {}" "enemies g = []" "crystals g = []" "crates g = []"
    "pickups g = []" "\<not> bossSpawned g" "waveTimer g = 0"
    "int (crystalsCollected g) < CRYSTALS_TO_BOSS li"
  shows "bulletPassStart li inp g = playerPass inp (g\<lparr>waveTimer := 1\<rparr>)"
    and "bullets (bulletPassStart li inp g) = bullets g"
    and "particles (bulletPassStart li inp g) = particles g"
    and "camera (bulletPassStart li inp g) = camera g"
    and "randoms (bulletPassStart li inp g) = randoms g"
    and "enemies (bulletPassStart li inp g) = []"
    and "crates (bulletPassStart li inp g) = []"
proof -
  define h where "h = playerPass inp (g\<lparr>waveTimer := 1\<rparr>)"
  have k: "enemies h = []" "crystals h = []" "crates h = []" "pickups h = []"
    by (simp_all add: h_def assms)
  have s: "bulletPassStart li inp g = h"
    unfolding bulletPassStart_def spawnPass_quiet [OF assms(6,7,8)] h_def [symmetric]
    by (simp add: interactionPass_quiet k enemyPass_quiet crystalPass_quiet)
  show "bulletPassStart li inp g = playerPass inp (g\<lparr>waveTimer := 1\<rparr>)"
    unfolding s h_def ..
  show "bullets (bulletPassStart li inp g) = bullets g"
    "particles (bulletPassStart li inp g) = particles g"
    "camera (bulletPassStart li inp g) = camera g"
    "randoms (bulletPassStart li inp g) = randoms g"
    unfolding s h_def by (simp_all add: playerPass_quiet [OF assms(1)])
  show "enemies (bulletPassStart li inp g) = []" "crates (bulletPassStart li inp g) = []"
    unfolding s by (rule k)+
qed

lemma no_wall_at_origin:
  assumes "pos_b b = \<lparr>xc = 0, yc = 0\<rparr>"
  shows "\<not> hitsWall (getEnvironmentInRect x y w h) b"
proof
  assume "hitsWall (getEnvironmentInRect x y w h) b"
  then obtain env where e: "env \<in> set (getEnvironmentInRect x y w h)"
    "type_env env = Building" "insideBuilding b env"
    by (auto simp: hitsWall_def)
  from e(1) obtain gx gy where "getEnvironmentAt gx gy = Some env"
    unfolding getEnvironmentInRect_spec set_queryRect_spec by blast
  from no_building_at_origin [OF this e(2) assms] e(3) show False by blast
qed

theorem projectile_lifetime_witness:
  "map lifeTime (bullets flyScene) = [29] \<and>
   map lifeTime (bullets (update None noKeys flyScene)) = [28] \<and>
   map id_b (bullets (update None noKeys flyScene)) = map id_b (bullets flyScene) \<and>
   bullets (update None noKeys deadScene) = bullets deadScene"
proof -
  have t: "CRYSTALS_TO_BOSS None = 12"
    by (simp add: CRYSTALS_TO_BOSS_def levelOr1_def)
  have f: "bullets flyScene = [pelletAt \<lparr>xc = - 12, yc = 0\<rparr>]" "enemies flyScene = []"
    "crystals flyScene = []" "crates flyScene = []" "pickups flyScene = []"
    "\<not> bossSpawned flyScene" "waveTimer flyScene = 0" "crystalsCollected flyScene = 0"
    by (simp_all add: flyScene_def newSession_def initGame_def blankGame_def)
  have k: "keysPressed noKeys = {}"
    by (simp add: noKeys_def)
  have run: "\<not> stopsAtCheck flyScene"
    by (simp add: stopsAtCheck_def activeIndices_def flyScene_def newSession_def initGame_def
        blankGame_def)
  have stop: "stopsAtCheck deadScene"
    by (simp add: stopsAtCheck_def activeIndices_def deadScene_def allDead_def newSession_def
        initGame_def blankGame_def)
  define S where "S = bulletStep None noKeys flyScene"
  have s0: "bullets (S 0) = [pelletAt \<lparr>xc = - 12, yc = 0\<rparr>]" "enemies (S 0) = []" "crates (S 0) = []"
    unfolding S_def bulletStep_0
    using bulletPassStart_quiet(2,6,7) [OF k f(2,3,4,5,6,7), of None] by (simp_all add: f t)
  define b1 where "b1 = moved (S 0) 0"
  have b1: "pos_b b1 = \<lparr>xc = 0, yc = 0\<rparr>" "lifeTime b1 = 28" "startsWith_p (ownerId b1)"
    by (simp_all add: b1_def moved_def s0 homing_def advanceBullet_def pelletAt_def)
  have nw: "\<not> hitsWall (bulletEnvironment noKeys (S 0)) b1"
    unfolding bulletEnvironment_def by (rule no_wall_at_origin [OF b1(1)])
  have ne: "\<not> hitsEntity b1 (S 0)"
    by (simp add: hitsEntity_def b1 s0)
  have n: "length (bullets (S 0)) = 1"
    by (simp add: s0)
  note T = projectile_lifetime [of flyScene None noKeys, unfolded Let_def, THEN conjunct2,
      rule_format, OF run, folded S_def, unfolded n]
  note V = T [THEN conjunct2, THEN conjunct2, THEN conjunct2, THEN conjunct2, THEN conjunct1,
      rule_format, of 0, OF zero_less_one]
  have A: "length (bullets (S 1)) = 1"
    "bullets (update None noKeys flyScene) = filter (\<lambda>b. 0 < lifeTime b) (bullets (S 1))"
    using T by blast+
  have B: "id_b (bullets (S 1) ! 0) = id_b (bullets (S 0) ! 0)"
    "lifeTime (bullets (S 1) ! 0) =
       (if hitsWall (bulletEnvironment noKeys (S 0)) (moved (S 0) 0) \<or>
           0 < lifeTime (moved (S 0) 0) \<and> hitsEntity (moved (S 0) 0) (S 0)
        then 0 else lifeTime (bullets (S 0) ! 0) - 1)"
    using V by blast+
  have l: "lifeTime (bullets (S 1) ! 0) = 28"
    unfolding B(2) b1_def [symmetric] using nw ne by (simp add: s0 pelletAt_def)
  from A(1) obtain x where x: "bullets (S 1) = [x]"
    by (cases "bullets (S 1)") simp_all
  from A(2) B(1) l x
  have 1: "map lifeTime (bullets (update None noKeys flyScene)) = [28]"
    "map id_b (bullets (update None noKeys flyScene)) = map id_b (bullets flyScene)"
    by (simp_all add: s0 f)
  have 2: "bullets (update None noKeys deadScene) = bullets deadScene"
    using projectile_lifetime [of deadScene None noKeys] stop by simp
  have 3: "map lifeTime (bullets flyScene) = [29]"
    by (simp add: f pelletAt_def)
  from 1 2 3 show ?thesis by simp
qed


subsection \<open>A bullet that flies into a building in its last tick\<close>

lemma spawnParticle_zero:
  assumes "randoms g = (\<lambda>n. 0)"
  shows "particles (spawnParticle p c n t g) =
           particles g @
             replicate n \<lparr>id_pt = NumStr 0, pos_pt = p, vel_pt = \<lparr>xc = 1, yc = 0\<rparr>, life = 20,
                           maxLife = 40, color_pt = c, size_pt = 2, type_pt = t\<rparr>"
  using assms
proof (induction n arbitrary: g)
  case 0
  then show ?case by simp
next
  case (Suc n)
  have r: "randoms (spawnParticle1 p c t g) = (\<lambda>n. 0)"
    using Suc.prems by simp
  have 1: "particles (spawnParticle1 p c t g) =
      particles g @ [\<lparr>id_pt = NumStr 0, pos_pt = p, vel_pt = \<lparr>xc = 1, yc = 0\<rparr>, life = 20,
                           maxLife = 40, color_pt = c, size_pt = 2, type_pt = t\<rparr>]"
    using Suc.prems by (simp add: spawnParticle1_def advance_def Let_def rnd_def)
  show ?case
    by (simp add: Suc.IH [OF r] 1 replicate_append_same)
qed

lemma particlePass_fresh:
  assumes "particles g = replicate n x" "1 < life x"
  shows "map type_pt (particles (particlePass g)) = replicate n (type_pt x)"
  using assms by (simp add: particlePass_def)

lemma bulletPass_wall_hit:
  assumes "bullets g = [b0]" "hitsWall (bulletEnvironment inp g) (moved g 0)"
  shows "bullets (bulletPass inp a g) = []"
    and "particles (bulletPass inp a g) =
           particles (spawnParticle (pos_b (moved g 0)) (Lit ''#555'') 5 Smoke g)"
proof -
  define env where "env = bulletEnvironment inp g"
  define b1 where "b1 = moved g 0"
  have w: "wallLoop env b1 g =
      (b1\<lparr>lifeTime := 0\<rparr>, spawnParticle (pos_b b1) (Lit ''#555'') 5 Smoke g)"
    using assms(2) unfolding env_def b1_def hitsWall_def by (rule wallLoop_hit)
  have u: "updateBullet a env 0 g =
      (spawnParticle (pos_b b1) (Lit ''#555'') 5 Smoke g)\<lparr>bullets := [b1\<lparr>lifeTime := 0\<rparr>]\<rparr>"
    unfolding updateBullet_def Let_def moved_def [symmetric] b1_def [symmetric] w
    by (simp add: assms(1))
  have p: "bulletPass inp a g =
      (updateBullet a env 0 g)
        \<lparr>bullets := filter (\<lambda>b. lifeTime b > 0) (bullets (updateBullet a env 0 g)),
          enemies := filter (\<lambda>e. \<not> dead e) (enemies (updateBullet a env 0 g))\<rparr>"
    by (simp add: bulletPass_def Let_def assms(1) env_def bulletEnvironment_def)
  show "bullets (bulletPass inp a g) = []"
    unfolding p u by simp
  show "particles (bulletPass inp a g) =
           particles (spawnParticle (pos_b (moved g 0)) (Lit ''#555'') 5 Smoke g)"
    unfolding p u b1_def by simp
qed

text \<open>
  Two sentences of C3 do not hold of the code. That the lifetime decreases on each tick:
  a tick that ends at the defeat check leaves the pellet at lifetime 29. That a projectile
  whose lifetime is at most 0 takes part in no further collision check: a bullet in its
  last tick starts outside the building of the cell \<open>(-6, 1)\<close>, the decrement brings its
  lifetime to 0, and it is still tested against the building it has flown into; the hit is
  resolved with a burst of five smoke particles.
\<close>

theorem expired_bullet_hits_wall_counterexample:
  "lifeTime (bullets deadScene ! 0) = 29 \<and>
   lifeTime (bullets (update None noKeys deadScene) ! 0) = 29 \<and>
   lifeTime (bullets wallScene ! 0) = 1 \<and>
   insideBuilding (bullets wallScene ! 0) (the (getEnvironmentAt (- 6) 1)) = False \<and>
   lifeTime (advanceBullet (bullets wallScene ! 0)) = 0 \<and>
   particles wallScene = [] \<and>
   bullets (update None noKeys wallScene) = [] \<and>
   map type_pt (particles (update None noKeys wallScene)) = [Smoke, Smoke, Smoke, Smoke, Smoke]"
proof -
  obtain bld where bld: "getEnvironmentAt (- 6) 1 = Some bld" "type_env bld = Building"
    "xc (size_env bld) = 120"
    using building_cell by blast
  have sy: "yc (size_env bld) = 100 + valAt (- 6) 1 * 50"
    using bld(1) val_cell_m6_1(1) by (auto simp: getEnvironmentAt_def Let_def split: if_splits)
  have ypos: "0 < yc (size_env bld)"
    using sy valAt_range [of "- 6" 1] by simp
  define b0 where "b0 = lastTickBullet (pos_env bld)"
  have t: "CRYSTALS_TO_BOSS None = 12"
    by (simp add: CRYSTALS_TO_BOSS_def levelOr1_def)
  have s: "bullets wallScene = [b0]" "particles wallScene = []" "enemies wallScene = []"
    "camera wallScene = \<lparr>xc = - 1100, yc = 300\<rparr>" "crystals wallScene = []"
    "crates wallScene = []" "pickups wallScene = []" "\<not> bossSpawned wallScene"
    "waveTimer wallScene = 0" "crystalsCollected wallScene = 0"
    "randoms wallScene = (\<lambda>n. 0)"
    by (simp_all add: wallScene_def newSession_def initGame_def blankGame_def bld(1) b0_def)
  have k: "keysPressed noKeys = {}" "innerWidth noKeys = 800" "innerHeight noKeys = 600"
    by (simp_all add: noKeys_def)
  have l0: "lifeTime b0 = 1" "bulletType b0 = Weapon Ak47"
    "pos_b b0 = \<lparr>xc = xc (pos_env bld) - 68, yc = yc (pos_env bld)\<rparr>"
    by (simp_all add: b0_def lastTickBullet_def)
  have out: "\<not> insideBuilding b0 bld"
    by (simp add: insideBuilding_def Let_def l0 bld(3))
  have run: "\<not> stopsAtCheck wallScene"
    by (simp add: stopsAtCheck_def activeIndices_def wallScene_def newSession_def initGame_def
        blankGame_def)
  define h where "h = bulletPassStart None noKeys wallScene"
  have q: "bullets h = [b0]" "particles h = []" "camera h = \<lparr>xc = - 1100, yc = 300\<rparr>"
    "randoms h = (\<lambda>n. 0)" "enemies h = []"
    unfolding h_def
    using bulletPassStart_quiet [OF k(1) s(3,5,6,7,8,9), of None] by (simp_all add: s t)
  define b1 where "b1 = moved h 0"
  have b1: "pos_b b1 = \<lparr>xc = xc (pos_env bld) - 52, yc = yc (pos_env bld)\<rparr>" "lifeTime b1 = 0"
    by (simp_all add: b1_def moved_def q homing_def l0 advanceBullet_def b0_def lastTickBullet_def)
  have inside: "insideBuilding b1 bld"
    using ypos by (simp add: insideBuilding_def Let_def b1 bld(3))
  have "(- 6, 1) \<in> set (haloCells (- 1100) 300 1200 900)"
    by (simp add: set_haloCells GRID_CELL_SIZE_def)
  with bld(1) have "bld \<in> set (getEnvironmentInRect (- 1100) 300 1200 900)"
    unfolding getEnvironmentInRect_spec set_queryRect_spec by blast
  then have mem: "bld \<in> set (bulletEnvironment noKeys h)"
    by (simp add: bulletEnvironment_def q k)
  have hit: "hitsWall (bulletEnvironment noKeys h) (moved h 0)"
    unfolding hitsWall_def b1_def [symmetric] using mem bld(2) inside by blast
  have u: "update None noKeys wallScene =
      cameraFollow (particlePass (bulletPass noKeys (activeIndices wallScene) h))"
    unfolding update_passes [OF run] passes_def h_def bulletPassStart_def ..
  have bp: "bullets (bulletPass noKeys (activeIndices wallScene) h) = []"
    using q(1) hit by (rule bulletPass_wall_hit(1))
  have pp: "particles (bulletPass noKeys (activeIndices wallScene) h) =
      replicate 5 \<lparr>id_pt = NumStr 0, pos_pt = pos_b b1, vel_pt = \<lparr>xc = 1, yc = 0\<rparr>, life = 20,
                    maxLife = 40, color_pt = Lit ''#555'', size_pt = 2, type_pt = Smoke\<rparr>"
    unfolding bulletPass_wall_hit(2) [OF q(1) hit] b1_def [symmetric]
    by (simp add: spawnParticle_zero [OF q(4)] q(2))
  have 1: "bullets (update None noKeys wallScene) = []"
    unfolding u by (simp add: cameraFollow_def particlePass_def Let_def bp)
  have "map type_pt (particles (particlePass (bulletPass noKeys (activeIndices wallScene) h))) =
      replicate 5 Smoke"
    using particlePass_fresh [OF pp] by simp
  then have 2: "map type_pt (particles (update None noKeys wallScene)) = replicate 5 Smoke"
    unfolding u by (simp add: cameraFollow_def Let_def)
  have r: "replicate 5 Smoke = [Smoke, Smoke, Smoke, Smoke, Smoke]"
    by (simp add: numeral_eq_Suc)
  have d: "\<forall>p\<in>set (players deadScene). dead p" "bullets deadScene = [pelletAt \<lparr>xc = - 12, yc = 0\<rparr>]"
    by (simp_all add: deadScene_def allDead_def)
  have 3: "lifeTime (bullets deadScene ! 0) = 29"
    "lifeTime (bullets (update None noKeys deadScene) ! 0) = 29"
    by (simp_all add: update_defeat [OF d(1)] d(2) pelletAt_def)
  have 4: "lifeTime (bullets wallScene ! 0) = 1"
    "insideBuilding (bullets wallScene ! 0) (the (getEnvironmentAt (- 6) 1)) = False"
    "lifeTime (advanceBullet (bullets wallScene ! 0)) = 0"
    using out by (simp_all add: s l0 bld(1))
  from 1 2 3 4 s(2) show ?thesis
    unfolding r by blast
qed

end
